(* ===== verification/Prelude.thy ===== *)
theory Prelude
  imports Complex_Main "HOL-Library.Word"
begin

text \<open>
  Shared vocabulary of the development.

  \<^item> The exception-and-state actions in which every coroutine of
    \<^verbatim>\<open>main-api/app\<close> is written: an action takes the state, and gives back either the
    raised error or the returned value, together with the state reached so far.  Python keeps
    the effects made before an exception; whether they become durable is decided by the caller
    (commit or rollback), so the state is returned on both branches.
  \<^item> The SQL statements the repositories issue (INSERT, UPDATE ... RETURNING, SELECT), generic
    in the table, and the lens laws of a table as the locale \<open>sql_table\<close>.
  \<^item> UUIDs, JSON values and the Python conversions applied to them (\<open>str\<close>, \<open>bool\<close>,
    \<open>int\<close>, \<open>dict.get\<close>, \<open>or\<close>).
\<close>

named_theorems act_simps \<open>evaluation of actions\<close>
named_theorems row_simps \<open>tables after a statement\<close>

section \<open>Exceptions and state\<close>

type_synonym ('e, 's, 'a) act = "'s \<Rightarrow> ('e + 'a) \<times> 's"

definition returnM :: "'a \<Rightarrow> ('e, 's, 'a) act" where
  "returnM a s = (Inr a, s)"

definition raiseM :: "'e \<Rightarrow> ('e, 's, 'a) act" where
  "raiseM e s = (Inl e, s)"

definition bindM :: "('e, 's, 'a) act \<Rightarrow> ('a \<Rightarrow> ('e, 's, 'b) act) \<Rightarrow> ('e, 's, 'b) act" where
  "bindM m f s = (case m s of (Inl e, s') \<Rightarrow> (Inl e, s') | (Inr a, s') \<Rightarrow> f a s')"

definition getsM :: "('s \<Rightarrow> 'a) \<Rightarrow> ('e, 's, 'a) act" where
  "getsM f s = (Inr (f s), s)"

definition guardM :: "bool \<Rightarrow> 'e \<Rightarrow> ('e, 's, unit) act" where
  "guardM c e = (if c then returnM () else raiseM e)"

definition liftM :: "'e + 'a \<Rightarrow> ('e, 's, 'a) act" where
  "liftM r s = (r, s)"

primrec eachM :: "('x \<Rightarrow> ('e, 's, unit) act) \<Rightarrow> 'x list \<Rightarrow> ('e, 's, unit) act" where
  "eachM f [] = returnM ()"
| "eachM f (x # xs) = bindM (f x) (\<lambda>_. eachM f xs)"

lemma returnM_apply [simp, act_simps]: "returnM a s = (Inr a, s)"
  by (simp add: returnM_def)

lemma raiseM_apply [simp, act_simps]: "raiseM e s = (Inl e, s)"
  by (simp add: raiseM_def)

lemma getsM_apply [simp, act_simps]: "getsM f s = (Inr (f s), s)"
  by (simp add: getsM_def)

lemma liftM_apply [simp, act_simps]: "liftM r s = (r, s)"
  by (simp add: liftM_def)

lemma guardM_apply [simp, act_simps]: "guardM c e s = (if c then Inr () else Inl e, s)"
  by (simp add: guardM_def)

lemma bindM_Inr_iff [simp]:
  "bindM m f s = (Inr b, s') \<longleftrightarrow> (\<exists>a s1. m s = (Inr a, s1) \<and> f a s1 = (Inr b, s'))"
  by (auto simp: bindM_def split: prod.splits sum.splits)

lemma bindM_Inl_iff:
  "bindM m f s = (Inl e, s') \<longleftrightarrow>
     m s = (Inl e, s') \<or> (\<exists>a s1. m s = (Inr a, s1) \<and> f a s1 = (Inl e, s'))"
  by (auto simp: bindM_def split: prod.splits sum.splits)

lemma bindM_step [act_simps]: "m s = (Inr a, s1) \<Longrightarrow> bindM m f s = f a s1"
  by (simp add: bindM_def)

lemma bindM_fail [act_simps]: "m s = (Inl e, s1) \<Longrightarrow> bindM m f s = (Inl e, s1)"
  by (simp add: bindM_def)

lemma bindM_returnM [simp]: "bindM (returnM a) f = f a"
  by (rule ext) (simp add: bindM_def)

lemma bindM_raiseM [simp]: "bindM (raiseM e) f = raiseM e"
  by (rule ext) (simp add: bindM_def)

lemma bindM_assoc: "bindM (bindM m f) g = bindM m (\<lambda>a. bindM (f a) g)"
  by (rule ext) (auto simp: bindM_def split: prod.splits sum.splits)

lemma bindM_run [act_simps]:
  "bindM (getsM g) f s = f (g s) s"
  "bindM (liftM r) f s = (case r of Inl e \<Rightarrow> (Inl e, s) | Inr a \<Rightarrow> f a s)"
  "bindM (guardM c e) f' s = (if c then f' () s else (Inl e, s))"
  by (auto simp: bindM_def split: sum.splits)

text \<open>An action that only reads.\<close>

definition readonly :: "('e, 's, 'a) act \<Rightarrow> bool" where
  "readonly m \<longleftrightarrow> (\<forall>s. snd (m s) = s)"

lemma readonly_intros [intro]:
  "readonly (returnM a)" "readonly (raiseM e)" "readonly (getsM f)" "readonly (liftM r)"
  "readonly (guardM c e)"
  by (auto simp: readonly_def)

lemma readonly_bindM [intro]:
  "readonly m \<Longrightarrow> (\<And>a. readonly (f a)) \<Longrightarrow> readonly (bindM m f)"
  by (auto simp: readonly_def bindM_def split: prod.splits sum.splits) (metis snd_conv)+

lemma readonlyD: "readonly m \<Longrightarrow> m s = (r, s') \<Longrightarrow> s' = s"
  by (metis readonly_def snd_conv)

section \<open>SQL statements over a table\<close>

text \<open>
  A table is a list of rows reached through a selector and an updater of the database record.
  \<open>sql_update\<close> is \<^verbatim>\<open>UPDATE t SET f WHERE p RETURNING *\<close>; \<open>sql_insert\<close> appends a row
  that the constraints of the table admit; \<open>sql_select\<close> is a plain filter.
\<close>

definition update_where :: "('r \<Rightarrow> bool) \<Rightarrow> ('r \<Rightarrow> 'r) \<Rightarrow> 'r list \<Rightarrow> 'r list" where
  "update_where p f rs = map (\<lambda>r. if p r then f r else r) rs"

definition sql_select :: "('s \<Rightarrow> 'r list) \<Rightarrow> ('r \<Rightarrow> bool) \<Rightarrow> ('e, 's, 'r list) act" where
  "sql_select rows p = getsM (\<lambda>s. filter p (rows s))"

definition sql_scalar :: "('s \<Rightarrow> 'r list) \<Rightarrow> ('r \<Rightarrow> bool) \<Rightarrow> ('e, 's, 'r option) act" where
  "sql_scalar rows p = getsM (\<lambda>s. find p (rows s))"

definition sql_update ::
  "('s \<Rightarrow> 'r list) \<Rightarrow> (('r list \<Rightarrow> 'r list) \<Rightarrow> 's \<Rightarrow> 's) \<Rightarrow> ('r \<Rightarrow> bool) \<Rightarrow> ('r \<Rightarrow> 'r)
     \<Rightarrow> ('e, 's, 'r list) act" where
  "sql_update rows upd p f s = (Inr (map f (filter p (rows s))), upd (update_where p f) s)"

text \<open>
  The repositories' recurring shape: \<^verbatim>\<open>scalar(update(T).where(...).values(...).returning(T))\<close>,
  an exception when no row came back, the converted first row otherwise.
\<close>

definition sql_update_one ::
  "('s \<Rightarrow> 'r list) \<Rightarrow> (('r list \<Rightarrow> 'r list) \<Rightarrow> 's \<Rightarrow> 's) \<Rightarrow> ('r \<Rightarrow> bool) \<Rightarrow> ('r \<Rightarrow> 'r)
     \<Rightarrow> ('r \<Rightarrow> 'a) \<Rightarrow> 'e \<Rightarrow> ('e, 's, 'a) act" where
  "sql_update_one rows upd p f conv err =
     bindM (sql_update rows upd p f)
       (\<lambda>rs. case rs of [] \<Rightarrow> raiseM err | m # _ \<Rightarrow> returnM (conv m))"

definition sql_insert ::
  "(('r list \<Rightarrow> 'r list) \<Rightarrow> 's \<Rightarrow> 's) \<Rightarrow> ('s \<Rightarrow> 'r \<Rightarrow> 'e option) \<Rightarrow> 'r \<Rightarrow> ('e, 's, 'r) act" where
  "sql_insert upd violates r s =
     (case violates s r of Some e \<Rightarrow> (Inl e, s) | None \<Rightarrow> (Inr r, upd (\<lambda>rs. rs @ [r]) s))"

lemma sql_run [act_simps]:
  "sql_select rows p s = (Inr (filter p (rows s)), s)"
  "sql_scalar rows p s = (Inr (find p (rows s)), s)"
  by (simp_all add: sql_select_def sql_scalar_def)

lemma bindM_sql_run [act_simps]:
  "bindM (sql_scalar rows p) g s = g (find p (rows s)) s"
  "bindM (sql_select rows p) h s = h (filter p (rows s)) s"
  "bindM (sql_update rows upd p f) k s = k (map f (filter p (rows s))) (upd (update_where p f) s)"
  "bindM (sql_insert upd violates r) q s =
     (case violates s r of Some e \<Rightarrow> (Inl e, s) | None \<Rightarrow> q r (upd (\<lambda>rs. rs @ [r]) s))"
  by (auto simp: bindM_def sql_update_def sql_insert_def sql_run split: option.splits)

subsection \<open>Rows of a list\<close>

lemma update_where_Nil [simp]: "update_where p f [] = []"
  by (simp add: update_where_def)

lemma update_where_Cons [simp]:
  "update_where p f (r # rs) = (if p r then f r else r) # update_where p f rs"
  by (simp add: update_where_def)

lemma update_where_append [simp]:
  "update_where p f (xs @ ys) = update_where p f xs @ update_where p f ys"
  by (simp add: update_where_def)

lemma set_update_where:
  "set (update_where p f rs) = f ` {r \<in> set rs. p r} \<union> {r \<in> set rs. \<not> p r}"
  by (auto simp: update_where_def)

lemma update_where_id: "(\<And>r. r \<in> set rs \<Longrightarrow> p r \<Longrightarrow> f r = r) \<Longrightarrow> update_where p f rs = rs"
  by (induction rs) auto

lemma update_where_none [simp]: "\<not> (\<exists>r \<in> set rs. p r) \<Longrightarrow> update_where p f rs = rs"
  by (rule update_where_id) auto

lemma map_update_where_key [row_simps]:
  "(\<And>r. k (f r) = k r) \<Longrightarrow> map k (update_where p f rs) = map k rs"
  by (induction rs) auto

lemma update_where_ball:
  "(\<And>r. r \<in> set rs \<Longrightarrow> p r \<Longrightarrow> Q (f r)) \<Longrightarrow> (\<And>r. r \<in> set rs \<Longrightarrow> \<not> p r \<Longrightarrow> Q r)
   \<Longrightarrow> r \<in> set (update_where p f rs) \<Longrightarrow> Q r"
  by (auto simp: set_update_where)

definition row_of :: "('r \<Rightarrow> 'k) \<Rightarrow> 'k \<Rightarrow> 'r list \<Rightarrow> 'r option" where
  "row_of key k rs = find (\<lambda>r. key r = k) rs"

lemma row_of_simps [simp]:
  "row_of key k [] = None"
  "row_of key k (r # rs) = (if key r = k then Some r else row_of key k rs)"
  by (simp_all add: row_of_def)

lemma row_of_append:
  "row_of key k (xs @ ys) = (case row_of key k xs of None \<Rightarrow> row_of key k ys | Some r \<Rightarrow> Some r)"
  by (induction xs) auto

lemma row_of_None_iff: "row_of key k rs = None \<longleftrightarrow> k \<notin> key ` set rs"
  by (induction rs) auto

lemma row_of_SomeD: "row_of key k rs = Some r \<Longrightarrow> r \<in> set rs \<and> key r = k"
  by (induction rs) (auto split: if_splits)

lemma row_of_unique:
  "distinct (map key rs) \<Longrightarrow> r \<in> set rs \<Longrightarrow> row_of key (key r) rs = Some r"
  by (induction rs) (auto simp: rev_image_eqI)

lemma row_of_update_where:
  assumes "\<And>r. key (f r) = key r"
  shows "row_of key k (update_where (\<lambda>r. key r = k') f rs) =
    (if k = k' then map_option f (row_of key k rs) else row_of key k rs)"
  using assms by (induction rs) auto

lemma update_where_missing:
  "row_of key k rs = None \<Longrightarrow> update_where (\<lambda>r. key r = k) f rs = rs"
  by (rule update_where_none) (auto simp: row_of_None_iff)

lemma filter_key_row_of:
  "distinct (map key rs) \<Longrightarrow> filter (\<lambda>r. key r = k) rs =
     (case row_of key k rs of None \<Rightarrow> [] | Some r \<Rightarrow> [r])"
  by (induction rs) (auto split: option.splits simp: filter_empty_conv rev_image_eqI dest!: row_of_SomeD)

lemma sum_update_where:
  fixes g :: "'r \<Rightarrow> 'a :: ab_group_add"
  assumes "distinct (map key rs)" "row_of key k rs = Some r"
  shows "sum_list (map g (update_where (\<lambda>r. key r = k) f rs)) = sum_list (map g rs) - g r + g (f r)"
  using assms
proof (induction rs)
  case (Cons x xs)
  show ?case
  proof (cases "key x = k")
    case True
    with Cons.prems have "k \<notin> key ` set xs" and "x = r" by auto
    then have "update_where (\<lambda>r. key r = k) f xs = xs" by (intro update_where_none) auto
    with True \<open>x = r\<close> show ?thesis by simp
  qed (use Cons in \<open>auto simp: algebra_simps\<close>)
qed simp

text \<open>A sum over the keys of a table sees a point update of the map as a difference.\<close>

lemma sum_map_upd:
  fixes F :: "'v option \<Rightarrow> 'a :: ab_group_add"
  assumes "distinct ks" "k \<in> set ks"
  shows "(\<Sum>x \<leftarrow> ks. F ((m(k \<mapsto> v)) x)) = (\<Sum>x \<leftarrow> ks. F (m x)) - F (m k) + F (Some v)"
  using assms
proof (induction ks)
  case (Cons x xs)
  show ?case
  proof (cases "x = k")
    case True
    then have "(\<Sum>x \<leftarrow> xs. F ((m(k \<mapsto> v)) x)) = (\<Sum>x \<leftarrow> xs. F (m x))"
      using Cons.prems(1) by (intro arg_cong [where f = sum_list] map_cong) auto
    with True show ?thesis by simp
  next
    case False
    then show ?thesis using Cons by (simp add: algebra_simps)
  qed
qed simp

lemma sum_rows_keys:
  fixes F :: "'r option \<Rightarrow> 'a :: monoid_add"
  assumes "distinct (map key rs)"
  shows "(\<Sum>r \<leftarrow> rs. F (Some r)) = (\<Sum>k \<leftarrow> map key rs. F (row_of key k rs))"
proof -
  have "(\<Sum>r \<leftarrow> rs. F (Some r)) = (\<Sum>r \<leftarrow> rs. F (row_of key (key r) rs))"
    using row_of_unique [OF assms] by (intro arg_cong [where f = sum_list] map_cong) auto
  then show ?thesis by (simp add: comp_def)
qed

lemma sum_list_filter_contrib:
  fixes g :: "'r \<Rightarrow> int"
  shows "sum_list (map g (filter p rs)) = sum_list (map (\<lambda>r. if p r then g r else 0) rs)"
  by (induction rs) auto

lemma length_filter_contrib:
  "int (length (filter p rs)) = sum_list (map (\<lambda>r. if p r then 1 else 0) rs)"
  by (induction rs) auto

lemma find_key [act_simps]: "find (\<lambda>r. key r = k) rs = row_of key k rs"
  by (simp add: row_of_def)

lemma first_updated_row:
  "(case map f (filter (\<lambda>r. key r = k) rs) of [] \<Rightarrow> a | m # _ \<Rightarrow> b m) =
     (case row_of key k rs of None \<Rightarrow> a | Some r \<Rightarrow> b (f r))"
  by (induction rs) auto

text \<open>
  The contract of a table: reading it after a statement sees exactly the statement's effect, and
  a statement on it is a lens update of the database.
\<close>

locale sql_table =
  fixes rows :: "'s \<Rightarrow> 'r list"
    and upd :: "('r list \<Rightarrow> 'r list) \<Rightarrow> 's \<Rightarrow> 's"
    and key :: "'r \<Rightarrow> 'k"
  assumes rows_upd: "rows (upd g s) = g (rows s)"
    and upd_same: "g (rows s) = rows s \<Longrightarrow> upd g s = s"
begin

lemma update_missing: "row_of key k (rows s) = None \<Longrightarrow> upd (update_where (\<lambda>r. key r = k) f) s = s"
  by (rule upd_same) (rule update_where_missing)

lemma get_after_update:
  assumes "\<And>r. key (f r) = key r"
  shows "row_of key k (rows (upd (update_where (\<lambda>r. key r = k') f) s)) =
    (if k = k' then map_option f (row_of key k (rows s)) else row_of key k (rows s))"
  using assms by (simp add: rows_upd row_of_update_where)

lemma get_after_insert:
  "row_of key k (rows (upd (\<lambda>rs. rs @ [r]) s)) =
     (case row_of key k (rows s) of
        None \<Rightarrow> (if key r = k then Some r else None) | Some r' \<Rightarrow> Some r')"
  by (simp add: rows_upd row_of_append split: option.splits)

lemma distinct_update:
  assumes "\<And>r. key (f r) = key r"
  shows "distinct (map key (rows (upd (update_where p f) s))) = distinct (map key (rows s))"
  using assms by (simp add: rows_upd map_update_where_key)

lemma distinct_insert:
  "distinct (map key (rows (upd (\<lambda>rs. rs @ [r]) s))) \<longleftrightarrow>
     distinct (map key (rows s)) \<and> row_of key (key r) (rows s) = None"
  by (auto simp: rows_upd row_of_None_iff)

lemma sum_after_update:
  fixes g :: "'r \<Rightarrow> 'a :: ab_group_add"
  assumes "distinct (map key (rows s))" "row_of key k (rows s) = Some r"
  shows "sum_list (map g (rows (upd (update_where (\<lambda>r. key r = k) f) s))) =
    sum_list (map g (rows s)) - g r + g (f r)"
  using sum_update_where [OF assms(1), of k r g f] assms(2) by (simp add: rows_upd)

lemma update_one_run:
  "sql_update_one rows upd (\<lambda>r. key r = k) f conv err s =
     (case row_of key k (rows s) of
        None \<Rightarrow> (Inl err, s)
      | Some r \<Rightarrow> (Inr (conv (f r)), upd (update_where (\<lambda>r. key r = k) f) s))"
proof -
  have "sql_update_one rows upd (\<lambda>r. key r = k) f conv err s =
     (case map f (filter (\<lambda>r. key r = k) (rows s)) of
        [] \<Rightarrow> raiseM err | m # _ \<Rightarrow> returnM (conv m)) (upd (update_where (\<lambda>r. key r = k) f) s)"
    by (simp add: sql_update_one_def bindM_sql_run)
  also have "\<dots> = (case row_of key k (rows s) of
        None \<Rightarrow> raiseM err | Some r \<Rightarrow> returnM (conv (f r))) (upd (update_where (\<lambda>r. key r = k) f) s)"
    by (simp only: first_updated_row)
  finally show ?thesis by (simp add: update_missing split: option.splits)
qed

end

section \<open>UUIDs\<close>

type_synonym uuid = "128 word"

definition hex_digit :: "nat \<Rightarrow> char" where
  "hex_digit n = ''0123456789abcdef'' ! n"

definition uuid_hex :: "uuid \<Rightarrow> string" where
  "uuid_hex u = map (\<lambda>i. hex_digit (unat (take_bit 4 (drop_bit (4 * (31 - i)) u)))) [0..<32]"

text \<open>\<^verbatim>\<open>str(uuid)\<close>: 8-4-4-4-12 lower-case hexadecimal digits.\<close>

definition uuid_str :: "uuid \<Rightarrow> string" where
  "uuid_str u = (let h = uuid_hex u in
     take 8 h @ ''-'' @ take 4 (drop 8 h) @ ''-'' @ take 4 (drop 12 h) @ ''-'' @
     take 4 (drop 16 h) @ ''-'' @ drop 20 h)"

section \<open>JSON values and Python conversions\<close>

datatype json =
    JNull
  | JBool bool
  | JInt int
  | JFloat rat
  | JStr string
  | JList "json list"
  | JObj "(string \<times> json) list"

type_synonym dict = "(string \<times> json) list"

definition dget :: "dict \<Rightarrow> string \<Rightarrow> json" where
  "dget d k = (case map_of d k of None \<Rightarrow> JNull | Some v \<Rightarrow> v)"

definition dget_default :: "dict \<Rightarrow> string \<Rightarrow> json \<Rightarrow> json" where
  "dget_default d k v = (case map_of d k of None \<Rightarrow> v | Some x \<Rightarrow> x)"

text \<open>\<^verbatim>\<open>bool(v)\<close>, and \<^verbatim>\<open>a or b\<close>.\<close>

fun truthy :: "json \<Rightarrow> bool" where
  "truthy JNull = False"
| "truthy (JBool b) = b"
| "truthy (JInt n) = (n \<noteq> 0)"
| "truthy (JFloat q) = (q \<noteq> 0)"
| "truthy (JStr s) = (s \<noteq> [])"
| "truthy (JList xs) = (xs \<noteq> [])"
| "truthy (JObj d) = (d \<noteq> [])"

definition py_or :: "json \<Rightarrow> json \<Rightarrow> json" where
  "py_or a b = (if truthy a then a else b)"

text \<open>
  \<^verbatim>\<open>int(s)\<close> of a string: surrounding white space, an optional sign, decimal digits with
  single underscores between them.
\<close>

definition py_space :: "char \<Rightarrow> bool" where
  "py_space c \<longleftrightarrow> of_char c \<in> {9::nat, 10, 11, 12, 13, 28, 29, 30, 31, 32, 133, 160}"

definition py_strip :: "string \<Rightarrow> string" where
  "py_strip s = rev (dropWhile py_space (rev (dropWhile py_space s)))"

definition digit_val :: "char \<Rightarrow> int option" where
  "digit_val c = (let n = of_char c :: int in if 48 \<le> n \<and> n \<le> 57 then Some (n - 48) else None)"

fun digits_val :: "int \<Rightarrow> string \<Rightarrow> int option" where
  "digits_val acc [] = Some acc"
| "digits_val acc (c # cs) =
     (case digit_val c of
        Some d \<Rightarrow> digits_val (10 * acc + d) cs
      | None \<Rightarrow>
          (if c = CHR ''_'' then
             (case cs of
                [] \<Rightarrow> None
              | c' # cs' \<Rightarrow>
                  (case digit_val c' of
                     Some d \<Rightarrow> digits_val (10 * acc + d) cs'
                   | None \<Rightarrow> None))
           else None))"

definition unsigned_val :: "string \<Rightarrow> int option" where
  "unsigned_val cs =
     (case cs of
        [] \<Rightarrow> None
      | c # cs' \<Rightarrow> (case digit_val c of Some d \<Rightarrow> digits_val d cs' | None \<Rightarrow> None))"

definition py_int_of_string :: "string \<Rightarrow> int option" where
  "py_int_of_string s =
     (case py_strip s of
        [] \<Rightarrow> None
      | c # cs \<Rightarrow>
          (if c = CHR ''-'' then map_option uminus (unsigned_val cs)
           else if c = CHR ''+'' then unsigned_val cs
           else unsigned_val (c # cs)))"

definition rat_trunc :: "rat \<Rightarrow> int" where
  "rat_trunc q = (if 0 \<le> q then \<lfloor>q\<rfloor> else - \<lfloor>- q\<rfloor>)"

lemma dget_simps [simp]:
  "dget [] k = JNull"
  "dget ((k', v) # d) k = (if k = k' then v else dget d k)"
  by (auto simp: dget_def)

lemma dget_default_simps [simp]:
  "dget_default [] k v = v"
  "dget_default ((k', w) # d) k v = (if k = k' then w else dget_default d k v)"
  by (auto simp: dget_default_def)

end
