(* ===== verification/Datetime.thy ===== *)
theory Datetime
  imports Prelude
begin

text \<open>
  The parts of Python's \<^verbatim>\<open>datetime\<close> module the services use.  An aware datetime is
  its instant, in microseconds since 1970-01-01T00:00:00Z.  \<open>isoformat\<close> and \<open>fromisoformat\<close>
  follow CPython's \<^verbatim>\<open>_ord2ymd\<close> and \<^verbatim>\<open>_ymd2ord\<close>; of the texts \<open>fromisoformat\<close>
  accepts, the extended calendar form \<^verbatim>\<open>YYYY-MM-DDTHH:MM:SS[.f][+HH:MM]\<close> is modelled (the
  one \<open>isoformat\<close> and RFC 3339 writers produce), and any other text counts as malformed.
\<close>

type_synonym timestamp = int

definition seconds :: "int \<Rightarrow> timestamp" where
  "seconds n = n * 1000000"

datatype py_datetime = Aware timestamp | Naive timestamp

section \<open>Calendar\<close>

definition is_leap :: "int \<Rightarrow> bool" where
  "is_leap y \<longleftrightarrow> y mod 4 = 0 \<and> (y mod 100 \<noteq> 0 \<or> y mod 400 = 0)"

definition days_before_year :: "int \<Rightarrow> int" where
  "days_before_year y = (y - 1) * 365 + (y - 1) div 4 - (y - 1) div 100 + (y - 1) div 400"

definition month_table :: "int list" where
  "month_table = [0, 31, 59, 90, 120, 151, 181, 212, 243, 273, 304, 334, 365]"

definition days_before_month :: "int \<Rightarrow> int \<Rightarrow> int" where
  "days_before_month y m = month_table ! nat (m - 1) + (if m > 2 \<and> is_leap y then 1 else 0)"

definition days_in_month :: "int \<Rightarrow> int \<Rightarrow> int" where
  "days_in_month y m = (if m = 2 \<and> is_leap y then 29
     else month_table ! nat m - month_table ! nat (m - 1))"

definition ymd2ord :: "int \<Rightarrow> int \<Rightarrow> int \<Rightarrow> int" where
  "ymd2ord y m d = days_before_year y + days_before_month y m + d"

definition month_of_day :: "bool \<Rightarrow> int \<Rightarrow> int" where
  \<comment> \<open>\<^verbatim>\<open>month = (n + 50) >> 5\<close>, one less when that month starts after day \<open>n\<close>\<close>
  "month_of_day leap n = (let m = (n + 50) div 32 in
     if month_table ! nat (m - 1) + (if m > 2 \<and> leap then 1 else 0) > n then m - 1 else m)"

definition ord2ymd :: "int \<Rightarrow> int \<times> int \<times> int" where
  "ord2ymd k = (let n = k - 1;
     n400 = n div 146097; n = n mod 146097;
     n100 = n div 36524; n = n mod 36524;
     n4 = n div 1461; n = n mod 1461;
     n1 = n div 365; n = n mod 365;
     y = n400 * 400 + n100 * 100 + n4 * 4 + n1 + 1
   in if n1 = 4 \<or> n100 = 4 then (y - 1, 12, 31)
      else (let leap = n1 = 3 \<and> (n4 \<noteq> 24 \<or> n100 = 3); m = month_of_day leap n
            in (y, m, n - (month_table ! nat (m - 1) + (if m > 2 \<and> leap then 1 else 0)) + 1)))"

section \<open>Text form\<close>

definition dec_digit :: "int \<Rightarrow> char" where
  "dec_digit n = ''0123456789'' ! nat (n mod 10)"

fun pad_dec :: "nat \<Rightarrow> int \<Rightarrow> string" where
  "pad_dec 0 n = []"
| "pad_dec (Suc k) n = pad_dec k (n div 10) @ [dec_digit n]"

definition isoformat :: "timestamp \<Rightarrow> string" where
  "isoformat t = (let days = t div 86400000000; us = t mod 86400000000;
     (y, m, d) = ord2ymd (days + 719163);
     frac = us mod 1000000; s = us div 1000000
   in pad_dec 4 y @ ''-'' @ pad_dec 2 m @ ''-'' @ pad_dec 2 d @ ''T'' @
      pad_dec 2 (s div 3600) @ '':'' @ pad_dec 2 (s div 60 mod 60) @ '':'' @ pad_dec 2 (s mod 60) @
      (if frac = 0 then [] else ''.'' @ pad_dec 6 frac) @ ''+00:00'')"

fun all_digits_val :: "int \<Rightarrow> string \<Rightarrow> int option" where
  "all_digits_val acc [] = Some acc"
| "all_digits_val acc (c # cs) =
     (case digit_val c of Some d \<Rightarrow> all_digits_val (10 * acc + d) cs | None \<Rightarrow> None)"

definition take_num :: "nat \<Rightarrow> string \<Rightarrow> (int \<times> string) option" where
  "take_num k cs = (if length cs < k then None
     else map_option (\<lambda>n. (n, drop k cs)) (all_digits_val 0 (take k cs)))"

fun expect :: "char \<Rightarrow> string \<Rightarrow> string option" where
  "expect c [] = None"
| "expect c (x # xs) = (if x = c then Some xs else None)"

definition take_frac :: "string \<Rightarrow> (int \<times> string) option" where
  \<comment> \<open>digits beyond the sixth are dropped, fewer are scaled to microseconds\<close>
  "take_frac cs = (let ds = takeWhile (\<lambda>c. digit_val c \<noteq> None) cs; rest = dropWhile (\<lambda>c. digit_val c \<noteq> None) cs
     in if ds = [] then None
        else map_option (\<lambda>n. (n * 10 ^ (6 - min 6 (length ds)), rest)) (all_digits_val 0 (take 6 ds)))"

definition take_offset :: "string \<Rightarrow> timestamp option option" where
  \<comment> \<open>the zone: none at all, or a signed offset in microseconds\<close>
  "take_offset cs =
     (case cs of
        [] \<Rightarrow> Some None
      | c # rest \<Rightarrow>
          (if c = CHR ''Z'' \<and> rest = [] then Some (Some 0)
           else if c = CHR ''+'' \<or> c = CHR ''-'' then
             Option.bind (take_num 2 rest) (\<lambda>(h, cs1).
             Option.bind (expect CHR '':'' cs1) (\<lambda>cs2.
             Option.bind (take_num 2 cs2) (\<lambda>(mi, cs3).
             if cs3 = [] \<and> h < 24 \<and> mi < 60
             then Some (Some ((if c = CHR ''-'' then -1 else 1) * seconds (3600 * h + 60 * mi)))
             else None)))
           else None))"

definition fromisoformat :: "string \<Rightarrow> py_datetime option" where
  "fromisoformat cs =
     Option.bind (take_num 4 cs) (\<lambda>(y, cs).
     Option.bind (expect CHR ''-'' cs) (\<lambda>cs.
     Option.bind (take_num 2 cs) (\<lambda>(m, cs).
     Option.bind (expect CHR ''-'' cs) (\<lambda>cs.
     Option.bind (take_num 2 cs) (\<lambda>(d, cs).
     Option.bind (expect CHR ''T'' cs) (\<lambda>cs.
     Option.bind (take_num 2 cs) (\<lambda>(hh, cs).
     Option.bind (expect CHR '':'' cs) (\<lambda>cs.
     Option.bind (take_num 2 cs) (\<lambda>(mi, cs).
     Option.bind (expect CHR '':'' cs) (\<lambda>cs.
     Option.bind (take_num 2 cs) (\<lambda>(ss, cs).
     Option.bind (case expect CHR ''.'' cs of None \<Rightarrow> Some (0, cs) | Some cs' \<Rightarrow> take_frac cs') (\<lambda>(us, cs).
     Option.bind (take_offset cs) (\<lambda>zone.
     if 1 \<le> y \<and> 1 \<le> m \<and> m \<le> 12 \<and> 1 \<le> d \<and> d \<le> days_in_month y m \<and> hh < 24 \<and> mi < 60 \<and> ss < 60
     then let local = (ymd2ord y m d - 719163) * 86400000000 + seconds (3600 * hh + 60 * mi + ss) + us
          in Some (case zone of None \<Rightarrow> Naive local | Some off \<Rightarrow> Aware (local - off))
     else None)))))))))))))"

end
