(* ===== verification/Domain.thy ===== *)
theory Domain
  imports Datetime
begin

text \<open>
  \<^verbatim>\<open>app/domain\<close>: the status and command literals with their texts, the value
  objects and entities as records, and every exception class the modelled code raises or
  catches.  The exceptions outside \<^verbatim>\<open>errors.py\<close> are Python's own, the three
  SQLAlchemy wraps driver errors in, and those of the workers and of the HTTP layer.
\<close>

section \<open>Literals (models.py, auth.py, orm/enums.py)\<close>

datatype instance_status =
    creating_pending | updating_pending | starting_pending | stopping_pending
  | deleting_pending | running | stopped | error_status | deleted

datatype task_command = cmd_create | cmd_update | cmd_delete | cmd_start | cmd_stop

datatype task_status = task_queued | task_running | cancel_pending | succeeded | failed | canceled

datatype outbox_status = ob_queued | publishing | sent | ob_failed

datatype role = admin | operator | viewer

primrec instance_status_str :: "instance_status \<Rightarrow> string" where
  "instance_status_str creating_pending = ''creating_pending''"
| "instance_status_str updating_pending = ''updating_pending''"
| "instance_status_str starting_pending = ''starting_pending''"
| "instance_status_str stopping_pending = ''stopping_pending''"
| "instance_status_str deleting_pending = ''deleting_pending''"
| "instance_status_str running = ''running''"
| "instance_status_str stopped = ''stopped''"
| "instance_status_str error_status = ''error''"
| "instance_status_str deleted = ''deleted''"

primrec task_command_str :: "task_command \<Rightarrow> string" where
  "task_command_str cmd_create = ''create''"
| "task_command_str cmd_update = ''update''"
| "task_command_str cmd_delete = ''delete''"
| "task_command_str cmd_start = ''start''"
| "task_command_str cmd_stop = ''stop''"

primrec task_status_str :: "task_status \<Rightarrow> string" where
  "task_status_str task_queued = ''queued''"
| "task_status_str task_running = ''running''"
| "task_status_str cancel_pending = ''cancel_pending''"
| "task_status_str succeeded = ''succeeded''"
| "task_status_str failed = ''failed''"
| "task_status_str canceled = ''canceled''"

primrec outbox_status_str :: "outbox_status \<Rightarrow> string" where
  "outbox_status_str ob_queued = ''queued''"
| "outbox_status_str publishing = ''publishing''"
| "outbox_status_str sent = ''sent''"
| "outbox_status_str ob_failed = ''failed''"

primrec role_str :: "role \<Rightarrow> string" where
  "role_str admin = ''admin''"
| "role_str operator = ''operator''"
| "role_str viewer = ''viewer''"

text \<open>
  A status column is an SQLAlchemy \<^verbatim>\<open>Enum\<close> with \<^verbatim>\<open>validate_strings=True\<close>:
  a value that is not the text of a member is refused when the statement is bound.
\<close>

definition all_instance_status :: "instance_status list" where
  "all_instance_status = [creating_pending, updating_pending, starting_pending, stopping_pending,
     deleting_pending, running, stopped, error_status, deleted]"

definition instance_status_of :: "json \<Rightarrow> instance_status option" where
  "instance_status_of v = (case v of
     JStr s \<Rightarrow> find (\<lambda>st. instance_status_str st = s) all_instance_status
   | _ \<Rightarrow> None)"

definition role_of :: "string \<Rightarrow> role option" where
  "role_of s = find (\<lambda>r. role_str r = s) [admin, operator, viewer]"

lemma instance_status_of_str [simp]:
  "instance_status_of (JStr (instance_status_str st)) = Some st"
  by (cases st) (simp_all add: instance_status_of_def all_instance_status_def)

lemma instance_status_ofD: "instance_status_of v = Some st \<Longrightarrow> v = JStr (instance_status_str st)"
  by (auto simp: instance_status_of_def find_Some_iff split: json.splits)

lemma role_of_str [simp]: "role_of (role_str r) = Some r"
  by (cases r) (simp_all add: role_of_def)

lemma instance_status_str_eq_iff [simp]:
  "instance_status_str a = instance_status_str b \<longleftrightarrow> a = b"
  by (cases a; cases b) simp_all

lemma status_text_iff [simp]:
  "''creating_pending'' = instance_status_str st \<longleftrightarrow> st = creating_pending"
  "''updating_pending'' = instance_status_str st \<longleftrightarrow> st = updating_pending"
  "''starting_pending'' = instance_status_str st \<longleftrightarrow> st = starting_pending"
  "''stopping_pending'' = instance_status_str st \<longleftrightarrow> st = stopping_pending"
  "''deleting_pending'' = instance_status_str st \<longleftrightarrow> st = deleting_pending"
  "''running'' = instance_status_str st \<longleftrightarrow> st = running"
  "''stopped'' = instance_status_str st \<longleftrightarrow> st = stopped"
  "''error'' = instance_status_str st \<longleftrightarrow> st = error_status"
  "''deleted'' = instance_status_str st \<longleftrightarrow> st = deleted"
  "instance_status_str st = ''creating_pending'' \<longleftrightarrow> st = creating_pending"
  "instance_status_str st = ''updating_pending'' \<longleftrightarrow> st = updating_pending"
  "instance_status_str st = ''starting_pending'' \<longleftrightarrow> st = starting_pending"
  "instance_status_str st = ''stopping_pending'' \<longleftrightarrow> st = stopping_pending"
  "instance_status_str st = ''deleting_pending'' \<longleftrightarrow> st = deleting_pending"
  "instance_status_str st = ''running'' \<longleftrightarrow> st = running"
  "instance_status_str st = ''stopped'' \<longleftrightarrow> st = stopped"
  "instance_status_str st = ''error'' \<longleftrightarrow> st = error_status"
  "instance_status_str st = ''deleted'' \<longleftrightarrow> st = deleted"
  by (cases st; simp)+

section \<open>Exceptions (errors.py and the others the code meets)\<close>

datatype error =
    ForbiddenError string
  | ValidationError string
  | CapacityExceededError string
  | QuotaExceededError string
  | QuotaConflictError string
  | TenantInactiveError string
  | NotFoundError string
  | InstanceNotFoundError string
  | TaskNotFoundError string
  | TenantNotFoundError string
  | UserNotFoundError string
  | AuditLogNotFoundError string
  | ConflictError string
  | VmCommandError string
  | TimeoutError string
  | ValueError string
  | TypeError string
  | KeyError string
  | AttributeError string
  | StatementError string
  | IntegrityError string
  | DataError string
  | OperationalError string
  | RetryableResultEventError string
  | NonRetryableResultEventError string
  | AuthCommandError int string
  | InvalidTokenError string
  | HTTPException int string

text \<open>\<^verbatim>\<open>DomainError.code\<close> of each subclass; \<^verbatim>\<open>None\<close> for the other exceptions.\<close>

fun error_code :: "error \<Rightarrow> string option" where
  "error_code (ForbiddenError _) = Some ''FORBIDDEN''"
| "error_code (ValidationError _) = Some ''VALIDATION_ERROR''"
| "error_code (CapacityExceededError _) = Some ''CAPACITY_EXCEEDED''"
| "error_code (QuotaExceededError _) = Some ''QUOTA_EXCEEDED''"
| "error_code (QuotaConflictError _) = Some ''QUOTA_CONFLICT''"
| "error_code (TenantInactiveError _) = Some ''TENANT_INACTIVE''"
| "error_code (NotFoundError _) = Some ''VM_NOT_FOUND''"
| "error_code (InstanceNotFoundError _) = Some ''INSTANCE_NOT_FOUND''"
| "error_code (TaskNotFoundError _) = Some ''TASK_NOT_FOUND''"
| "error_code (TenantNotFoundError _) = Some ''TENANT_NOT_FOUND''"
| "error_code (UserNotFoundError _) = Some ''USER_NOT_FOUND''"
| "error_code (AuditLogNotFoundError _) = Some ''AUDIT_LOG_NOT_FOUND''"
| "error_code (ConflictError _) = Some ''CONFLICT''"
| "error_code (VmCommandError _) = Some ''QEMU_ERROR''"
| "error_code (TimeoutError _) = Some ''TIMEOUT''"
| "error_code _ = None"

definition is_domain_error :: "error \<Rightarrow> bool" where
  "is_domain_error e \<longleftrightarrow> error_code e \<noteq> None"

text \<open>\<^verbatim>\<open>str(exc)\<close>: the message an exception was raised with.\<close>

fun error_text :: "error \<Rightarrow> string" where
  "error_text (ForbiddenError msg) = msg"
| "error_text (ValidationError msg) = msg"
| "error_text (CapacityExceededError msg) = msg"
| "error_text (QuotaExceededError msg) = msg"
| "error_text (QuotaConflictError msg) = msg"
| "error_text (TenantInactiveError msg) = msg"
| "error_text (NotFoundError msg) = msg"
| "error_text (InstanceNotFoundError msg) = msg"
| "error_text (TaskNotFoundError msg) = msg"
| "error_text (TenantNotFoundError msg) = msg"
| "error_text (UserNotFoundError msg) = msg"
| "error_text (AuditLogNotFoundError msg) = msg"
| "error_text (ConflictError msg) = msg"
| "error_text (VmCommandError msg) = msg"
| "error_text (TimeoutError msg) = msg"
| "error_text (ValueError msg) = msg"
| "error_text (TypeError msg) = msg"
| "error_text (KeyError msg) = msg"
| "error_text (AttributeError msg) = msg"
| "error_text (StatementError msg) = msg"
| "error_text (IntegrityError msg) = msg"
| "error_text (DataError msg) = msg"
| "error_text (OperationalError msg) = msg"
| "error_text (RetryableResultEventError msg) = msg"
| "error_text (NonRetryableResultEventError msg) = msg"
| "error_text (InvalidTokenError msg) = msg"
| "error_text (AuthCommandError _ msg) = msg"
| "error_text (HTTPException _ msg) = msg"

text \<open>\<^verbatim>\<open>int(v)\<close> applied to a JSON value.\<close>

fun py_int :: "json \<Rightarrow> error + int" where
  "py_int (JInt n) = Inr n"
| "py_int (JBool b) = Inr (if b then 1 else 0)"
| "py_int (JFloat q) = Inr (rat_trunc q)"
| "py_int (JStr s) = (case py_int_of_string s of
     Some n \<Rightarrow> Inr n | None \<Rightarrow> Inl (ValueError ''invalid literal for int() with base 10''))"
| "py_int JNull = Inl (TypeError ''int() argument must be a string or a number, not NoneType'')"
| "py_int (JList _) = Inl (TypeError ''int() argument must be a string or a number, not list'')"
| "py_int (JObj _) = Inl (TypeError ''int() argument must be a string or a number, not dict'')"

section \<open>Entities (models.py, auth.py)\<close>

record resource_spec =
  cpu :: int
  memory_mib :: int
  disk_gib :: int

definition validate_spec :: "resource_spec \<Rightarrow> error + unit" where
  "validate_spec sp =
     (if cpu sp \<le> 0 then Inl (ValidationError ''cpu must be > 0'')
      else if memory_mib sp \<le> 0 then Inl (ValidationError ''memory_mib must be > 0'')
      else if disk_gib sp \<le> 0 then Inl (ValidationError ''disk_gib must be > 0'')
      else Inr ())"

definition positive_spec :: "resource_spec \<Rightarrow> bool" where
  "positive_spec sp \<longleftrightarrow> 0 < cpu sp \<and> 0 < memory_mib sp \<and> 0 < disk_gib sp"

lemma validate_spec_iff [simp]: "validate_spec sp = Inr u \<longleftrightarrow> positive_spec sp"
  by (auto simp: validate_spec_def positive_spec_def)

record vm_instance =
  inst_id :: uuid
  inst_name :: "string option"
  inst_spec :: resource_spec
  inst_status :: instance_status
  inst_ip_address :: "string option"
  inst_host_node :: string
  inst_reserve_resources :: bool
  inst_last_task_id :: "uuid option"
  inst_deleted_at :: "timestamp option"
  inst_created_at :: timestamp
  inst_updated_at :: timestamp
  inst_tenant_id :: uuid

record instance_task =
  task_id :: uuid
  task_instance_id :: uuid
  task_cmd :: task_command
  task_stat :: task_status
  task_request_id :: uuid
  task_request_payload :: dict
  task_result_payload :: json
  task_error_code :: "string option"
  task_error_message :: "string option"
  task_attempt_count :: int
  task_max_attempts :: int
  task_created_at :: timestamp
  task_started_at :: "timestamp option"
  task_finished_at :: "timestamp option"
  task_updated_at :: timestamp

record outbox_message =
  ob_id :: uuid
  ob_topic :: string
  ob_task_id :: uuid
  ob_request_id :: uuid
  ob_payload :: dict
  ob_status :: outbox_status
  ob_attempt_count :: int
  ob_max_attempts :: int
  ob_next_attempt_at :: timestamp
  ob_locked_by :: "string option"
  ob_lock_expires_at :: "timestamp option"
  ob_last_error :: "string option"
  ob_sent_at :: "timestamp option"
  ob_created_at :: timestamp
  ob_updated_at :: timestamp

record audit_log =
  aud_id :: uuid
  aud_actor_user_id :: "uuid option"
  aud_actor_username :: "string option"
  aud_action :: string
  aud_target_type :: string
  aud_target_id :: "string option"
  aud_request_id :: "uuid option"
  aud_ip_address :: "string option"
  aud_user_agent :: "string option"
  aud_metadata :: dict
  aud_created_at :: timestamp
  aud_tenant_id :: "uuid option"

record tenant =
  ten_id :: uuid
  ten_key :: string
  ten_name :: string
  ten_is_active :: bool
  ten_created_at :: timestamp
  ten_updated_at :: timestamp

record tenant_quota =
  quo_tenant_id :: uuid
  max_instances :: int
  max_cpu :: int
  max_memory_mib :: int
  max_disk_gib :: int
  quo_updated_at :: timestamp

record tenant_usage =
  usage_tenant_id :: uuid
  used_instances :: int
  used_cpu :: int
  used_memory_mib :: int
  used_disk_gib :: int

record user =
  usr_id :: uuid
  usr_username :: string
  usr_password_hash :: string
  usr_role :: role
  usr_is_active :: bool
  usr_created_at :: timestamp
  usr_updated_at :: timestamp
  usr_tenant_id :: "uuid option"

record refresh_token =
  rt_id :: uuid
  rt_user_id :: uuid
  rt_token_hash :: string
  rt_expires_at :: timestamp
  rt_revoked_at :: "timestamp option"
  rt_created_at :: timestamp
  rt_updated_at :: timestamp

section \<open>Command outcome (commands/common.py)\<close>

record task_accepted =
  acc_task_id :: uuid
  acc_instance_id :: uuid
  acc_command :: task_command
  acc_status :: task_status
  acc_accepted_at :: timestamp

section \<open>Classes of statuses\<close>

text \<open>The statuses \<^verbatim>\<open>has_active_task\<close> counts, the ones \<^verbatim>\<open>process\<close> treats as
  terminal, and the pending status each command puts its instance in.\<close>

definition task_active :: "task_status \<Rightarrow> bool" where
  "task_active st \<longleftrightarrow> st \<in> {task_queued, task_running, cancel_pending}"

definition task_terminal :: "task_status \<Rightarrow> bool" where
  "task_terminal st \<longleftrightarrow> st \<in> {succeeded, failed, canceled}"

lemma task_terminal_not_active: "task_terminal st \<longleftrightarrow> \<not> task_active st"
  by (cases st) (simp_all add: task_terminal_def task_active_def)

primrec pending_status :: "task_command \<Rightarrow> instance_status" where
  "pending_status cmd_create = creating_pending"
| "pending_status cmd_update = updating_pending"
| "pending_status cmd_delete = deleting_pending"
| "pending_status cmd_start = starting_pending"
| "pending_status cmd_stop = stopping_pending"

definition is_pending :: "instance_status \<Rightarrow> bool" where
  "is_pending st \<longleftrightarrow> st \<in> pending_status ` {cmd_create, cmd_update, cmd_delete, cmd_start, cmd_stop}"

lemma is_pending_simps [simp]:
  "is_pending creating_pending" "is_pending updating_pending" "is_pending starting_pending"
  "is_pending stopping_pending" "is_pending deleting_pending" "\<not> is_pending running"
  "\<not> is_pending stopped" "\<not> is_pending error_status" "\<not> is_pending deleted"
  by (simp_all add: is_pending_def)

lemma is_pending_pending_status [simp]: "is_pending (pending_status c)"
  by (cases c) simp_all

lemma pending_status_inj [simp]: "pending_status a = pending_status b \<longleftrightarrow> a = b"
  by (cases a; cases b) simp_all

lemma task_active_simps [simp]:
  "task_active task_queued" "task_active task_running" "task_active cancel_pending"
  "\<not> task_active succeeded" "\<not> task_active failed" "\<not> task_active canceled"
  by (simp_all add: task_active_def)

lemma task_terminal_simps [simp]:
  "task_terminal succeeded" "task_terminal failed" "task_terminal canceled"
  "\<not> task_terminal task_queued" "\<not> task_terminal task_running" "\<not> task_terminal cancel_pending"
  by (simp_all add: task_terminal_def)

end
