(* ===== verification/Store.thy ===== *)
theory Store
  imports Domain
begin

text \<open>
  The PostgreSQL database: one list of rows per table of \<^verbatim>\<open>migrations/001_init.sql\<close> and
  \<^verbatim>\<open>adapters/postgres_repositories/orm\<close>, the constraints its inserts and updates are
  subject to (primary and foreign keys, UNIQUE, CHECK, the range of INTEGER columns), and the
  conversions of \<^verbatim>\<open>common.py\<close> from rows to entities.  Tables whose row has exactly the
  fields of the entity use the entity's record as the row.  A statement that violates a
  constraint raises and changes nothing.  PostgreSQL's parsing of INET text is the parameter
  \<open>inet\<close> of the definitions that store an address: \<open>Some\<close> the canonical text, or
  \<open>None\<close> for text it refuses.  A JSONB column holding \<^verbatim>\<open>null\<close> is \<open>JNull\<close>, which is
  what Python reads back as \<^verbatim>\<open>None\<close>.
\<close>

section \<open>Rows\<close>

record instance_model =
  im_id :: uuid
  im_tenant_id :: uuid
  im_name :: "string option"
  im_cpu :: int
  im_memory_mib :: int
  im_disk_gib :: int
  im_status :: instance_status
  im_ip_address :: "string option"
  im_host_node :: string
  im_reserve_resources :: bool
  im_last_task_id :: "uuid option"
  im_deleted_at :: "timestamp option"
  im_created_at :: timestamp
  im_updated_at :: timestamp

record instance_task_model = instance_task +
  tm_retry_of_task_id :: "uuid option"
  tm_canceled_by :: "uuid option"
  tm_cancel_reason :: "string option"

record resource_capacity_model =
  cap_host_node :: string
  total_cpu :: int
  total_memory_mib :: int
  total_disk_gib :: int

record db =
  tenants :: "tenant list"
  tenant_quotas :: "tenant_quota list"
  instances :: "instance_model list"
  resource_capacity :: "resource_capacity_model list"
  instance_tasks :: "instance_task_model list"
  command_outbox :: "outbox_message list"
  users :: "user list"
  refresh_tokens :: "refresh_token list"
  audit_logs :: "audit_log list"

definition empty_db :: db where
  "empty_db = \<lparr>tenants = [], tenant_quotas = [], instances = [], resource_capacity = [],
     instance_tasks = [], command_outbox = [], users = [], refresh_tokens = [], audit_logs = []\<rparr>"

type_synonym 'a db_act = "(error, db, 'a) act"

section \<open>Conversions (common.py)\<close>

definition to_instance :: "instance_model \<Rightarrow> vm_instance" where
  "to_instance m = \<lparr>inst_id = im_id m, inst_name = im_name m,
     inst_spec = \<lparr>cpu = im_cpu m, memory_mib = im_memory_mib m, disk_gib = im_disk_gib m\<rparr>,
     inst_status = im_status m, inst_ip_address = im_ip_address m,
     inst_host_node = im_host_node m, inst_reserve_resources = im_reserve_resources m,
     inst_last_task_id = im_last_task_id m, inst_deleted_at = im_deleted_at m,
     inst_created_at = im_created_at m, inst_updated_at = im_updated_at m,
     inst_tenant_id = im_tenant_id m\<rparr>"

definition to_task :: "instance_task_model \<Rightarrow> instance_task" where
  "to_task m = instance_task.truncate m"

lemma to_instance_sel [simp]:
  "inst_id (to_instance m) = im_id m" "inst_name (to_instance m) = im_name m"
  "cpu (inst_spec (to_instance m)) = im_cpu m"
  "memory_mib (inst_spec (to_instance m)) = im_memory_mib m"
  "disk_gib (inst_spec (to_instance m)) = im_disk_gib m"
  "inst_status (to_instance m) = im_status m" "inst_ip_address (to_instance m) = im_ip_address m"
  "inst_host_node (to_instance m) = im_host_node m"
  "inst_reserve_resources (to_instance m) = im_reserve_resources m"
  "inst_last_task_id (to_instance m) = im_last_task_id m"
  "inst_deleted_at (to_instance m) = im_deleted_at m"
  "inst_created_at (to_instance m) = im_created_at m"
  "inst_updated_at (to_instance m) = im_updated_at m"
  "inst_tenant_id (to_instance m) = im_tenant_id m"
  by (simp_all add: to_instance_def)

lemma to_task_sel [simp]:
  "task_id (to_task m) = task_id m" "task_instance_id (to_task m) = task_instance_id m"
  "task_cmd (to_task m) = task_cmd m" "task_stat (to_task m) = task_stat m"
  "task_request_id (to_task m) = task_request_id m"
  "task_request_payload (to_task m) = task_request_payload m"
  "task_result_payload (to_task m) = task_result_payload m"
  "task_error_code (to_task m) = task_error_code m"
  "task_error_message (to_task m) = task_error_message m"
  "task_attempt_count (to_task m) = task_attempt_count m"
  "task_max_attempts (to_task m) = task_max_attempts m"
  "task_created_at (to_task m) = task_created_at m"
  "task_started_at (to_task m) = task_started_at m"
  "task_finished_at (to_task m) = task_finished_at m"
  "task_updated_at (to_task m) = task_updated_at m"
  by (simp_all add: to_task_def instance_task.truncate_def)

section \<open>Constraints\<close>

definition int4 :: "int \<Rightarrow> bool" where
  "int4 n \<longleftrightarrow> - 2147483648 \<le> n \<and> n \<le> 2147483647"

definition exists_row :: "('r \<Rightarrow> 'k) \<Rightarrow> 'k \<Rightarrow> 'r list \<Rightarrow> bool" where
  "exists_row key k rs \<longleftrightarrow> row_of key k rs \<noteq> None"

lemma exists_row_iff: "exists_row key k rs \<longleftrightarrow> k \<in> key ` set rs"
  by (simp add: exists_row_def row_of_None_iff)

text \<open>The first broken constraint of a list of (constraint holds, error) pairs.\<close>

fun first_violation :: "(bool \<times> 'e) list \<Rightarrow> 'e option" where
  "first_violation [] = None"
| "first_violation ((ok, e) # cs) = (if ok then first_violation cs else Some e)"

definition instance_violates :: "db \<Rightarrow> instance_model \<Rightarrow> error option" where
  "instance_violates d m = first_violation [
     (int4 (im_cpu m) \<and> int4 (im_memory_mib m) \<and> int4 (im_disk_gib m), DataError ''integer out of range''),
     (\<not> exists_row im_id (im_id m) (instances d), IntegrityError ''instances_pkey''),
     (exists_row ten_id (im_tenant_id m) (tenants d), IntegrityError ''instances_tenant_id_fkey'')]"

definition task_violates :: "db \<Rightarrow> instance_task_model \<Rightarrow> error option" where
  "task_violates d m = first_violation [
     (int4 (task_attempt_count m) \<and> int4 (task_max_attempts m), DataError ''integer out of range''),
     (\<not> exists_row task_id (task_id m) (instance_tasks d), IntegrityError ''instance_tasks_pkey''),
     (\<not> exists_row task_request_id (task_request_id m) (instance_tasks d),
        IntegrityError ''instance_tasks_request_id_key''),
     (exists_row im_id (task_instance_id m) (instances d),
        IntegrityError ''instance_tasks_instance_id_fkey'')]"

definition outbox_violates :: "db \<Rightarrow> outbox_message \<Rightarrow> error option" where
  "outbox_violates d m = first_violation [
     (int4 (ob_attempt_count m) \<and> int4 (ob_max_attempts m), DataError ''integer out of range''),
     (\<not> exists_row ob_id (ob_id m) (command_outbox d), IntegrityError ''command_outbox_pkey'')]"

definition tenant_violates :: "db \<Rightarrow> tenant \<Rightarrow> error option" where
  "tenant_violates d m = first_violation [
     (\<not> exists_row ten_id (ten_id m) (tenants d), IntegrityError ''tenants_pkey''),
     (\<not> exists_row ten_key (ten_key m) (tenants d), IntegrityError ''tenants_key_key'')]"

definition user_role_check :: "user \<Rightarrow> bool" where
  "user_role_check u \<longleftrightarrow> (usr_role u = admin) = (usr_tenant_id u = None)"

definition user_violates :: "db \<Rightarrow> user \<Rightarrow> error option" where
  "user_violates d m = first_violation [
     (user_role_check m, IntegrityError ''users_tenant_role_check''),
     (\<not> exists_row usr_id (usr_id m) (users d), IntegrityError ''users_pkey''),
     (\<not> exists_row usr_username (usr_username m) (users d), IntegrityError ''users_username_key''),
     (case usr_tenant_id m of None \<Rightarrow> True | Some t \<Rightarrow> exists_row ten_id t (tenants d),
        IntegrityError ''users_tenant_id_fkey'')]"

definition refresh_token_violates :: "db \<Rightarrow> refresh_token \<Rightarrow> error option" where
  "refresh_token_violates d m = first_violation [
     (\<not> exists_row rt_id (rt_id m) (refresh_tokens d), IntegrityError ''refresh_tokens_pkey''),
     (\<not> exists_row rt_token_hash (rt_token_hash m) (refresh_tokens d),
        IntegrityError ''refresh_tokens_token_hash_key''),
     (exists_row usr_id (rt_user_id m) (users d), IntegrityError ''refresh_tokens_user_id_fkey'')]"

definition audit_violates :: "db \<Rightarrow> audit_log \<Rightarrow> error option" where
  "audit_violates d m = first_violation [
     (\<not> exists_row aud_id (aud_id m) (audit_logs d), IntegrityError ''audit_logs_pkey''),
     (case aud_tenant_id m of None \<Rightarrow> True | Some t \<Rightarrow> exists_row ten_id t (tenants d),
        IntegrityError ''audit_logs_tenant_id_fkey''),
     (case aud_actor_user_id m of None \<Rightarrow> True | Some u \<Rightarrow> exists_row usr_id u (users d),
        IntegrityError ''audit_logs_actor_user_id_fkey'')]"

text \<open>Binding values to the INET and the status column.\<close>

definition bind_inet :: "(string \<Rightarrow> string option) \<Rightarrow> json \<Rightarrow> error + string option" where
  "bind_inet inet v =
     (case v of
        JNull \<Rightarrow> Inr None
      | JStr s \<Rightarrow> (case inet s of
            Some a \<Rightarrow> Inr (Some a)
          | None \<Rightarrow> Inl (DataError ''invalid input syntax for type inet''))
      | _ \<Rightarrow> Inl (DataError ''column ip_address is of type inet''))"

definition bind_status :: "json \<Rightarrow> error + instance_status" where
  "bind_status v =
     (case instance_status_of v of
        Some st \<Rightarrow> Inr st
      | None \<Rightarrow> Inl (StatementError ''not among the defined enum values''))"

definition bind_text :: "json \<Rightarrow> error + string option" where
  "bind_text v =
     (case v of
        JNull \<Rightarrow> Inr None
      | JStr s \<Rightarrow> Inr (Some s)
      | _ \<Rightarrow> Inl (DataError ''column is of type text''))"

definition json_opt_str :: "string option \<Rightarrow> json" where
  "json_opt_str v = (case v of None \<Rightarrow> JNull | Some s \<Rightarrow> JStr s)"

lemma bind_inet_simps [simp]:
  "bind_inet inet JNull = Inr None"
  "bind_inet inet (json_opt_str None) = Inr None"
  by (simp_all add: bind_inet_def json_opt_str_def)

lemma bind_text_simps [simp]:
  "bind_text JNull = Inr None" "bind_text (JStr s) = Inr (Some s)"
  "bind_text (json_opt_str v) = Inr v"
  by (simp_all add: bind_text_def json_opt_str_def split: option.splits)

lemma bind_status_str [simp]: "bind_status (JStr (instance_status_str st)) = Inr st"
  by (simp add: bind_status_def)

lemma bind_status_literals [simp]:
  "bind_status (JStr ''creating_pending'') = Inr creating_pending"
  "bind_status (JStr ''updating_pending'') = Inr updating_pending"
  "bind_status (JStr ''starting_pending'') = Inr starting_pending"
  "bind_status (JStr ''stopping_pending'') = Inr stopping_pending"
  "bind_status (JStr ''deleting_pending'') = Inr deleting_pending"
  "bind_status (JStr ''running'') = Inr running"
  "bind_status (JStr ''stopped'') = Inr stopped"
  "bind_status (JStr ''error'') = Inr error_status"
  "bind_status (JStr ''deleted'') = Inr deleted"
  by (simp_all add: bind_status_def instance_status_of_def all_instance_status_def)

section \<open>The tables meet the contract of a table\<close>

interpretation inst_t: sql_table instances instances_update im_id
  by unfold_locales (simp, case_tac s, simp)

interpretation task_t: sql_table instance_tasks instance_tasks_update task_id
  by unfold_locales (simp, case_tac s, simp)

interpretation ob_t: sql_table command_outbox command_outbox_update ob_id
  by unfold_locales (simp, case_tac s, simp)

interpretation ten_t: sql_table tenants tenants_update ten_id
  by unfold_locales (simp, case_tac s, simp)

interpretation quo_t: sql_table tenant_quotas tenant_quotas_update quo_tenant_id
  by unfold_locales (simp, case_tac s, simp)

interpretation usr_t: sql_table users users_update usr_id
  by unfold_locales (simp, case_tac s, simp)

interpretation rt_t: sql_table refresh_tokens refresh_tokens_update rt_id
  by unfold_locales (simp, case_tac s, simp)

interpretation rt_hash_t: sql_table refresh_tokens refresh_tokens_update rt_token_hash
  by unfold_locales (simp, case_tac s, simp)

interpretation cap_t: sql_table resource_capacity resource_capacity_update cap_host_node
  by unfold_locales (simp, case_tac s, simp)

interpretation aud_t: sql_table audit_logs audit_logs_update aud_id
  by unfold_locales (simp, case_tac s, simp)

end
