(* ===== verification/Ports.thy ===== *)
theory Ports
  imports Store
begin

text \<open>
  The repository interfaces of \<^verbatim>\<open>app/ports\<close> as locales: the operations a service calls
  as parameters, and the laws every implementation promises.  The services of
  \<open>Task_State\<close> are verified against \<open>instance_repository\<close> alone; the task commands,
  the result processor and the stale-task monitor against both.
\<close>

type_synonym 's spec_updater =
  "uuid \<Rightarrow> resource_spec \<Rightarrow> json \<Rightarrow> json \<Rightarrow> bool \<Rightarrow> uuid option \<Rightarrow> timestamp option
     \<Rightarrow> (error, 's, vm_instance) act"

type_synonym 's state_updater =
  "uuid \<Rightarrow> json \<Rightarrow> bool \<Rightarrow> uuid option \<Rightarrow> timestamp option \<Rightarrow> json
     \<Rightarrow> (error, 's, vm_instance) act"

text \<open>
  \<^verbatim>\<open>InstanceRepository\<close>: a successful write is read back, writes the columns it was given,
  keeps the identity of the row, and leaves every other instance alone; a failed one changes
  nothing.
\<close>

locale instance_repository =
  fixes find_inst :: "'s \<Rightarrow> uuid \<Rightarrow> vm_instance option"
    and upd_spec :: "'s spec_updater"
    and upd_state :: "'s state_updater"
    and frame :: "'s \<Rightarrow> 's \<Rightarrow> bool"
  assumes upd_state_ok:
      "upd_state iid st res ltid del ip s = (Inr i, s') \<Longrightarrow>
         find_inst s' = (find_inst s)(iid \<mapsto> i) \<and> frame s s' \<and>
         (\<exists>i0. find_inst s iid = Some i0 \<and> inst_id i = inst_id i0 \<and>
            inst_tenant_id i = inst_tenant_id i0 \<and> inst_host_node i = inst_host_node i0 \<and>
            inst_spec i = inst_spec i0) \<and>
         st = JStr (instance_status_str (inst_status i)) \<and> inst_reserve_resources i = res \<and>
         inst_last_task_id i = ltid \<and> inst_deleted_at i = del \<and>
         (inst_ip_address i = None \<longleftrightarrow> ip = JNull)"
    and upd_spec_ok:
      "upd_spec iid sp st ip res ltid del s = (Inr i, s') \<Longrightarrow>
         find_inst s' = (find_inst s)(iid \<mapsto> i) \<and> frame s s' \<and>
         (\<exists>i0. find_inst s iid = Some i0 \<and> inst_id i = inst_id i0 \<and>
            inst_tenant_id i = inst_tenant_id i0 \<and> inst_host_node i = inst_host_node i0) \<and>
         inst_spec i = sp \<and>
         st = JStr (instance_status_str (inst_status i)) \<and> inst_reserve_resources i = res \<and>
         inst_last_task_id i = ltid \<and> inst_deleted_at i = del \<and>
         (inst_ip_address i = None \<longleftrightarrow> ip = JNull)"
    and upd_state_fail: "upd_state iid st res ltid del ip s = (Inl e, s') \<Longrightarrow> s' = s"
    and upd_spec_fail: "upd_spec iid sp st ip res ltid del s = (Inl e, s') \<Longrightarrow> s' = s"

text \<open>
  \<^verbatim>\<open>TaskRepository\<close>: a status change writes one task, is read back, and keeps its
  identity, command and request.
\<close>

definition same_request :: "instance_task \<Rightarrow> instance_task \<Rightarrow> bool" where
  "same_request t t' \<longleftrightarrow> task_id t = task_id t' \<and> task_instance_id t = task_instance_id t' \<and>
     task_cmd t = task_cmd t' \<and> task_request_id t = task_request_id t' \<and>
     task_request_payload t = task_request_payload t' \<and> task_max_attempts t = task_max_attempts t' \<and>
     task_created_at t = task_created_at t'"

locale task_repository =
  fixes find_task :: "'s \<Rightarrow> uuid \<Rightarrow> instance_task option"
    and set_status :: "'op \<Rightarrow> uuid \<Rightarrow> (error, 's, instance_task) act"
    and status_of_op :: "'op \<Rightarrow> task_status"
    and tframe :: "'s \<Rightarrow> 's \<Rightarrow> bool"
  assumes set_status_ok:
      "set_status op tid s = (Inr t, s') \<Longrightarrow>
         find_task s' = (find_task s)(tid \<mapsto> t) \<and> tframe s s' \<and>
         (\<exists>t0. find_task s tid = Some t0 \<and> same_request t0 t) \<and> task_stat t = status_of_op op"
    and set_status_fail: "set_status op tid s = (Inl e, s') \<Longrightarrow> s' = s"
begin

text \<open>A status change moves a task between classes of statuses and touches no other one.\<close>

lemma other_task_unchanged:
  "set_status op tid s = (Inr t, s') \<Longrightarrow> k \<noteq> tid \<Longrightarrow> find_task s' k = find_task s k"
  by (drule set_status_ok) simp

lemma missing_task_fails: "find_task s tid = None \<Longrightarrow> \<exists>e. set_status op tid s = (Inl e, s)"
  by (cases "set_status op tid s"; cases "fst (set_status op tid s)")
     (auto dest: set_status_ok set_status_fail)

end

end
