(* ===== verification/Instance_Repo.thy ===== *)
theory Instance_Repo
  imports Ports
begin

text \<open>
  \<^verbatim>\<open>adapters/postgres_repositories/instance.py\<close>: the write repository on which every
  command works and the single-row read.  The rows it returns are converted by
  \<open>to_instance\<close>.  \<open>now\<close> is the reading of \<^verbatim>\<open>datetime.now\<close> inside the operation.
\<close>

definition instance_get_for_update :: "uuid \<Rightarrow> vm_instance option db_act" where
  "instance_get_for_update iid =
     bindM (sql_scalar instances (\<lambda>r. im_id r = iid)) (\<lambda>m. returnM (map_option to_instance m))"

definition instance_create :: "vm_instance \<Rightarrow> vm_instance db_act" where
  "instance_create i =
     bindM (sql_insert instances_update instance_violates
       \<lparr>im_id = inst_id i, im_tenant_id = inst_tenant_id i, im_name = inst_name i,
        im_cpu = cpu (inst_spec i), im_memory_mib = memory_mib (inst_spec i),
        im_disk_gib = disk_gib (inst_spec i), im_status = inst_status i,
        im_ip_address = inst_ip_address i, im_host_node = inst_host_node i,
        im_reserve_resources = inst_reserve_resources i, im_last_task_id = inst_last_task_id i,
        im_deleted_at = inst_deleted_at i, im_created_at = inst_created_at i,
        im_updated_at = inst_updated_at i\<rparr>) (\<lambda>m. returnM (to_instance m))"

text \<open>The assignments of the two UPDATE statements.\<close>

definition set_instance_state ::
  "instance_status \<Rightarrow> bool \<Rightarrow> uuid option \<Rightarrow> timestamp option \<Rightarrow> string option \<Rightarrow> timestamp
     \<Rightarrow> instance_model \<Rightarrow> instance_model" where
  "set_instance_state status reserve ltid del addr now r =
     r\<lparr>im_status := status, im_reserve_resources := reserve, im_last_task_id := ltid,
       im_deleted_at := del, im_ip_address := addr, im_updated_at := now\<rparr>"

definition set_instance_spec ::
  "resource_spec \<Rightarrow> instance_status \<Rightarrow> bool \<Rightarrow> uuid option \<Rightarrow> timestamp option \<Rightarrow> string option
     \<Rightarrow> timestamp \<Rightarrow> instance_model \<Rightarrow> instance_model" where
  "set_instance_spec sp status reserve ltid del addr now r =
     r\<lparr>im_cpu := cpu sp, im_memory_mib := memory_mib sp, im_disk_gib := disk_gib sp,
       im_status := status, im_ip_address := addr, im_reserve_resources := reserve,
       im_last_task_id := ltid, im_deleted_at := del, im_updated_at := now\<rparr>"

definition instance_update_spec ::
  "(string \<Rightarrow> string option) \<Rightarrow> timestamp \<Rightarrow> db spec_updater" where
  "instance_update_spec inet now iid sp st ip reserve ltid del =
     bindM (liftM (bind_status st)) (\<lambda>status.
     bindM (liftM (bind_inet inet ip)) (\<lambda>addr.
     bindM (guardM (int4 (cpu sp) \<and> int4 (memory_mib sp) \<and> int4 (disk_gib sp))
       (DataError ''integer out of range'')) (\<lambda>_.
     sql_update_one instances instances_update (\<lambda>r. im_id r = iid)
       (set_instance_spec sp status reserve ltid del addr now)
       to_instance (NotFoundError (''instance '' @ uuid_str iid @ '' not found'')))))"

definition instance_update_state ::
  "(string \<Rightarrow> string option) \<Rightarrow> timestamp \<Rightarrow> db state_updater" where
  "instance_update_state inet now iid st reserve ltid del ip =
     bindM (liftM (bind_status st)) (\<lambda>status.
     bindM (liftM (bind_inet inet ip)) (\<lambda>addr.
     sql_update_one instances instances_update (\<lambda>r. im_id r = iid)
       (set_instance_state status reserve ltid del addr now)
       to_instance (NotFoundError (''instance '' @ uuid_str iid @ '' not found''))))"

definition instance_read_get :: "uuid \<Rightarrow> uuid option \<Rightarrow> vm_instance option db_act" where
  "instance_read_get iid tenant =
     bindM (sql_scalar instances (\<lambda>r. im_id r = iid \<and>
         (case tenant of None \<Rightarrow> True | Some t \<Rightarrow> im_tenant_id r = t)))
       (\<lambda>m. returnM (map_option to_instance m))"

section \<open>The instances of a database as a map\<close>

definition inst_at :: "db \<Rightarrow> uuid \<Rightarrow> vm_instance option" where
  "inst_at d iid = map_option to_instance (row_of im_id iid (instances d))"

lemma inst_at_id: "inst_at d iid = Some i \<Longrightarrow> inst_id i = iid"
  by (auto simp: inst_at_def dest: row_of_SomeD)

lemma instance_get_for_update_run [act_simps]:
  "instance_get_for_update iid d = (Inr (inst_at d iid), d)"
  by (simp add: instance_get_for_update_def bindM_sql_run find_key inst_at_def)

lemma bindM_instance_get [act_simps]:
  "bindM (instance_get_for_update iid) f d = f (inst_at d iid) d"
  by (simp add: bindM_def instance_get_for_update_run)

lemma instance_read_get_None [act_simps]:
  "instance_read_get iid None d = (Inr (inst_at d iid), d)"
  by (simp add: instance_read_get_def bindM_sql_run find_key inst_at_def)

lemma instance_read_get_tenant:
  assumes "instance_read_get iid (Some t) d = (Inr (Some i), d')"
  shows "inst_id i = iid \<and> inst_tenant_id i = t"
  using assms by (auto simp: instance_read_get_def bindM_sql_run find_Some_iff)

lemma inst_at_update_where:
  assumes "\<And>r. im_id (f r) = im_id r"
  shows "inst_at (instances_update (update_where (\<lambda>r. im_id r = iid) f) d) k =
    (if k = iid then map_option (to_instance \<circ> f) (row_of im_id k (instances d)) else inst_at d k)"
  using inst_t.get_after_update [of f k iid d] assms
  by (simp add: inst_at_def option.map_comp)

text \<open>
  An update of one instance writes the table only; \<open>only_instances\<close> is the frame of the
  instance repository.
\<close>

definition only_instances :: "db \<Rightarrow> db \<Rightarrow> bool" where
  "only_instances d d' \<longleftrightarrow> (\<exists>f. d' = d\<lparr>instances := update_where (\<lambda>r. True) f (instances d)\<rparr> \<and>
     (\<forall>r. im_id (f r) = im_id r \<and> im_tenant_id (f r) = im_tenant_id r \<and> im_host_node (f r) = im_host_node r))"

lemma only_instances_frame:
  "only_instances d d' \<Longrightarrow> tenants d' = tenants d \<and> tenant_quotas d' = tenant_quotas d \<and>
     resource_capacity d' = resource_capacity d \<and> instance_tasks d' = instance_tasks d \<and>
     command_outbox d' = command_outbox d \<and> users d' = users d \<and>
     refresh_tokens d' = refresh_tokens d \<and> audit_logs d' = audit_logs d \<and>
     map im_id (instances d') = map im_id (instances d)"
  by (auto simp: only_instances_def map_update_where_key)

lemma only_instancesI:
  assumes "\<And>r. im_id (f r) = im_id r" "\<And>r. im_tenant_id (f r) = im_tenant_id r"
    "\<And>r. im_host_node (f r) = im_host_node r"
  shows "only_instances d (instances_update (update_where p f) d)"
  unfolding only_instances_def
  by (rule exI [of _ "\<lambda>r. if p r then f r else r"]) (simp add: assms update_where_def)

lemma bind_inet_None_iff: "bind_inet inet ip = Inr a \<Longrightarrow> a = None \<longleftrightarrow> ip = JNull"
  by (cases ip; cases "inet (case ip of JStr x \<Rightarrow> x | _ \<Rightarrow> [])") (auto simp: bind_inet_def)

lemma bind_status_Inr: "bind_status st = Inr s \<Longrightarrow> st = JStr (instance_status_str s)"
  by (auto simp: bind_status_def dest: instance_status_ofD split: option.splits)

lemma set_instance_sel [simp]:
  "im_id (set_instance_state status reserve ltid del addr now r) = im_id r"
  "im_tenant_id (set_instance_state status reserve ltid del addr now r) = im_tenant_id r"
  "im_host_node (set_instance_state status reserve ltid del addr now r) = im_host_node r"
  "im_cpu (set_instance_state status reserve ltid del addr now r) = im_cpu r"
  "im_memory_mib (set_instance_state status reserve ltid del addr now r) = im_memory_mib r"
  "im_disk_gib (set_instance_state status reserve ltid del addr now r) = im_disk_gib r"
  "im_status (set_instance_state status reserve ltid del addr now r) = status"
  "im_reserve_resources (set_instance_state status reserve ltid del addr now r) = reserve"
  "im_last_task_id (set_instance_state status reserve ltid del addr now r) = ltid"
  "im_deleted_at (set_instance_state status reserve ltid del addr now r) = del"
  "im_ip_address (set_instance_state status reserve ltid del addr now r) = addr"
  "im_id (set_instance_spec sp status reserve ltid del addr now r) = im_id r"
  "im_tenant_id (set_instance_spec sp status reserve ltid del addr now r) = im_tenant_id r"
  "im_host_node (set_instance_spec sp status reserve ltid del addr now r) = im_host_node r"
  "im_cpu (set_instance_spec sp status reserve ltid del addr now r) = cpu sp"
  "im_memory_mib (set_instance_spec sp status reserve ltid del addr now r) = memory_mib sp"
  "im_disk_gib (set_instance_spec sp status reserve ltid del addr now r) = disk_gib sp"
  "im_status (set_instance_spec sp status reserve ltid del addr now r) = status"
  "im_reserve_resources (set_instance_spec sp status reserve ltid del addr now r) = reserve"
  "im_last_task_id (set_instance_spec sp status reserve ltid del addr now r) = ltid"
  "im_deleted_at (set_instance_spec sp status reserve ltid del addr now r) = del"
  "im_ip_address (set_instance_spec sp status reserve ltid del addr now r) = addr"
  by (simp_all add: set_instance_state_def set_instance_spec_def)

lemma to_instance_set_spec [simp]:
  "inst_spec (to_instance (set_instance_spec sp status reserve ltid del addr now r)) = sp"
  by (simp add: to_instance_def)

lemma to_instance_set_state [simp]:
  "inst_spec (to_instance (set_instance_state status reserve ltid del addr now r)) =
     inst_spec (to_instance r)"
  by (simp add: to_instance_def)

lemma instance_update_state_run:
  "instance_update_state inet now iid st reserve ltid del ip d = (Inr i, d') \<longleftrightarrow>
     (\<exists>status addr r. bind_status st = Inr status \<and> bind_inet inet ip = Inr addr \<and>
        row_of im_id iid (instances d) = Some r \<and>
        i = to_instance (set_instance_state status reserve ltid del addr now r) \<and>
        d' = instances_update (update_where (\<lambda>r. im_id r = iid)
          (set_instance_state status reserve ltid del addr now)) d)"
  by (auto simp: instance_update_state_def inst_t.update_one_run split: option.splits)

lemma instance_update_spec_run:
  "instance_update_spec inet now iid sp st ip reserve ltid del d = (Inr i, d') \<longleftrightarrow>
     (\<exists>status addr r. bind_status st = Inr status \<and> bind_inet inet ip = Inr addr \<and>
        int4 (cpu sp) \<and> int4 (memory_mib sp) \<and> int4 (disk_gib sp) \<and>
        row_of im_id iid (instances d) = Some r \<and>
        i = to_instance (set_instance_spec sp status reserve ltid del addr now r) \<and>
        d' = instances_update (update_where (\<lambda>r. im_id r = iid)
          (set_instance_spec sp status reserve ltid del addr now)) d)"
  by (auto simp: instance_update_spec_def inst_t.update_one_run split: option.splits if_splits)

interpretation pg_inst: instance_repository inst_at
    "instance_update_spec inet now" "instance_update_state inet now" only_instances for inet now
proof (unfold_locales, goal_cases)
  case (1 iid st res ltid del ip s i s')
  then show ?case
    by (auto simp: instance_update_state_run row_of_update_where only_instancesI
        fun_eq_iff inst_at_def dest: bind_status_Inr bind_inet_None_iff)
next
  case (2 iid sp st ip res ltid del s i s')
  then show ?case
    by (auto simp: instance_update_spec_run row_of_update_where only_instancesI
        fun_eq_iff inst_at_def dest: bind_status_Inr bind_inet_None_iff)
next
  case (3 iid st res ltid del ip s e s')
  then show ?case
    by (auto simp: instance_update_state_def bindM_Inl_iff inst_t.update_one_run
        update_where_missing split: option.splits)
next
  case (4 iid sp st ip res ltid del s e s')
  then show ?case
    by (auto simp: instance_update_spec_def bindM_Inl_iff inst_t.update_one_run
        update_where_missing split: option.splits if_splits)
qed

end
