(* ===== verification/Task_State.thy ===== *)
theory Task_State
  imports Instance_Repo
begin

text \<open>
  \<^verbatim>\<open>application/services/task_instance_state.py\<close>: how an instance enters the pending
  state of a command, and how it leaves it when the command does not succeed.  The repository is
  a parameter (\<open>upd_spec\<close>, \<open>upd_state\<close>), as it is in the source, and the lemmas
  hold for every repository that meets \<open>instance_repository\<close>.
\<close>

definition spec_of_payload :: "dict \<Rightarrow> resource_spec \<Rightarrow> error + resource_spec" where
  "spec_of_payload payload fallback =
     (case py_int (dget_default payload ''cpu'' (JInt (cpu fallback))) of Inl e \<Rightarrow> Inl e | Inr c \<Rightarrow>
      case py_int (dget_default payload ''memory_mib'' (JInt (memory_mib fallback))) of Inl e \<Rightarrow> Inl e | Inr m \<Rightarrow>
      case py_int (dget_default payload ''disk_gib'' (JInt (disk_gib fallback))) of Inl e \<Rightarrow> Inl e | Inr g \<Rightarrow>
        Inr \<lparr>cpu = c, memory_mib = m, disk_gib = g\<rparr>)"

text \<open>A value used as a \<^verbatim>\<open>dict\<close>: \<^verbatim>\<open>.get\<close> of anything else is an AttributeError.\<close>

fun as_dict :: "json \<Rightarrow> error + dict" where
  "as_dict (JObj d) = Inr d"
| "as_dict _ = Inl (AttributeError ''object has no attribute get'')"

definition apply_pending_instance_state ::
  "'s spec_updater \<Rightarrow> 's state_updater \<Rightarrow> vm_instance \<Rightarrow> task_command \<Rightarrow> dict \<Rightarrow> uuid
     \<Rightarrow> (error, 's, unit) act" where
  "apply_pending_instance_state upd_spec upd_state i c payload tid =
     (case c of
        cmd_create \<Rightarrow>
          bindM (liftM (spec_of_payload payload (inst_spec i))) (\<lambda>sp.
          bindM (upd_spec (inst_id i) sp (JStr ''creating_pending'') JNull True (Some tid) None)
            (\<lambda>_. returnM ()))
      | cmd_update \<Rightarrow>
          bindM (liftM (spec_of_payload payload (inst_spec i))) (\<lambda>sp.
          bindM (upd_spec (inst_id i) sp (JStr ''updating_pending'') (json_opt_str (inst_ip_address i))
              True (Some tid) (inst_deleted_at i)) (\<lambda>_. returnM ()))
      | cmd_start \<Rightarrow>
          bindM (upd_state (inst_id i) (JStr ''starting_pending'') True (Some tid)
              (inst_deleted_at i) (json_opt_str (inst_ip_address i))) (\<lambda>_. returnM ())
      | cmd_stop \<Rightarrow>
          bindM (upd_state (inst_id i) (JStr ''stopping_pending'') True (Some tid)
              (inst_deleted_at i) (json_opt_str (inst_ip_address i))) (\<lambda>_. returnM ())
      | cmd_delete \<Rightarrow>
          bindM (upd_state (inst_id i) (JStr ''deleting_pending'') False (Some tid)
              None (json_opt_str (inst_ip_address i))) (\<lambda>_. returnM ()))"

text \<open>
  \<^verbatim>\<open>_parse_timestamp\<close> of a JSON value (never a \<^verbatim>\<open>datetime\<close>), then the binding to a
  TIMESTAMPTZ column, which refuses a naive datetime.
\<close>

definition replace_Z :: "string \<Rightarrow> string" where
  "replace_Z s = concat (map (\<lambda>c. if c = CHR ''Z'' then ''+00:00'' else [c]) s)"

definition parse_timestamp :: "json \<Rightarrow> error + py_datetime option" where
  "parse_timestamp v =
     (if \<not> truthy v then Inr None
      else case v of
        JStr s \<Rightarrow> (case fromisoformat (replace_Z s) of
            Some t \<Rightarrow> Inr (Some t)
          | None \<Rightarrow> Inl (ValueError (''Invalid isoformat string: '' @ replace_Z s)))
      | _ \<Rightarrow> Inr None)"

definition bind_timestamptz :: "py_datetime option \<Rightarrow> error + timestamp option" where
  "bind_timestamptz v =
     (case v of
        None \<Rightarrow> Inr None
      | Some (Aware t) \<Rightarrow> Inr (Some t)
      | Some (Naive _) \<Rightarrow> Inl (DataError ''cannot subtract offset-naive and offset-aware datetimes''))"

definition default_previous_spec :: resource_spec where
  "default_previous_spec = \<lparr>cpu = 1, memory_mib = 512, disk_gib = 10\<rparr>"

definition revert_instance_state_on_terminal_failure ::
  "'s spec_updater \<Rightarrow> 's state_updater \<Rightarrow> uuid \<Rightarrow> task_command \<Rightarrow> dict \<Rightarrow> (error, 's, unit) act" where
  "revert_instance_state_on_terminal_failure upd_spec upd_state iid c payload =
     (if c = cmd_create then
        bindM (upd_state iid (JStr ''error'') False None None JNull) (\<lambda>_. returnM ())
      else
        bindM (liftM (as_dict (dget_default payload ''previous_spec'' (JObj [])))) (\<lambda>prev.
        bindM (liftM (spec_of_payload prev default_previous_spec)) (\<lambda>sp.
        case c of
          cmd_update \<Rightarrow>
            bindM (liftM (parse_timestamp (dget payload ''previous_deleted_at''))) (\<lambda>dt.
            bindM (liftM (bind_timestamptz dt)) (\<lambda>del.
            bindM (upd_spec iid sp (JStr ''error'') (dget payload ''previous_ip_address'')
                True None del) (\<lambda>_. returnM ())))
        | cmd_start \<Rightarrow>
            bindM (upd_state iid (py_or (dget payload ''previous_status'') (JStr ''stopped''))
                (truthy (dget_default payload ''previous_reserve_resources'' (JBool True)))
                None None (dget payload ''previous_ip_address'')) (\<lambda>_. returnM ())
        | cmd_stop \<Rightarrow>
            bindM (upd_state iid (py_or (dget payload ''previous_status'') (JStr ''running''))
                (truthy (dget_default payload ''previous_reserve_resources'' (JBool True)))
                None None (dget payload ''previous_ip_address'')) (\<lambda>_. returnM ())
        | _ \<Rightarrow>
            bindM (upd_spec iid sp (JStr ''error'') (dget payload ''previous_ip_address'')
                True None None) (\<lambda>_. returnM ()))))"

text \<open>What a revert writes, read off the payload.\<close>

definition reverted_status :: "task_command \<Rightarrow> dict \<Rightarrow> json" where
  "reverted_status c payload =
     (if c = cmd_start then py_or (dget payload ''previous_status'') (JStr ''stopped'')
      else if c = cmd_stop then py_or (dget payload ''previous_status'') (JStr ''running'')
      else JStr ''error'')"

definition reverted_reserve :: "task_command \<Rightarrow> dict \<Rightarrow> bool" where
  "reverted_reserve c payload =
     (if c \<in> {cmd_start, cmd_stop}
      then truthy (dget_default payload ''previous_reserve_resources'' (JBool True))
      else c \<noteq> cmd_create)"

definition reverted_spec :: "dict \<Rightarrow> error + resource_spec" where
  "reverted_spec payload =
     (case as_dict (dget_default payload ''previous_spec'' (JObj [])) of
        Inl e \<Rightarrow> Inl e | Inr prev \<Rightarrow> spec_of_payload prev default_previous_spec)"

context instance_repository
begin

lemma apply_pending_ok:
  assumes "apply_pending_instance_state upd_spec upd_state i c payload tid s = (Inr u, s')"
  obtains i0 i' where "find_inst s (inst_id i) = Some i0" "find_inst s' = (find_inst s)(inst_id i \<mapsto> i')"
    "frame s s'" "inst_id i' = inst_id i0" "inst_tenant_id i' = inst_tenant_id i0"
    "inst_host_node i' = inst_host_node i0" "inst_status i' = pending_status c"
    "inst_last_task_id i' = Some tid" "inst_reserve_resources i' = (c \<noteq> cmd_delete)"
    "inst_deleted_at i' = (if c \<in> {cmd_create, cmd_delete} then None else inst_deleted_at i)"
    "if c \<in> {cmd_create, cmd_update} then spec_of_payload payload (inst_spec i) = Inr (inst_spec i')
     else inst_spec i' = inst_spec i0"
proof (cases c)
  case cmd_create
  then obtain sp i' where sp: "spec_of_payload payload (inst_spec i) = Inr sp"
    and i': "upd_spec (inst_id i) sp (JStr (instance_status_str creating_pending)) JNull True (Some tid) None s = (Inr i', s')"
    using assms by (auto simp: apply_pending_instance_state_def)
  then show ?thesis using upd_spec_ok [OF i'] cmd_create by (auto intro: that)
next
  case cmd_update
  then obtain sp i' where sp: "spec_of_payload payload (inst_spec i) = Inr sp"
    and i': "upd_spec (inst_id i) sp (JStr (instance_status_str updating_pending)) (json_opt_str (inst_ip_address i)) True
        (Some tid) (inst_deleted_at i) s = (Inr i', s')"
    using assms by (auto simp: apply_pending_instance_state_def)
  then show ?thesis using upd_spec_ok [OF i'] cmd_update by (auto intro: that)
next
  case cmd_delete
  then obtain i' where i': "upd_state (inst_id i) (JStr (instance_status_str deleting_pending)) False (Some tid) None
        (json_opt_str (inst_ip_address i)) s = (Inr i', s')"
    using assms by (auto simp: apply_pending_instance_state_def)
  then show ?thesis using upd_state_ok [OF i'] cmd_delete by (auto intro: that)
next
  case cmd_start
  then obtain i' where i': "upd_state (inst_id i) (JStr (instance_status_str starting_pending)) True (Some tid)
        (inst_deleted_at i) (json_opt_str (inst_ip_address i)) s = (Inr i', s')"
    using assms by (auto simp: apply_pending_instance_state_def)
  then show ?thesis using upd_state_ok [OF i'] cmd_start by (auto intro: that)
next
  case cmd_stop
  then obtain i' where i': "upd_state (inst_id i) (JStr (instance_status_str stopping_pending)) True (Some tid)
        (inst_deleted_at i) (json_opt_str (inst_ip_address i)) s = (Inr i', s')"
    using assms by (auto simp: apply_pending_instance_state_def)
  then show ?thesis using upd_state_ok [OF i'] cmd_stop by (auto intro: that)
qed

lemma apply_pending_fail:
  "apply_pending_instance_state upd_spec upd_state i c payload tid s = (Inl e, s') \<Longrightarrow> s' = s"
  by (cases c)
     (auto simp: apply_pending_instance_state_def bindM_Inl_iff dest: upd_spec_fail upd_state_fail)

lemma revert_fail:
  "revert_instance_state_on_terminal_failure upd_spec upd_state iid c payload s = (Inl e, s') \<Longrightarrow> s' = s"
  by (cases c)
     (auto simp: revert_instance_state_on_terminal_failure_def bindM_Inl_iff
       dest: upd_spec_fail upd_state_fail)

lemma revert_ok:
  assumes "revert_instance_state_on_terminal_failure upd_spec upd_state iid c payload s = (Inr u, s')"
  obtains i0 i' where "find_inst s iid = Some i0" "find_inst s' = (find_inst s)(iid \<mapsto> i')"
    "frame s s'" "inst_id i' = inst_id i0" "inst_tenant_id i' = inst_tenant_id i0"
    "inst_host_node i' = inst_host_node i0" "inst_last_task_id i' = None"
    "c \<noteq> cmd_update \<Longrightarrow> inst_deleted_at i' = None"
    "c = cmd_update \<Longrightarrow> \<exists>dt. parse_timestamp (dget payload ''previous_deleted_at'') = Inr dt \<and>
       bind_timestamptz dt = Inr (inst_deleted_at i')"
    "reverted_status c payload = JStr (instance_status_str (inst_status i'))"
    "inst_reserve_resources i' = reverted_reserve c payload"
    "c \<notin> {cmd_update, cmd_delete} \<Longrightarrow> inst_spec i' = inst_spec i0"
    "c \<in> {cmd_update, cmd_delete} \<Longrightarrow> reverted_spec payload = Inr (inst_spec i')"
proof (cases c)
  case cmd_create
  then obtain i' where i': "upd_state iid (JStr (instance_status_str error_status)) False None None JNull s = (Inr i', s')"
    using assms by (auto simp: revert_instance_state_on_terminal_failure_def)
  then show ?thesis using upd_state_ok [OF i'] cmd_create
    by (auto intro: that simp: reverted_status_def reverted_reserve_def)
next
  case cmd_update
  then obtain sp dt del i' where sp: "reverted_spec payload = Inr sp"
    and del: "parse_timestamp (dget payload ''previous_deleted_at'') = Inr dt" "bind_timestamptz dt = Inr del"
    and i': "upd_spec iid sp (JStr (instance_status_str error_status)) (dget payload ''previous_ip_address'')
        True None del s = (Inr i', s')"
    using assms by (auto simp: revert_instance_state_on_terminal_failure_def reverted_spec_def)
  then show ?thesis using upd_spec_ok [OF i'] cmd_update del
    by (auto intro: that simp: reverted_status_def reverted_reserve_def)
next
  case cmd_delete
  then obtain sp i' where sp: "reverted_spec payload = Inr sp"
    and i': "upd_spec iid sp (JStr (instance_status_str error_status)) (dget payload ''previous_ip_address'')
        True None None s = (Inr i', s')"
    using assms by (auto simp: revert_instance_state_on_terminal_failure_def reverted_spec_def)
  then show ?thesis using upd_spec_ok [OF i'] cmd_delete
    by (auto intro: that simp: reverted_status_def reverted_reserve_def)
next
  case cmd_start
  then obtain i' where i': "upd_state iid (reverted_status c payload) (reverted_reserve c payload)
        None None (dget payload ''previous_ip_address'') s = (Inr i', s')"
    using assms by (auto simp: revert_instance_state_on_terminal_failure_def reverted_status_def
        reverted_reserve_def)
  then show ?thesis using upd_state_ok [OF i'] cmd_start by (auto intro: that)
next
  case cmd_stop
  then obtain i' where i': "upd_state iid (reverted_status c payload) (reverted_reserve c payload)
        None None (dget payload ''previous_ip_address'') s = (Inr i', s')"
    using assms by (auto simp: revert_instance_state_on_terminal_failure_def reverted_status_def
        reverted_reserve_def)
  then show ?thesis using upd_state_ok [OF i'] cmd_stop by (auto intro: that)
qed

end

end
