(* ===== verification/Lifecycle.thy ===== *)
theory Lifecycle
  imports Task_State
begin

text \<open>
  The abstract specification of commands, tasks and instances: a step relation on the map of
  instances and the map of tasks with three rules.  A task opens on an idle instance and puts it
  into the pending state of its command; it progresses; it finishes and settles the instance.
  Every handler, the result processor and the stale-task monitor are shown in
  \<open>VM_System\<close> to take only such steps.
\<close>

section \<open>Systems with an invariant, and refinement\<close>

locale invariant_system =
  fixes step :: "'s \<Rightarrow> 's \<Rightarrow> bool" and start :: "'s \<Rightarrow> bool" and inv :: "'s \<Rightarrow> bool"
  assumes start_inv: "start s \<Longrightarrow> inv s"
    and step_inv: "inv s \<Longrightarrow> step s s' \<Longrightarrow> inv s'"
begin

lemma steps_inv: "step\<^sup>*\<^sup>* s s' \<Longrightarrow> inv s \<Longrightarrow> inv s'"
  by (induction rule: rtranclp_induct) (auto intro: step_inv)

lemma reachable_inv: "start s \<Longrightarrow> step\<^sup>*\<^sup>* s s' \<Longrightarrow> inv s'"
  using start_inv steps_inv by blast

text \<open>A relation every step from a good state keeps, is kept by a run.\<close>

lemma steps_preserve:
  assumes "\<And>s s'. inv s \<Longrightarrow> step s s' \<Longrightarrow> P s \<Longrightarrow> P s'"
  shows "step\<^sup>*\<^sup>* s s' \<Longrightarrow> inv s \<Longrightarrow> P s \<Longrightarrow> P s'"
proof (induction rule: rtranclp_induct)
  case (step y z)
  then show ?case using assms steps_inv by blast
qed

end

locale refinement = invariant_system +
  fixes abs :: "'s \<Rightarrow> 'a" and astep :: "'a \<Rightarrow> 'a \<Rightarrow> bool"
  assumes simulates: "inv s \<Longrightarrow> step s s' \<Longrightarrow> astep\<^sup>*\<^sup>* (abs s) (abs s')"
begin

lemma steps_simulated: "step\<^sup>*\<^sup>* s s' \<Longrightarrow> inv s \<Longrightarrow> astep\<^sup>*\<^sup>* (abs s) (abs s')"
proof (induction rule: rtranclp_induct)
  case (step y z)
  then have "astep\<^sup>*\<^sup>* (abs y) (abs z)" using simulates steps_inv by blast
  with step show ?case by (meson rtranclp_trans)
qed simp

end

section \<open>The specification\<close>

type_synonym life = "(uuid \<Rightarrow> vm_instance option) \<times> (uuid \<Rightarrow> instance_task option)"

text \<open>
  A live instance holds its reservation unless it is being deleted or in error; exactly the
  deleted ones carry a deletion time.
\<close>

definition inst_ok :: "vm_instance \<Rightarrow> bool" where
  "inst_ok i \<longleftrightarrow> (inst_deleted_at i \<noteq> None \<longleftrightarrow> inst_status i = deleted) \<and>
     (inst_status i \<noteq> error_status \<longrightarrow>
        inst_reserve_resources i = (inst_status i \<notin> {deleting_pending, deleted}))"

text \<open>What a task recorded lets a failure settle the instance again.\<close>

definition revert_ready :: "task_command \<Rightarrow> dict \<Rightarrow> bool" where
  "revert_ready c payload \<longleftrightarrow>
     (c \<in> {cmd_start, cmd_stop} \<longrightarrow>
        reverted_status c payload \<in> {JStr ''running'', JStr ''stopped''} \<and> reverted_reserve c payload) \<and>
     (c = cmd_update \<longrightarrow> dget payload ''previous_deleted_at'' = JNull)"

definition same_place :: "vm_instance \<Rightarrow> vm_instance \<Rightarrow> bool" where
  "same_place i i' \<longleftrightarrow> inst_id i' = inst_id i \<and> inst_tenant_id i' = inst_tenant_id i \<and>
     inst_host_node i' = inst_host_node i"

definition idle_in :: "(uuid \<Rightarrow> instance_task option) \<Rightarrow> uuid \<Rightarrow> bool" where
  "idle_in ts iid \<longleftrightarrow> (\<forall>tid t. ts tid = Some t \<longrightarrow> task_instance_id t = iid \<longrightarrow> \<not> task_active (task_stat t))"

inductive life_step :: "life \<Rightarrow> life \<Rightarrow> bool" where
  open_task:
    "ts tid = None \<Longrightarrow> idle_in ts iid \<Longrightarrow>
     (case is iid of None \<Rightarrow> task_cmd t = cmd_create
      | Some i0 \<Rightarrow> inst_status i0 \<noteq> deleted \<and> same_place i0 i) \<Longrightarrow>
     inst_id i = iid \<Longrightarrow> inst_ok i \<Longrightarrow> inst_status i = pending_status (task_cmd t) \<Longrightarrow>
     inst_last_task_id i = Some tid \<Longrightarrow>
     task_id t = tid \<Longrightarrow> task_instance_id t = iid \<Longrightarrow> task_stat t = task_queued \<Longrightarrow>
     revert_ready (task_cmd t) (task_request_payload t) \<Longrightarrow>
     life_step (is, ts) (is(iid \<mapsto> i), ts(tid \<mapsto> t))"
| progress_task:
    "ts tid = Some t \<Longrightarrow> task_active (task_stat t) \<Longrightarrow> same_request t t' \<Longrightarrow>
     task_stat t' \<in> {task_running, cancel_pending} \<Longrightarrow>
     life_step (is, ts) (is, ts(tid \<mapsto> t'))"
| finish_task:
    "ts tid = Some t \<Longrightarrow> task_active (task_stat t) \<Longrightarrow> same_request t t' \<Longrightarrow>
     task_terminal (task_stat t') \<Longrightarrow>
     is (task_instance_id t) = Some i \<Longrightarrow> same_place i i' \<Longrightarrow> inst_ok i' \<Longrightarrow>
     \<not> is_pending (inst_status i') \<Longrightarrow>
     life_step (is, ts) (is(task_instance_id t \<mapsto> i'), ts(tid \<mapsto> t'))"

lemma life_stepE [consumes 1, case_names open_task progress_task finish_task]:
  assumes "life_step (is, ts) s'"
  obtains tid iid t i where "s' = (is(iid \<mapsto> i), ts(tid \<mapsto> t))" "ts tid = None" "idle_in ts iid"
      "case is iid of None \<Rightarrow> task_cmd t = cmd_create
       | Some i0 \<Rightarrow> inst_status i0 \<noteq> deleted \<and> same_place i0 i"
      "inst_id i = iid" "inst_ok i" "inst_status i = pending_status (task_cmd t)"
      "inst_last_task_id i = Some tid" "task_id t = tid" "task_instance_id t = iid"
      "task_stat t = task_queued" "revert_ready (task_cmd t) (task_request_payload t)"
  | tid t t' where "s' = (is, ts(tid \<mapsto> t'))" "ts tid = Some t" "task_active (task_stat t)"
      "same_request t t'" "task_stat t' \<in> {task_running, cancel_pending}"
  | tid t t' i i' where "s' = (is(task_instance_id t \<mapsto> i'), ts(tid \<mapsto> t'))" "ts tid = Some t"
      "task_active (task_stat t)" "same_request t t'" "task_terminal (task_stat t')"
      "is (task_instance_id t) = Some i" "same_place i i'" "inst_ok i'" "\<not> is_pending (inst_status i')"
  using assms by (cases rule: life_step.cases) blast+

definition life_inv :: "life \<Rightarrow> bool" where
  "life_inv s \<longleftrightarrow> (case s of (is, ts) \<Rightarrow>
     (\<forall>k i. is k = Some i \<longrightarrow> inst_id i = k \<and> inst_ok i) \<and>
     (\<forall>k t. ts k = Some t \<longrightarrow> task_id t = k \<and> is (task_instance_id t) \<noteq> None \<and>
        revert_ready (task_cmd t) (task_request_payload t)) \<and>
     (\<forall>k t. ts k = Some t \<longrightarrow> task_active (task_stat t) \<longrightarrow>
        (\<exists>i. is (task_instance_id t) = Some i \<and> inst_status i = pending_status (task_cmd t) \<and>
           inst_last_task_id i = Some k)) \<and>
     (\<forall>k i. is k = Some i \<longrightarrow> is_pending (inst_status i) \<longrightarrow>
        (\<exists>tid t. inst_last_task_id i = Some tid \<and> ts tid = Some t \<and> task_active (task_stat t) \<and>
           task_instance_id t = k)))"

lemma life_invI:
  assumes "\<And>k i. is k = Some i \<Longrightarrow> inst_id i = k \<and> inst_ok i"
    and "\<And>k t. ts k = Some t \<Longrightarrow> task_id t = k \<and> is (task_instance_id t) \<noteq> None \<and>
        revert_ready (task_cmd t) (task_request_payload t)"
    and "\<And>k t. ts k = Some t \<Longrightarrow> task_active (task_stat t) \<Longrightarrow>
        \<exists>i. is (task_instance_id t) = Some i \<and> inst_status i = pending_status (task_cmd t) \<and>
           inst_last_task_id i = Some k"
    and "\<And>k i. is k = Some i \<Longrightarrow> is_pending (inst_status i) \<Longrightarrow>
        \<exists>tid t. inst_last_task_id i = Some tid \<and> ts tid = Some t \<and> task_active (task_stat t) \<and>
           task_instance_id t = k"
  shows "life_inv (is, ts)"
  using assms unfolding life_inv_def by blast

lemma life_invD:
  assumes "life_inv (is, ts)"
  shows "is k = Some i \<Longrightarrow> inst_id i = k" "is k = Some i \<Longrightarrow> inst_ok i"
    "ts tid = Some t \<Longrightarrow> task_id t = tid" "ts tid = Some t \<Longrightarrow> is (task_instance_id t) \<noteq> None"
    "ts tid = Some t \<Longrightarrow> revert_ready (task_cmd t) (task_request_payload t)"
    "ts tid = Some t \<Longrightarrow> task_active (task_stat t) \<Longrightarrow>
       \<exists>i. is (task_instance_id t) = Some i \<and> inst_status i = pending_status (task_cmd t) \<and>
           inst_last_task_id i = Some tid"
    "is k = Some i \<Longrightarrow> is_pending (inst_status i) \<Longrightarrow>
       \<exists>tid t. inst_last_task_id i = Some tid \<and> ts tid = Some t \<and> task_active (task_stat t) \<and>
           task_instance_id t = k"
  using assms by (auto simp: life_inv_def)

text \<open>At most one task of an instance is active: both would be the instance's last task.\<close>

lemma one_active_task:
  assumes "life_inv (is, ts)" "ts a = Some t" "ts b = Some u" "task_instance_id t = task_instance_id u"
    "task_active (task_stat t)" "task_active (task_stat u)"
  shows "a = b"
  using life_invD(6) [OF assms(1,2,5)] life_invD(6) [OF assms(1,3,6)] assms(4) by auto

lemma same_requestD:
  "same_request t t' \<Longrightarrow> task_id t' = task_id t" "same_request t t' \<Longrightarrow> task_instance_id t' = task_instance_id t"
  "same_request t t' \<Longrightarrow> task_cmd t' = task_cmd t"
  "same_request t t' \<Longrightarrow> task_request_payload t' = task_request_payload t"
  by (simp_all add: same_request_def)

lemma open_preserves:
  assumes inv: "life_inv (is, ts)" and new: "ts tid = None" "idle_in ts iid"
    and i: "inst_id i = iid" "inst_ok i" "inst_status i = pending_status (task_cmd t)"
      "inst_last_task_id i = Some tid"
    and t: "task_id t = tid" "task_instance_id t = iid" "task_stat t = task_queued"
      "revert_ready (task_cmd t) (task_request_payload t)"
  shows "life_inv (is(iid \<mapsto> i), ts(tid \<mapsto> t))"
proof (rule life_invI, goal_cases)
  case (1 k j)
  then show ?case using i life_invD(1,2) [OF inv] by (auto split: if_splits)
next
  case (2 k u)
  then show ?case using t life_invD(3,4,5) [OF inv] by (auto split: if_splits)
next
  case (3 k u)
  show ?case
  proof (cases "k = tid")
    case True
    then show ?thesis using 3 i t by auto
  next
    case False
    then have u: "ts k = Some u" using 3 by simp
    then have "task_instance_id u \<noteq> iid" using new(2) 3(2) by (auto simp: idle_in_def)
    then show ?thesis using life_invD(6) [OF inv u 3(2)] by auto
  qed
next
  case (4 k j)
  show ?case
  proof (cases "k = iid")
    case True
    then show ?thesis using 4 i t by auto
  next
    case False
    then have "is k = Some j" using 4 by simp
    from life_invD(7) [OF inv this 4(2)] show ?thesis using new(1) by force
  qed
qed

lemma progress_preserves:
  assumes inv: "life_inv (is, ts)" and t: "ts tid = Some t" "task_active (task_stat t)"
    "same_request t t'" "task_active (task_stat t')"
  shows "life_inv (is, ts(tid \<mapsto> t'))"
proof (rule life_invI, goal_cases)
  case (1 k j)
  then show ?case using life_invD(1,2) [OF inv] by auto
next
  case (2 k u)
  then show ?case using life_invD(3,4,5) [OF inv] t same_requestD [OF t(3)] by (auto split: if_splits)
next
  case (3 k u)
  show ?case
    using life_invD(6) [OF inv t(1,2)] life_invD(6) [OF inv, of k u] 3 same_requestD [OF t(3)]
    by (cases "k = tid") auto
next
  case (4 k j)
  from life_invD(7) [OF inv this] t same_requestD [OF t(3)] show ?case by force
qed

lemma finish_preserves:
  assumes inv: "life_inv (is, ts)" and t: "ts tid = Some t" "task_active (task_stat t)"
    "same_request t t'" "\<not> task_active (task_stat t')"
    and i: "is (task_instance_id t) = Some i" "same_place i i'" "inst_ok i'" "\<not> is_pending (inst_status i')"
  shows "life_inv (is(task_instance_id t \<mapsto> i'), ts(tid \<mapsto> t'))"
proof (rule life_invI, goal_cases)
  case (1 k j)
  then show ?case using life_invD(1,2) [OF inv] i by (auto simp: same_place_def split: if_splits)
next
  case (2 k u)
  then show ?case using life_invD(3,4,5) [OF inv] t same_requestD [OF t(3)] by (auto split: if_splits)
next
  case (3 k u)
  then have u: "k \<noteq> tid" "ts k = Some u" using t(4) by (auto split: if_splits)
  then have "task_instance_id u \<noteq> task_instance_id t"
    using one_active_task [OF inv t(1) u(2)] t(2) 3(2) by auto
  then show ?case using life_invD(6) [OF inv u(2) 3(2)] by auto
next
  case (4 k j)
  then have k: "k \<noteq> task_instance_id t" "is k = Some j" using i(4) by (auto split: if_splits)
  obtain tid' u where "inst_last_task_id j = Some tid'" "ts tid' = Some u" "task_active (task_stat u)"
      "task_instance_id u = k"
    using life_invD(7) [OF inv k(2) 4(2)] by auto
  then show ?case using k t(1) by (intro exI [of _ tid'] exI [of _ u]) auto
qed

lemma life_step_inv: "life_inv s \<Longrightarrow> life_step s s' \<Longrightarrow> life_inv s'"
proof (cases s)
  case (Pair "is" ts)
  assume inv: "life_inv s" and step: "life_step s s'"
  from step [unfolded Pair] show ?thesis
  proof (cases rule: life_stepE)
    case (open_task tid iid t i)
    then show ?thesis using open_preserves [of "is" ts tid iid i t] inv Pair by simp
  next
    case (progress_task tid t t')
    then show ?thesis using progress_preserves [of "is" ts tid t t'] inv Pair by auto
  next
    case (finish_task tid t t' i i')
    then show ?thesis using finish_preserves [of "is" ts tid t t' i i'] inv Pair
      by (simp add: task_terminal_not_active)
  qed
qed

text \<open>Deleted instances and finished tasks stay as they are; no instance changes place.\<close>

lemma life_step_deleted:
  assumes "life_inv (is, ts)" "life_step (is, ts) (is', ts')" "is k = Some i" "inst_status i = deleted"
  shows "is' k = Some i"
  using assms(2)
proof (cases rule: life_stepE)
  case (open_task tid iid t j)
  then show ?thesis using assms(3,4) by auto
next
  case (progress_task tid t t')
  then show ?thesis using assms(3) by simp
next
  case (finish_task tid t t' j j')
  have "task_instance_id t \<noteq> k"
    using life_invD(6) [OF assms(1) finish_task(2,3)] assms(3,4) by (metis is_pending_pending_status is_pending_simps(9) option.inject)
  then show ?thesis using finish_task assms(3) by auto
qed

lemma life_step_terminal:
  assumes "life_step (is, ts) (is', ts')" "ts k = Some t" "task_terminal (task_stat t)"
  shows "ts' k = Some t"
  using assms by (cases rule: life_stepE) (auto simp: task_terminal_not_active)

lemma life_step_place:
  assumes "life_step (is, ts) (is', ts')" "is k = Some i"
  shows "\<exists>i'. is' k = Some i' \<and> same_place i i'"
  using assms by (cases rule: life_stepE) (auto simp: same_place_def)


interpretation life: invariant_system life_step "\<lambda>s. s = (Map.empty, Map.empty)" life_inv
proof (unfold_locales, goal_cases)
  case (1 s)
  then show ?case by (simp add: life_inv_def)
next
  case (2 s s')
  then show ?case by (rule life_step_inv)
qed

end
