(* ===== verification/Task_Repo.thy ===== *)
theory Task_Repo
  imports Instance_Repo
begin

text \<open>
  \<^verbatim>\<open>adapters/postgres_repositories/task.py\<close>: the task table.  The four status updates
  \<^verbatim>\<open>mark_running\<close>, \<^verbatim>\<open>mark_cancel_pending\<close>, \<^verbatim>\<open>mark_canceled\<close> and
  \<^verbatim>\<open>mark_terminal\<close> are one definition each; \<open>task_update\<close> names them for the contract
  \<open>task_repository\<close>, which the table meets (interpretation \<open>pg_task\<close>).
\<close>

definition task_not_found :: "uuid \<Rightarrow> error" where
  "task_not_found tid = NotFoundError (''task '' @ uuid_str tid @ '' not found'')"

definition has_active_task :: "uuid \<Rightarrow> bool db_act" where
  "has_active_task iid = getsM (\<lambda>d. \<exists>t \<in> set (instance_tasks d).
     task_instance_id t = iid \<and> task_stat t \<in> {task_queued, task_running, cancel_pending})"

definition create_task :: "instance_task \<Rightarrow> instance_task db_act" where
  "create_task t =
     bindM (sql_insert instance_tasks_update task_violates
       (instance_task.extend t (instance_task_model.fields None None None)))
       (\<lambda>m. returnM (to_task m))"

definition task_get :: "uuid \<Rightarrow> instance_task option db_act" where
  "task_get tid =
     bindM (sql_scalar instance_tasks (\<lambda>r. task_id r = tid)) (\<lambda>m. returnM (map_option to_task m))"

definition task_get_tenant_id :: "uuid \<Rightarrow> uuid option db_act" where
  "task_get_tenant_id tid = getsM (\<lambda>d.
     case [im_tenant_id i. t \<leftarrow> instance_tasks d, task_id t = tid,
             i \<leftarrow> instances d, im_id i = task_instance_id t] of
       [] \<Rightarrow> None | tenant # _ \<Rightarrow> Some tenant)"

definition task_get_for_update :: "uuid \<Rightarrow> instance_task option db_act" where
  "task_get_for_update tid =
     bindM (sql_scalar instance_tasks (\<lambda>r. task_id r = tid)) (\<lambda>m. returnM (map_option to_task m))"

definition coalesce :: "'a option \<Rightarrow> 'a option \<Rightarrow> 'a option" where
  "coalesce a b = (case a of Some x \<Rightarrow> Some x | None \<Rightarrow> b)"

definition update_task ::
  "uuid \<Rightarrow> (instance_task_model \<Rightarrow> instance_task_model) \<Rightarrow> instance_task db_act" where
  "update_task tid f =
     sql_update_one instance_tasks instance_tasks_update (\<lambda>r. task_id r = tid) f to_task
       (task_not_found tid)"

definition mark_running :: "timestamp \<Rightarrow> uuid \<Rightarrow> int \<Rightarrow> instance_task db_act" where
  "mark_running now tid attempts =
     bindM (guardM (int4 attempts) (DataError ''integer out of range'')) (\<lambda>_.
     update_task tid (\<lambda>r. r\<lparr>task_stat := task_running, task_attempt_count := attempts,
       task_started_at := coalesce (task_started_at r) (Some now), task_updated_at := now\<rparr>))"

definition mark_cancel_pending ::
  "timestamp \<Rightarrow> uuid \<Rightarrow> uuid option \<Rightarrow> string option \<Rightarrow> instance_task db_act" where
  "mark_cancel_pending now tid by_user reason =
     update_task tid (\<lambda>r. r\<lparr>task_stat := cancel_pending,
       tm_canceled_by := coalesce by_user (tm_canceled_by r),
       tm_cancel_reason := coalesce reason (tm_cancel_reason r), task_updated_at := now\<rparr>)"

definition mark_canceled ::
  "timestamp \<Rightarrow> uuid \<Rightarrow> int \<Rightarrow> uuid option \<Rightarrow> string option \<Rightarrow> json \<Rightarrow> json \<Rightarrow> json
     \<Rightarrow> instance_task db_act" where
  "mark_canceled now tid attempts by_user reason result code msg =
     bindM (guardM (int4 attempts) (DataError ''integer out of range'')) (\<lambda>_.
     bindM (liftM (bind_text code)) (\<lambda>code_text.
     bindM (liftM (bind_text msg)) (\<lambda>msg_text.
     update_task tid (\<lambda>r. r\<lparr>task_stat := canceled, task_attempt_count := attempts,
       task_result_payload := result, task_error_code := code_text,
       task_error_message := msg_text,
       tm_canceled_by := coalesce by_user (tm_canceled_by r),
       tm_cancel_reason := coalesce reason (tm_cancel_reason r),
       task_finished_at := Some now, task_updated_at := now\<rparr>))))"

definition mark_terminal ::
  "timestamp \<Rightarrow> uuid \<Rightarrow> task_status \<Rightarrow> int \<Rightarrow> json \<Rightarrow> json \<Rightarrow> json \<Rightarrow> instance_task db_act" where
  "mark_terminal now tid st attempts result code msg =
     bindM (guardM (int4 attempts) (DataError ''integer out of range'')) (\<lambda>_.
     bindM (liftM (bind_text code)) (\<lambda>code_text.
     bindM (liftM (bind_text msg)) (\<lambda>msg_text.
     update_task tid (\<lambda>r. r\<lparr>task_stat := st, task_attempt_count := attempts,
       task_result_payload := result, task_error_code := code_text,
       task_error_message := msg_text, task_finished_at := Some now, task_updated_at := now\<rparr>))))"

definition clone_for_retry ::
  "instance_task \<Rightarrow> uuid \<Rightarrow> uuid \<Rightarrow> timestamp \<Rightarrow> instance_task db_act" where
  "clone_for_retry source new_tid new_rid created =
     bindM (sql_insert instance_tasks_update task_violates
       \<lparr>task_id = new_tid, task_instance_id = task_instance_id source, task_cmd = task_cmd source,
        task_stat = task_queued, task_request_id = new_rid,
        task_request_payload = task_request_payload source, task_result_payload = JNull,
        task_error_code = None, task_error_message = None, task_attempt_count = 0,
        task_max_attempts = task_max_attempts source, task_created_at = created,
        task_started_at = None, task_finished_at = None, task_updated_at = created,
        tm_retry_of_task_id = Some (task_id source), tm_canceled_by = None,
        tm_cancel_reason = None\<rparr>)
       (\<lambda>m. returnM (to_task m))"

section \<open>The tasks of a database as a map\<close>

definition task_at :: "db \<Rightarrow> uuid \<Rightarrow> instance_task option" where
  "task_at d tid = map_option to_task (row_of task_id tid (instance_tasks d))"

lemma task_at_id: "task_at d tid = Some t \<Longrightarrow> task_id t = tid"
  by (auto simp: task_at_def dest: row_of_SomeD)

lemma task_get_for_update_run [act_simps]:
  "task_get_for_update tid d = (Inr (task_at d tid), d)"
  by (simp add: task_get_for_update_def bindM_sql_run find_key task_at_def)

lemma bindM_task_get [act_simps]:
  "bindM (task_get_for_update tid) f d = f (task_at d tid) d"
  by (simp add: bindM_def task_get_for_update_run)

lemma bindM_has_active [act_simps]:
  "bindM (has_active_task iid) f d = f (fst (has_active_task iid d) = Inr True) d"
  by (simp add: has_active_task_def bindM_def)

definition only_tasks :: "db \<Rightarrow> db \<Rightarrow> bool" where
  "only_tasks d d' \<longleftrightarrow> (\<exists>f. d' = d\<lparr>instance_tasks := update_where (\<lambda>r. True) f (instance_tasks d)\<rparr> \<and>
     (\<forall>r. task_id (f r) = task_id r \<and> task_request_id (f r) = task_request_id r))"

lemma only_tasks_frame:
  "only_tasks d d' \<Longrightarrow> tenants d' = tenants d \<and> tenant_quotas d' = tenant_quotas d \<and>
     resource_capacity d' = resource_capacity d \<and> instances d' = instances d \<and>
     command_outbox d' = command_outbox d \<and> users d' = users d \<and>
     refresh_tokens d' = refresh_tokens d \<and> audit_logs d' = audit_logs d \<and>
     map task_id (instance_tasks d') = map task_id (instance_tasks d) \<and>
     map task_request_id (instance_tasks d') = map task_request_id (instance_tasks d)"
  by (auto simp: only_tasks_def map_update_where_key)

lemma only_tasksI:
  assumes "\<And>r. task_id (f r) = task_id r" "\<And>r. task_request_id (f r) = task_request_id r"
  shows "only_tasks d (instance_tasks_update (update_where p f) d)"
  unfolding only_tasks_def
  by (rule exI [of _ "\<lambda>r. if p r then f r else r"]) (simp add: assms update_where_def)

lemma update_task_run:
  assumes "\<And>r. task_id (f r) = task_id r"
  shows "update_task tid f d =
    (case row_of task_id tid (instance_tasks d) of
       None \<Rightarrow> (Inl (task_not_found tid), d)
     | Some r \<Rightarrow> (Inr (to_task (f r)), instance_tasks_update (update_where (\<lambda>r. task_id r = tid) f) d))"
  by (auto simp: update_task_def task_t.update_one_run update_where_missing split: option.splits)

definition keeps_request :: "(instance_task_model \<Rightarrow> instance_task_model) \<Rightarrow> bool" where
  "keeps_request f \<longleftrightarrow> (\<forall>r. same_request (to_task r) (to_task (f r)))"

lemma keeps_request_id: "keeps_request f \<Longrightarrow> task_id (f r) = task_id r"
  "keeps_request f \<Longrightarrow> task_request_id (f r) = task_request_id r"
  by (simp_all add: keeps_request_def same_request_def)

lemma update_task_contract:
  assumes "keeps_request f" "update_task tid f d = (Inr t, d')"
  shows "task_at d' = (task_at d)(tid \<mapsto> t) \<and> only_tasks d d' \<and>
    (\<exists>t0. task_at d tid = Some t0 \<and> same_request t0 t) \<and>
    (\<exists>r. row_of task_id tid (instance_tasks d) = Some r \<and> t = to_task (f r))"
  using assms
  by (auto simp: update_task_run keeps_request_id task_at_def fun_eq_iff row_of_update_where
      only_tasksI keeps_request_def split: option.splits)

datatype task_update =
    MarkRunning int
  | MarkCancelPending "uuid option" "string option"
  | MarkCanceled int "uuid option" "string option" json json json
  | MarkTerminal task_status int json json json

fun apply_task_update :: "timestamp \<Rightarrow> task_update \<Rightarrow> uuid \<Rightarrow> instance_task db_act" where
  "apply_task_update now (MarkRunning n) tid = mark_running now tid n"
| "apply_task_update now (MarkCancelPending u r) tid = mark_cancel_pending now tid u r"
| "apply_task_update now (MarkCanceled n u r res code msg) tid =
     mark_canceled now tid n u r res code msg"
| "apply_task_update now (MarkTerminal st n res code msg) tid = mark_terminal now tid st n res code msg"

fun updated_status :: "task_update \<Rightarrow> task_status" where
  "updated_status (MarkRunning _) = task_running"
| "updated_status (MarkCancelPending _ _) = cancel_pending"
| "updated_status (MarkCanceled _ _ _ _ _ _) = canceled"
| "updated_status (MarkTerminal st _ _ _ _) = st"

lemmas mark_defs = mark_running_def mark_cancel_pending_def mark_canceled_def mark_terminal_def

lemma update_formI:
  "update_task tid f d = (Inr t, d') \<Longrightarrow> keeps_request f \<Longrightarrow> (\<And>r. task_stat (f r) = st) \<Longrightarrow>
   \<exists>f. keeps_request f \<and> (\<forall>r. task_stat (f r) = st) \<and> update_task tid f d = (Inr t, d')"
  by blast

lemma apply_task_update_form:
  assumes "apply_task_update now op tid d = (Inr t, d')"
  shows "\<exists>f. keeps_request f \<and> (\<forall>r. task_stat (f r) = updated_status op) \<and>
    update_task tid f d = (Inr t, d')"
  using assms
  apply (cases op)
     apply (simp_all add: mark_defs split: if_splits)
     apply ((elim conjE exE)?, erule update_formI, simp add: keeps_request_def same_request_def, simp)+
  done

interpretation pg_task: task_repository task_at "apply_task_update now" updated_status only_tasks
  for now
proof (unfold_locales, goal_cases)
  case (1 op tid s t s')
  then obtain f where f: "keeps_request f" "\<forall>r. task_stat (f r) = updated_status op"
      "update_task tid f s = (Inr t, s')"
    using apply_task_update_form by blast
  with update_task_contract [OF f(1,3)] show ?case by auto
next
  case (2 op tid s e s')
  then show ?case
    by (cases op) (auto simp: mark_defs bindM_Inl_iff update_task_def task_t.update_one_run
        update_where_missing split: option.splits if_splits)
qed

end
