(* ===== verification/Outbox.thy ===== *)
theory Outbox
  imports Ports
begin

text \<open>
  \<^verbatim>\<open>adapters/postgres_repositories/outbox.py\<close>: the transactional outbox.  A command is
  enqueued in the transaction that changes the instance; the relay later claims a batch,
  publishes it and records the outcome.  The \<^verbatim>\<open>pg_notify\<close> sent with an enqueued row has no
  reader in this program and is not modelled, nor are the row locks of
  \<^verbatim>\<open>SKIP LOCKED\<close> (one transaction runs at a time).
\<close>

definition outbox_not_found :: "uuid \<Rightarrow> error" where
  "outbox_not_found mid = NotFoundError (''outbox message '' @ uuid_str mid @ '' not found'')"

definition same_command :: "uuid \<Rightarrow> string \<Rightarrow> uuid \<Rightarrow> outbox_message \<Rightarrow> bool" where
  \<comment> \<open>the columns of the unique index the upsert names\<close>
  "same_command tid topic rid r \<longleftrightarrow> ob_task_id r = tid \<and> ob_topic r = topic \<and> ob_request_id r = rid"

definition new_outbox_row ::
  "uuid \<Rightarrow> timestamp \<Rightarrow> string \<Rightarrow> dict \<Rightarrow> uuid \<Rightarrow> uuid \<Rightarrow> int \<Rightarrow> outbox_message" where
  "new_outbox_row new_id now topic payload tid rid attempts =
     \<lparr>ob_id = new_id, ob_topic = topic, ob_task_id = tid, ob_request_id = rid,
      ob_payload = payload, ob_status = ob_queued, ob_attempt_count = 0,
      ob_max_attempts = max 1 attempts, ob_next_attempt_at = now, ob_locked_by = None,
      ob_lock_expires_at = None, ob_last_error = None, ob_sent_at = None, ob_created_at = now,
      ob_updated_at = now\<rparr>"

definition enqueue_command ::
  "uuid \<Rightarrow> timestamp \<Rightarrow> string \<Rightarrow> dict \<Rightarrow> uuid \<Rightarrow> uuid \<Rightarrow> int \<Rightarrow> outbox_message db_act" where
  "enqueue_command new_id now topic payload tid rid attempts =
     bindM (guardM (int4 (max 1 attempts)) (DataError ''integer out of range'')) (\<lambda>_.
     bindM (sql_update command_outbox command_outbox_update (same_command tid topic rid)
              (\<lambda>r. r\<lparr>ob_updated_at := now\<rparr>)) (\<lambda>ms.
       case ms of
         [] \<Rightarrow> sql_insert command_outbox_update outbox_violates
                 (new_outbox_row new_id now topic payload tid rid attempts)
       | m # _ \<Rightarrow> returnM m))"

definition claimable :: "timestamp \<Rightarrow> outbox_message \<Rightarrow> bool" where
  "claimable now r \<longleftrightarrow> ob_status r = ob_queued \<and> ob_next_attempt_at r \<le> now"

definition picked :: "timestamp \<Rightarrow> int \<Rightarrow> outbox_message list \<Rightarrow> uuid list" where
  \<comment> \<open>the CTE: the oldest due rows, at most \<^verbatim>\<open>max(1, int(limit))\<close> of them\<close>
  "picked now limit rs =
     map ob_id (take (nat (max 1 limit)) (sort_key ob_created_at (filter (claimable now) rs)))"

definition claimed_row :: "timestamp \<Rightarrow> string \<Rightarrow> int \<Rightarrow> outbox_message \<Rightarrow> outbox_message" where
  "claimed_row now locker lock_timeout r = r\<lparr>ob_status := publishing, ob_locked_by := Some locker,
     ob_lock_expires_at := Some (now + seconds (max 1 lock_timeout)), ob_updated_at := now\<rparr>"

definition claim_batch :: "timestamp \<Rightarrow> string \<Rightarrow> int \<Rightarrow> int \<Rightarrow> outbox_message list db_act" where
  "claim_batch now locker limit lock_timeout =
     bindM (getsM (\<lambda>d. picked now limit (command_outbox d))) (\<lambda>ids.
     sql_update command_outbox command_outbox_update (\<lambda>r. ob_id r \<in> set ids)
       (claimed_row now locker lock_timeout))"

definition ob_mark_sent :: "timestamp \<Rightarrow> uuid \<Rightarrow> outbox_message db_act" where
  "ob_mark_sent now mid =
     sql_update_one command_outbox command_outbox_update (\<lambda>r. ob_id r = mid)
       (\<lambda>r. r\<lparr>ob_status := sent, ob_sent_at := Some now, ob_locked_by := None,
          ob_lock_expires_at := None, ob_last_error := None, ob_updated_at := now\<rparr>)
       id (outbox_not_found mid)"

text \<open>\<^verbatim>\<open>attempt_count + 1\<close> is evaluated by the database in an INTEGER column.\<close>

definition can_count_attempt :: "uuid \<Rightarrow> db \<Rightarrow> bool" where
  "can_count_attempt mid d \<longleftrightarrow>
     list_all (\<lambda>r. ob_id r = mid \<longrightarrow> int4 (ob_attempt_count r + 1)) (command_outbox d)"

definition ob_mark_retry :: "timestamp \<Rightarrow> uuid \<Rightarrow> int \<Rightarrow> string option \<Rightarrow> outbox_message db_act" where
  "ob_mark_retry now mid delay msg =
     bindM (getsM (can_count_attempt mid)) (\<lambda>ok.
     bindM (guardM ok (DataError ''integer out of range'')) (\<lambda>_.
     sql_update_one command_outbox command_outbox_update (\<lambda>r. ob_id r = mid)
       (\<lambda>r. r\<lparr>ob_status := ob_queued, ob_attempt_count := ob_attempt_count r + 1,
          ob_next_attempt_at := now + seconds (max 1 delay), ob_locked_by := None,
          ob_lock_expires_at := None, ob_last_error := msg, ob_updated_at := now\<rparr>)
       id (outbox_not_found mid)))"

definition ob_mark_failed :: "timestamp \<Rightarrow> uuid \<Rightarrow> string option \<Rightarrow> outbox_message db_act" where
  "ob_mark_failed now mid msg =
     bindM (getsM (can_count_attempt mid)) (\<lambda>ok.
     bindM (guardM ok (DataError ''integer out of range'')) (\<lambda>_.
     sql_update_one command_outbox command_outbox_update (\<lambda>r. ob_id r = mid)
       (\<lambda>r. r\<lparr>ob_status := ob_failed, ob_attempt_count := ob_attempt_count r + 1,
          ob_locked_by := None, ob_lock_expires_at := None, ob_last_error := msg,
          ob_updated_at := now\<rparr>)
       id (outbox_not_found mid)))"

definition stuck :: "timestamp \<Rightarrow> outbox_message \<Rightarrow> bool" where
  "stuck now r \<longleftrightarrow> ob_status r = publishing \<and>
     (case ob_lock_expires_at r of None \<Rightarrow> False | Some t \<Rightarrow> t < now)"

definition recovered_row :: "timestamp \<Rightarrow> outbox_message \<Rightarrow> outbox_message" where
  "recovered_row now r = r\<lparr>ob_status := ob_queued, ob_locked_by := None, ob_lock_expires_at := None,
     ob_next_attempt_at := now, ob_updated_at := now\<rparr>"

definition recover_stuck_publishing :: "timestamp \<Rightarrow> int db_act" where
  "recover_stuck_publishing now =
     bindM (sql_update command_outbox command_outbox_update (stuck now) (recovered_row now))
       (\<lambda>rows. returnM (int (length rows)))"

section \<open>The outbox as a map\<close>

definition outbox_at :: "db \<Rightarrow> uuid \<Rightarrow> outbox_message option" where
  "outbox_at d mid = row_of ob_id mid (command_outbox d)"

lemma outbox_at_id: "outbox_at d mid = Some m \<Longrightarrow> ob_id m = mid"
  by (auto simp: outbox_at_def dest: row_of_SomeD)

lemma outbox_update_one_run [act_simps]:
  "sql_update_one command_outbox command_outbox_update (\<lambda>r. ob_id r = mid) f id
      (outbox_not_found mid) d =
    (case outbox_at d mid of
       None \<Rightarrow> (Inl (outbox_not_found mid), d)
     | Some r \<Rightarrow> (Inr (f r), command_outbox_update (update_where (\<lambda>r. ob_id r = mid) f) d))"
  by (simp add: ob_t.update_one_run outbox_at_def split: option.splits)

section \<open>What a row of the outbox looks like\<close>

text \<open>
  The status of a row determines its lock and bounds its attempts: a row that can still be
  published has attempts left, only a failed row has used them up, and exactly the rows of a
  relay are locked.
\<close>

definition outbox_row_ok :: "outbox_message \<Rightarrow> bool" where
  "outbox_row_ok r \<longleftrightarrow>
     0 \<le> ob_attempt_count r \<and> int4 (ob_max_attempts r) \<and>
     (if ob_status r = ob_failed then ob_attempt_count r = ob_max_attempts r
      else ob_attempt_count r < ob_max_attempts r) \<and>
     (ob_status r = publishing \<longleftrightarrow> ob_locked_by r \<noteq> None) \<and>
     (ob_locked_by r = None \<longleftrightarrow> ob_lock_expires_at r = None) \<and>
     (ob_status r = sent \<longrightarrow> ob_sent_at r \<noteq> None)"

definition command_key :: "outbox_message \<Rightarrow> uuid \<times> string \<times> uuid" where
  "command_key r = (ob_task_id r, ob_topic r, ob_request_id r)"

definition outbox_inv :: "db \<Rightarrow> bool" where
  "outbox_inv d \<longleftrightarrow> distinct (map ob_id (command_outbox d)) \<and>
     distinct (map command_key (command_outbox d)) \<and> (\<forall>r \<in> set (command_outbox d). outbox_row_ok r)"

definition only_outbox :: "db \<Rightarrow> db \<Rightarrow> bool" where
  "only_outbox d d' \<longleftrightarrow> (\<exists>rs. d' = d\<lparr>command_outbox := rs\<rparr>)"

lemma only_outbox_refl [simp]: "only_outbox d d"
  unfolding only_outbox_def by (rule exI [of _ "command_outbox d"]) simp

lemma only_outbox_upd [simp]: "only_outbox d (command_outbox_update f d)"
  by (auto simp: only_outbox_def intro!: exI [of _ "f (command_outbox d)"])

lemma only_outbox_frame:
  "only_outbox d d' \<Longrightarrow> tenants d' = tenants d \<and> tenant_quotas d' = tenant_quotas d \<and>
     resource_capacity d' = resource_capacity d \<and> instances d' = instances d \<and>
     instance_tasks d' = instance_tasks d \<and> users d' = users d \<and>
     refresh_tokens d' = refresh_tokens d \<and> audit_logs d' = audit_logs d"
  by (auto simp: only_outbox_def)

text \<open>A change of statuses only: the same messages, and nothing else touched.\<close>

definition same_messages :: "db \<Rightarrow> db \<Rightarrow> bool" where
  "same_messages d d' \<longleftrightarrow> only_outbox d d' \<and>
     map command_key (command_outbox d') = map command_key (command_outbox d)"

lemma same_messages_refl [simp]: "same_messages d d"
  by (simp add: same_messages_def)

lemma same_messages_trans: "same_messages d d1 \<Longrightarrow> same_messages d1 d2 \<Longrightarrow> same_messages d d2"
  by (auto simp: same_messages_def only_outbox_def)

lemma same_messages_update:
  "(\<And>r. command_key (f r) = command_key r) \<Longrightarrow> same_messages d (command_outbox_update (update_where p f) d)"
  by (simp add: same_messages_def map_update_where_key)

lemma outbox_inv_update:
  assumes "outbox_inv d" "\<And>r. ob_id (f r) = ob_id r" "\<And>r. command_key (f r) = command_key r"
    and "\<And>r. r \<in> set (command_outbox d) \<Longrightarrow> p r \<Longrightarrow> outbox_row_ok r \<Longrightarrow> outbox_row_ok (f r)"
  shows "outbox_inv (command_outbox_update (update_where p f) d)"
  using assms by (auto simp: outbox_inv_def map_update_where_key set_update_where)

lemma outbox_inv_rowD: "outbox_inv d \<Longrightarrow> outbox_at d mid = Some r \<Longrightarrow> outbox_row_ok r"
  by (auto simp: outbox_inv_def outbox_at_def dest: row_of_SomeD)

interpretation ob_cmd_t: sql_table command_outbox command_outbox_update command_key
  by unfold_locales (simp, case_tac s, simp)

lemma same_command_key: "same_command tid topic rid r \<longleftrightarrow> command_key r = (tid, topic, rid)"
  by (auto simp: same_command_def command_key_def)

lemma enqueue_command_run:
  "enqueue_command new_id now topic payload tid rid k d = (Inr m, d') \<longleftrightarrow>
     int4 (max 1 k) \<and>
     (case row_of command_key (tid, topic, rid) (command_outbox d) of
        Some r \<Rightarrow> m = r\<lparr>ob_updated_at := now\<rparr> \<and>
          d' = command_outbox_update
            (update_where (same_command tid topic rid) (\<lambda>r. r\<lparr>ob_updated_at := now\<rparr>)) d
      | None \<Rightarrow> m = new_outbox_row new_id now topic payload tid rid k \<and>
          outbox_at d new_id = None \<and> d' = command_outbox_update (\<lambda>rs. rs @ [m]) d)"
proof -
  have key: "same_command tid topic rid = (\<lambda>r. command_key r = (tid, topic, rid))"
    by (auto simp: same_command_key)
  let ?f = "\<lambda>r. r\<lparr>ob_updated_at := now\<rparr>"
  have first: "(case map ?f (filter (\<lambda>r. command_key r = (tid, topic, rid)) (command_outbox d)) of
      [] \<Rightarrow> a | m # _ \<Rightarrow> b m) =
     (case row_of command_key (tid, topic, rid) (command_outbox d) of None \<Rightarrow> a | Some r \<Rightarrow> b (?f r))" for a b
    by (rule first_updated_row)
  show ?thesis
  proof (cases "row_of command_key (tid, topic, rid) (command_outbox d)")
    case None
    then have "filter (\<lambda>r. command_key r = (tid, topic, rid)) (command_outbox d) = []"
      by (auto simp: row_of_None_iff filter_empty_conv image_iff)
    moreover have "command_outbox_update (update_where (\<lambda>r. command_key r = (tid, topic, rid)) ?f) d = d"
      using None by (rule ob_cmd_t.update_missing)
    ultimately show ?thesis using None
      by (auto simp: enqueue_command_def bindM_run bindM_sql_run key sql_insert_def
          outbox_violates_def exists_row_def outbox_at_def new_outbox_row_def int4_def
          split: option.splits)
  next
    case (Some r)
    then obtain rest where "map ?f (filter (\<lambda>r. command_key r = (tid, topic, rid)) (command_outbox d)) =
        ?f r # rest"
      using first [of "[]" "\<lambda>m. [m]"]
      by (cases "filter (\<lambda>r. command_key r = (tid, topic, rid)) (command_outbox d)") auto
    with Some show ?thesis
      by (auto simp: enqueue_command_def bindM_run bindM_sql_run key)
  qed
qed


lemma command_key_simps [simp]:
  "command_key (r\<lparr>ob_updated_at := a\<rparr>) = command_key r"
  "command_key (r\<lparr>ob_status := st\<rparr>) = command_key r"
  "command_key (r\<lparr>ob_attempt_count := n\<rparr>) = command_key r"
  "command_key (r\<lparr>ob_next_attempt_at := t\<rparr>) = command_key r"
  "command_key (r\<lparr>ob_locked_by := l\<rparr>) = command_key r"
  "command_key (r\<lparr>ob_lock_expires_at := e\<rparr>) = command_key r"
  "command_key (r\<lparr>ob_last_error := x\<rparr>) = command_key r"
  "command_key (r\<lparr>ob_sent_at := e\<rparr>) = command_key r"
  by (simp_all add: command_key_def)

lemma ob_id_new [simp]: "ob_id (new_outbox_row new_id now topic payload tid rid k) = new_id"
  by (simp add: new_outbox_row_def)

lemma command_key_new [simp]:
  "command_key (new_outbox_row new_id now topic payload tid rid k) = (tid, topic, rid)"
  by (simp add: command_key_def new_outbox_row_def)

lemma new_outbox_row_ok: "int4 (max 1 k) \<Longrightarrow> outbox_row_ok (new_outbox_row new_id now topic payload tid rid k)"
  by (simp add: outbox_row_ok_def new_outbox_row_def)

lemma enqueue_preserves_inv:
  assumes "outbox_inv d" "enqueue_command new_id now topic payload tid rid k d = (Inr m, d')"
  shows "outbox_inv d'"
proof (cases "row_of command_key (tid, topic, rid) (command_outbox d)")
  case None
  then have d': "d' = command_outbox_update (\<lambda>rs. rs @ [new_outbox_row new_id now topic payload tid rid k]) d"
    and "int4 (max 1 k)" and "outbox_at d new_id = None"
    using assms(2) by (auto simp: enqueue_command_run)
  then show ?thesis
    using assms(1) None new_outbox_row_ok [of k new_id now topic payload tid rid]
    by (auto simp: outbox_inv_def outbox_at_def row_of_None_iff)
next
  case (Some r)
  then have "d' = command_outbox_update
      (update_where (same_command tid topic rid) (\<lambda>r. r\<lparr>ob_updated_at := now\<rparr>)) d"
    using assms(2) by (auto simp: enqueue_command_run)
  then show ?thesis
    by (auto intro!: outbox_inv_update [OF assms(1)] simp: outbox_row_ok_def)
qed

lemma enqueue_only_outbox:
  "enqueue_command new_id now topic payload tid rid k d = (Inr m, d') \<Longrightarrow> only_outbox d d'"
  by (auto simp: enqueue_command_run split: option.splits)

lemma enqueue_keeps_old_rows:
  assumes "enqueue_command new_id now topic payload tid rid k d = (Inr m, d')" "outbox_at d mid = Some r"
  shows "\<exists>t. outbox_at d' mid = Some (r\<lparr>ob_updated_at := t\<rparr>)"
proof (cases "row_of command_key (tid, topic, rid) (command_outbox d)")
  case None
  then show ?thesis using assms
    by (auto simp: enqueue_command_run outbox_at_def row_of_append intro: exI [of _ "ob_updated_at r"])
next
  case (Some r')
  have "row_of ob_id mid (update_where (same_command tid topic rid) (\<lambda>r. r\<lparr>ob_updated_at := now\<rparr>) rs) =
      map_option (\<lambda>r. if same_command tid topic rid r then r\<lparr>ob_updated_at := now\<rparr> else r)
        (row_of ob_id mid rs)" for rs
    by (induction rs) auto
  with Some show ?thesis using assms
    by (cases "same_command tid topic rid r")
       (auto simp: enqueue_command_run outbox_at_def intro: exI [of _ "ob_updated_at r"])
qed

text \<open>A claim takes the oldest due rows.\<close>

lemma claimed_row_sel [simp]:
  "ob_id (claimed_row now locker lt r) = ob_id r"
  "command_key (claimed_row now locker lt r) = command_key r"
  "ob_status (claimed_row now locker lt r) = publishing"
  "ob_locked_by (claimed_row now locker lt r) = Some locker"
  "ob_lock_expires_at (claimed_row now locker lt r) = Some (now + seconds (max 1 lt))"
  "ob_attempt_count (claimed_row now locker lt r) = ob_attempt_count r"
  "ob_max_attempts (claimed_row now locker lt r) = ob_max_attempts r"
  "ob_payload (claimed_row now locker lt r) = ob_payload r"
  "ob_created_at (claimed_row now locker lt r) = ob_created_at r"
  by (simp_all add: claimed_row_def)

lemma recovered_row_sel [simp]:
  "ob_id (recovered_row now r) = ob_id r"
  "command_key (recovered_row now r) = command_key r"
  "ob_status (recovered_row now r) = ob_queued"
  "ob_locked_by (recovered_row now r) = None"
  "ob_lock_expires_at (recovered_row now r) = None"
  "ob_attempt_count (recovered_row now r) = ob_attempt_count r"
  "ob_max_attempts (recovered_row now r) = ob_max_attempts r"
  by (simp_all add: recovered_row_def)

lemma claimed_row_ok: "claimable now r \<Longrightarrow> outbox_row_ok r \<Longrightarrow> outbox_row_ok (claimed_row now locker lt r)"
  by (simp add: outbox_row_ok_def claimable_def)

lemma recovered_row_ok: "stuck now' r \<Longrightarrow> outbox_row_ok r \<Longrightarrow> outbox_row_ok (recovered_row now r)"
  by (simp add: outbox_row_ok_def stuck_def)

lemma claim_batch_run:
  "claim_batch now locker limit lock_timeout d =
     (let ids = picked now limit (command_outbox d); f = claimed_row now locker lock_timeout
      in (Inr (map f (filter (\<lambda>r. ob_id r \<in> set ids) (command_outbox d))),
          command_outbox_update (update_where (\<lambda>r. ob_id r \<in> set ids) f) d))"
  by (simp add: claim_batch_def bindM_run sql_update_def Let_def)

lemma picked_subset: "set (picked now limit rs) \<subseteq> ob_id ` {r \<in> set rs. claimable now r}"
  using set_take_subset [of "nat (max 1 limit)" "sort_key ob_created_at (filter (claimable now) rs)"]
  by (auto simp: picked_def)

lemma picked_claimable:
  assumes "distinct (map ob_id rs)" "r \<in> set rs" "ob_id r \<in> set (picked now limit rs)"
  shows "claimable now r"
proof -
  obtain r' where "r' \<in> set rs" "claimable now r'" "ob_id r' = ob_id r"
    using assms(3) picked_subset [of now limit rs] by auto
  then have "r' = r" using assms(1,2) by (auto simp: distinct_map inj_on_def)
  then show ?thesis using \<open>claimable now r'\<close> by simp
qed

lemma length_filter_ids:
  "distinct (map key rs) \<Longrightarrow> length (filter (\<lambda>r. key r \<in> set ids) rs) \<le> length ids"
proof -
  assume d: "distinct (map key rs)"
  have "length (filter (\<lambda>r. key r \<in> set ids) rs) = card (key ` set (filter (\<lambda>r. key r \<in> set ids) rs))"
    using d by (metis distinct_card distinct_map_filter length_map set_map)
  also have "\<dots> \<le> card (set ids)" by (rule card_mono) auto
  also have "\<dots> \<le> length ids" by (rule card_length)
  finally show ?thesis .
qed

lemma length_picked: "length (picked now limit rs) \<le> nat (max 1 limit)"
  by (simp add: picked_def)

lemma picked_nonempty:
  assumes "r \<in> set rs" "claimable now r"
  shows "picked now limit rs \<noteq> []"
proof -
  have "sort_key ob_created_at (filter (claimable now) rs) \<noteq> []"
  proof
    assume "sort_key ob_created_at (filter (claimable now) rs) = []"
    then have "set (sort_key ob_created_at (filter (claimable now) rs)) = {}" by (simp only: list.set)
    then show False using assms unfolding set_sort by auto
  qed
  then show ?thesis by (simp add: picked_def)
qed

lemma picked_oldest:
  assumes "distinct (map ob_id rs)" "r \<in> set rs" "claimable now r" "ob_id r \<notin> set (picked now limit rs)"
    and "r' \<in> set rs" "ob_id r' \<in> set (picked now limit rs)"
  shows "ob_created_at r' \<le> ob_created_at r"
proof -
  let ?n = "nat (max 1 limit)"
  let ?s = "sort_key ob_created_at (filter (claimable now) rs)"
  have inj: "inj_on ob_id (set rs)" using assms(1) by (simp add: distinct_map)
  have "r \<in> set ?s" using assms by simp
  then have "r \<in> set (take ?n ?s) \<or> r \<in> set (drop ?n ?s)"
    by (metis append_take_drop_id Un_iff set_append)
  then have "r \<in> set (drop ?n ?s)" using assms(4) by (auto simp: picked_def)
  moreover obtain q where q: "q \<in> set (take ?n ?s)" "ob_id q = ob_id r'"
    using assms(6) by (auto simp: picked_def)
  have "q \<in> set rs" using set_take_subset [of ?n ?s] q(1) by auto
  then have "q = r'" using q(2) inj assms(5) by (auto dest: inj_onD)
  ultimately have r: "r' \<in> set (take ?n ?s)" "r \<in> set (drop ?n ?s)" using q by simp_all
  have "sorted (map ob_created_at (take ?n ?s) @ map ob_created_at (drop ?n ?s))"
    unfolding map_append [symmetric] append_take_drop_id by (rule sorted_sort_key)
  then have "\<forall>x \<in> set (map ob_created_at (take ?n ?s)). \<forall>y \<in> set (map ob_created_at (drop ?n ?s)). x \<le> y"
    unfolding sorted_append by blast
  then show ?thesis using imageI [OF r(1), of ob_created_at] imageI [OF r(2), of ob_created_at]
    unfolding set_map by blast
qed

text \<open>
  A claim hands out at most \<^verbatim>\<open>max(1, limit)\<close> messages, each of which was queued
  and due and is now locked by the claimer until the timeout, and no due message left behind is
  older than one handed out.
\<close>

theorem claim_batch_oldest_due:
  assumes "outbox_inv d" "claim_batch now locker limit lock_timeout d = (Inr ms, d')"
  shows "int (length ms) \<le> max 1 limit \<and> outbox_inv d' \<and>
    (\<forall>m \<in> set ms. outbox_at d' (ob_id m) = Some m \<and> ob_status m = publishing \<and>
       ob_locked_by m = Some locker \<and>
       ob_lock_expires_at m = Some (now + seconds (max 1 lock_timeout)) \<and>
       (\<exists>r. outbox_at d (ob_id m) = Some r \<and> claimable now r \<and>
          ob_attempt_count m = ob_attempt_count r \<and> ob_payload m = ob_payload r \<and>
          (\<forall>q \<in> set (command_outbox d'). claimable now q \<longrightarrow> ob_created_at r \<le> ob_created_at q)))"
proof -
  let ?ids = "picked now limit (command_outbox d)"
  let ?f = "claimed_row now locker lock_timeout"
  have ms: "ms = map ?f (filter (\<lambda>r. ob_id r \<in> set ?ids) (command_outbox d))"
    and d': "d' = command_outbox_update (update_where (\<lambda>r. ob_id r \<in> set ?ids) ?f) d"
    using assms(2) by (simp_all add: claim_batch_run Let_def)
  have dist: "distinct (map ob_id (command_outbox d))" using assms(1) by (simp add: outbox_inv_def)
  have "length ms \<le> nat (max 1 limit)"
    using length_filter_ids [OF dist, of ?ids] length_picked [of now limit "command_outbox d"]
    by (simp add: ms)
  then have len: "int (length ms) \<le> max 1 limit" by linarith
  have inv: "outbox_inv d'" unfolding d'
    by (rule outbox_inv_update [OF assms(1)])
       (use picked_claimable [OF dist] claimed_row_ok in auto)
  have dist': "distinct (map ob_id (command_outbox d'))" using inv by (simp add: outbox_inv_def)
  have "outbox_at d' (ob_id m) = Some m \<and> ob_status m = publishing \<and>
       ob_locked_by m = Some locker \<and>
       ob_lock_expires_at m = Some (now + seconds (max 1 lock_timeout)) \<and>
       (\<exists>r. outbox_at d (ob_id m) = Some r \<and> claimable now r \<and>
          ob_attempt_count m = ob_attempt_count r \<and> ob_payload m = ob_payload r \<and>
          (\<forall>q \<in> set (command_outbox d'). claimable now q \<longrightarrow> ob_created_at r \<le> ob_created_at q))"
    if "m \<in> set ms" for m
  proof -
    obtain r where r: "r \<in> set (command_outbox d)" "ob_id r \<in> set ?ids" "m = ?f r"
      using \<open>m \<in> set ms\<close> by (auto simp: ms)
    have "m \<in> set (command_outbox d')" using r by (auto simp: d' set_update_where)
    then have "outbox_at d' (ob_id m) = Some m"
      unfolding outbox_at_def by (rule row_of_unique [OF dist'])
    moreover have "outbox_at d (ob_id m) = Some r"
      using row_of_unique [OF dist r(1)] r(3) by (simp add: outbox_at_def)
    moreover have "claimable now r" using picked_claimable [OF dist r(1,2)] .
    moreover have "ob_created_at r \<le> ob_created_at q"
      if q: "q \<in> set (command_outbox d')" "claimable now q" for q
    proof -
      have "q \<in> set (command_outbox d)" "ob_id q \<notin> set ?ids"
        using q by (auto simp: d' set_update_where claimable_def)
      then show ?thesis using picked_oldest [OF dist _ q(2)] r by auto
    qed
    ultimately show ?thesis using r(3) by auto
  qed
  with len inv show ?thesis by blast
qed


lemma enqueued_row:
  assumes "outbox_inv d" "enqueue_command new_id now topic payload tid rid k d = (Inr m, d')"
  shows "row_of command_key (tid, topic, rid) (command_outbox d') = Some m"
proof (cases "row_of command_key (tid, topic, rid) (command_outbox d)")
  case None
  then show ?thesis using assms(2)
    by (auto simp: enqueue_command_run row_of_append)
next
  case (Some r)
  have key: "same_command tid topic rid = (\<lambda>r. command_key r = (tid, topic, rid))"
    by (auto simp: same_command_key)
  show ?thesis using assms(2) Some
    by (auto simp: enqueue_command_run key row_of_update_where)
qed

text \<open>
  The outbox accepts each command of a request once.  A second enqueue of the
  same task, topic and request, whatever its payload, gives back the row already there with its
  status and attempts, and only touches its time stamp.
\<close>

theorem enqueue_idempotent:
  assumes "outbox_inv d" "enqueue_command id1 now1 topic payload1 tid rid k1 d = (Inr m1, d1)"
    and "enqueue_command id2 now2 topic payload2 tid rid k2 d1 = (Inr m2, d2)"
  shows "m2 = m1\<lparr>ob_updated_at := now2\<rparr> \<and> outbox_inv d2 \<and> only_outbox d d2 \<and>
    map (\<lambda>r. r\<lparr>ob_updated_at := 0\<rparr>) (command_outbox d2) =
      map (\<lambda>r. r\<lparr>ob_updated_at := 0\<rparr>) (command_outbox d1)"
proof -
  have inv: "outbox_inv d1" by (rule enqueue_preserves_inv [OF assms(1,2)])
  note row = enqueued_row [OF assms(1,2)]
  have "map (\<lambda>r. r\<lparr>ob_updated_at := 0\<rparr>) (update_where p (\<lambda>r. r\<lparr>ob_updated_at := now2\<rparr>) rs) =
      map (\<lambda>r. r\<lparr>ob_updated_at := 0\<rparr>) rs" for p rs
    by (induction rs) auto
  moreover have "only_outbox d d2"
    using enqueue_only_outbox [OF assms(2)] enqueue_only_outbox [OF assms(3)]
    by (auto simp: only_outbox_def)
  ultimately show ?thesis
    using enqueue_preserves_inv [OF inv assms(3)] assms(3) row by (auto simp: enqueue_command_run)
qed

definition example_message :: outbox_message where
  "example_message = new_outbox_row 7 100 ''create'' [] 1 2 5"

definition example_outbox_db :: db where
  "example_outbox_db = empty_db\<lparr>command_outbox := [example_message]\<rparr>"

lemma example_outbox_inv: "outbox_inv example_outbox_db"
  by (simp add: example_outbox_db_def example_message_def outbox_inv_def
      new_outbox_row_ok int4_def)

theorem enqueue_idempotent_witness:
  "\<exists>m1 m2 d2. enqueue_command 7 100 ''create'' [] 1 2 5 empty_db = (Inr m1, example_outbox_db) \<and>
     enqueue_command 8 200 ''create'' [(''cpu'', JInt 1)] 1 2 5 example_outbox_db = (Inr m2, d2) \<and>
     ob_id m2 = 7 \<and> ob_payload m2 = [] \<and> length (command_outbox d2) = 1"
proof -
  have inv: "outbox_inv empty_db" by (simp add: outbox_inv_def empty_db_def)
  have 1: "enqueue_command 7 100 ''create'' [] 1 2 5 empty_db = (Inr example_message, example_outbox_db)"
    by (simp add: enqueue_command_run example_message_def example_outbox_db_def empty_db_def
        outbox_at_def int4_def)
  obtain m2 d2 where 2: "enqueue_command 8 200 ''create'' [(''cpu'', JInt 1)] 1 2 5 example_outbox_db = (Inr m2, d2)"
    by (auto simp: enqueue_command_run example_message_def example_outbox_db_def empty_db_def int4_def)
  have "m2 = example_message\<lparr>ob_updated_at := 200\<rparr>"
    "map (\<lambda>r. r\<lparr>ob_updated_at := 0\<rparr>) (command_outbox d2) =
       map (\<lambda>r. r\<lparr>ob_updated_at := 0\<rparr>) (command_outbox example_outbox_db)"
    using enqueue_idempotent [OF inv 1 2] by blast+
  then have "ob_id m2 = 7" "ob_payload m2 = []" "length (command_outbox d2) = 1"
    using map_eq_imp_length_eq by (force simp: example_message_def example_outbox_db_def new_outbox_row_def)+
  with 1 2 show ?thesis by blast
qed

theorem claim_batch_oldest_due_witness:
  "\<exists>m d'. claim_batch 100 ''relay'' 50 30 example_outbox_db = (Inr [m], d') \<and>
     outbox_at d' 7 = Some m \<and> ob_status m = publishing \<and> ob_locked_by m = Some ''relay''"
proof -
  have "picked 100 50 (command_outbox example_outbox_db) = [7]"
    by (simp add: picked_def example_outbox_db_def example_message_def claimable_def
        new_outbox_row_def)
  then obtain m d' where 1: "claim_batch 100 ''relay'' 50 30 example_outbox_db = (Inr [m], d')" "ob_id m = 7"
    by (simp add: claim_batch_run Let_def example_outbox_db_def example_message_def)
  with claim_batch_oldest_due [OF example_outbox_inv 1(1)] show ?thesis by auto
qed

end
