(* ===== verification/Accounting.thy ===== *)
theory Accounting
  imports Instance_Repo
begin

text \<open>
  \<^verbatim>\<open>adapters/resource_accounting.py\<close> with the two views of \<^verbatim>\<open>migrations/001_init.sql\<close>
  it reads: the capacity check of a host and the quota check of a tenant.  Both promise the same
  thing, stated as the locale \<open>accounting_port\<close>: when the check passes and the caller's write
  replaces what it named as current by what it named as requested, usage is within its limit.
  Amounts (instances, CPU, memory, disk) form an ordered group, so that the promise is
  componentwise arithmetic.
\<close>

section \<open>Amounts\<close>

datatype amount = Amount (n_instances: int) (n_cpu: int) (n_memory: int) (n_disk: int)

instantiation amount :: ab_group_add
begin

definition zero_amount :: amount where "zero_amount = Amount 0 0 0 0"

definition plus_amount :: "amount \<Rightarrow> amount \<Rightarrow> amount" where
  "plus_amount a b = Amount (n_instances a + n_instances b) (n_cpu a + n_cpu b)
     (n_memory a + n_memory b) (n_disk a + n_disk b)"

definition uminus_amount :: "amount \<Rightarrow> amount" where
  "uminus_amount a = Amount (- n_instances a) (- n_cpu a) (- n_memory a) (- n_disk a)"

definition minus_amount :: "amount \<Rightarrow> amount \<Rightarrow> amount" where
  "minus_amount a b = Amount (n_instances a - n_instances b) (n_cpu a - n_cpu b)
     (n_memory a - n_memory b) (n_disk a - n_disk b)"

instance
  by intro_classes
    (auto simp: zero_amount_def plus_amount_def uminus_amount_def minus_amount_def amount.expand)

end

instantiation amount :: order
begin

definition less_eq_amount :: "amount \<Rightarrow> amount \<Rightarrow> bool" where
  "less_eq_amount a b \<longleftrightarrow> n_instances a \<le> n_instances b \<and> n_cpu a \<le> n_cpu b \<and>
     n_memory a \<le> n_memory b \<and> n_disk a \<le> n_disk b"

definition less_amount :: "amount \<Rightarrow> amount \<Rightarrow> bool" where
  "less_amount a b \<longleftrightarrow> a \<le> b \<and> \<not> b \<le> (a :: amount)"

instance
  by intro_classes (auto simp: less_eq_amount_def less_amount_def intro: amount.expand)

end

instance amount :: ordered_ab_group_add
  by intro_classes (auto simp: less_eq_amount_def plus_amount_def)

lemma amount_sel [simp]:
  "n_instances (a + b) = n_instances a + n_instances b" "n_cpu (a + b) = n_cpu a + n_cpu b"
  "n_memory (a + b) = n_memory a + n_memory b" "n_disk (a + b) = n_disk a + n_disk b"
  "n_instances (a - b) = n_instances a - n_instances b" "n_cpu (a - b) = n_cpu a - n_cpu b"
  "n_memory (a - b) = n_memory a - n_memory b" "n_disk (a - b) = n_disk a - n_disk b"
  "n_instances 0 = 0" "n_cpu 0 = 0" "n_memory 0 = 0" "n_disk 0 = 0"
  by (simp_all add: plus_amount_def minus_amount_def zero_amount_def)

lemma amount_sum_sel [simp]:
  "n_instances (sum_list xs) = sum_list (map n_instances xs)"
  "n_cpu (sum_list xs) = sum_list (map n_cpu xs)"
  "n_memory (sum_list xs) = sum_list (map n_memory xs)"
  "n_disk (sum_list xs) = sum_list (map n_disk xs)"
  by (induction xs) simp_all

section \<open>The views\<close>

record reservations =
  reserved_cpu :: int
  reserved_memory_mib :: int
  reserved_disk_gib :: int

definition resource_reservations_view :: "db \<Rightarrow> string \<Rightarrow> reservations option" where
  "resource_reservations_view d host =
     (case [m \<leftarrow> instances d. im_reserve_resources m \<and> im_status m \<noteq> deleted \<and> im_host_node m = host] of
        [] \<Rightarrow> None
      | m # ms \<Rightarrow> Some \<lparr>
          reserved_cpu = (\<Sum>i \<leftarrow> [i \<leftarrow> m # ms. im_status i \<noteq> stopped]. im_cpu i),
          reserved_memory_mib = (\<Sum>i \<leftarrow> [i \<leftarrow> m # ms. im_status i \<noteq> stopped]. im_memory_mib i),
          reserved_disk_gib = (\<Sum>i \<leftarrow> m # ms. im_disk_gib i)\<rparr>)"

definition counts :: "instance_model \<Rightarrow> bool" where
  "counts m \<longleftrightarrow> im_reserve_resources m \<and> im_status m \<noteq> deleted"

definition tenant_resource_usage_view :: "db \<Rightarrow> uuid \<Rightarrow> tenant_usage option" where
  "tenant_resource_usage_view d tid =
     (case [m \<leftarrow> instances d. im_tenant_id m = tid] of
        [] \<Rightarrow> None
      | m # ms \<Rightarrow> Some \<lparr>usage_tenant_id = tid,
          used_instances = int (length [i \<leftarrow> m # ms. counts i]),
          used_cpu = (\<Sum>i \<leftarrow> [i \<leftarrow> m # ms. counts i \<and> im_status i \<noteq> stopped]. im_cpu i),
          used_memory_mib = (\<Sum>i \<leftarrow> [i \<leftarrow> m # ms. counts i \<and> im_status i \<noteq> stopped]. im_memory_mib i),
          used_disk_gib = (\<Sum>i \<leftarrow> [i \<leftarrow> m # ms. counts i]. im_disk_gib i)\<rparr>)"

section \<open>The checks\<close>

definition profile_factors :: "string \<Rightarrow> error + (int \<times> int \<times> int \<times> int)" where
  "profile_factors p =
     (if p = ''none'' then Inr (0, 0, 0, 0)
      else if p = ''stopped'' then Inr (1, 0, 0, 1)
      else if p = ''running'' then Inr (1, 1, 1, 1)
      else Inl (ValueError (''invalid resource profile: '' @ p)))"

record 'scope check_input =
  chk_scope :: 'scope
  chk_current :: "resource_spec option"
  chk_requested :: resource_spec
  chk_current_profile :: string
  chk_requested_profile :: string

type_synonym capacity_check_input = "string check_input"
type_synonym tenant_quota_check_input = "uuid check_input"

definition spec_part :: "(resource_spec \<Rightarrow> int) \<Rightarrow> resource_spec option \<Rightarrow> int" where
  "spec_part f s = (case s of None \<Rightarrow> 0 | Some sp \<Rightarrow> f sp)"

definition assert_capacity :: "capacity_check_input \<Rightarrow> unit db_act" where
  "assert_capacity chk =
     bindM (getsM (\<lambda>d. resource_reservations_view d (chk_scope chk))) (\<lambda>usage.
     bindM (sql_scalar resource_capacity (\<lambda>r. cap_host_node r = chk_scope chk)) (\<lambda>cap_row.
     case cap_row of
       None \<Rightarrow> raiseM (CapacityExceededError
         (''resource capacity for host '' @ chk_scope chk @ '' not configured''))
     | Some cap \<Rightarrow>
       bindM (liftM (profile_factors (chk_current_profile chk))) (\<lambda>(_, cf, mf, df).
       bindM (liftM (profile_factors (chk_requested_profile chk))) (\<lambda>(_, cf', mf', df').
       let next_cpu = (case usage of None \<Rightarrow> 0 | Some u \<Rightarrow> reserved_cpu u)
             - spec_part cpu (chk_current chk) * cf + cpu (chk_requested chk) * cf';
           next_mem = (case usage of None \<Rightarrow> 0 | Some u \<Rightarrow> reserved_memory_mib u)
             - spec_part memory_mib (chk_current chk) * mf + memory_mib (chk_requested chk) * mf';
           next_disk = (case usage of None \<Rightarrow> 0 | Some u \<Rightarrow> reserved_disk_gib u)
             - spec_part disk_gib (chk_current chk) * df + disk_gib (chk_requested chk) * df'
       in if next_cpu > total_cpu cap then raiseM (CapacityExceededError ''cpu capacity exceeded'')
          else if next_mem > total_memory_mib cap
          then raiseM (CapacityExceededError ''memory capacity exceeded'')
          else if next_disk > total_disk_gib cap
          then raiseM (CapacityExceededError ''disk capacity exceeded'')
          else returnM ()))))"

definition assert_quota :: "tenant_quota_check_input \<Rightarrow> unit db_act" where
  "assert_quota chk =
     bindM (sql_scalar tenants (\<lambda>r. ten_id r = chk_scope chk)) (\<lambda>tenant_row.
     bindM (sql_scalar tenant_quotas (\<lambda>r. quo_tenant_id r = chk_scope chk)) (\<lambda>quota_row.
     bindM (getsM (\<lambda>d. tenant_resource_usage_view d (chk_scope chk))) (\<lambda>usage.
     case tenant_row of
       None \<Rightarrow> raiseM (QuotaExceededError (''tenant '' @ uuid_str (chk_scope chk) @ '' not found''))
     | Some t \<Rightarrow>
       if \<not> ten_is_active t
       then raiseM (TenantInactiveError (''tenant '' @ uuid_str (chk_scope chk) @ '' is inactive''))
       else case quota_row of
         None \<Rightarrow> raiseM (QuotaExceededError
           (''tenant quota for '' @ uuid_str (chk_scope chk) @ '' not configured''))
       | Some q \<Rightarrow>
         bindM (liftM (profile_factors (chk_current_profile chk))) (\<lambda>(nf, cf, mf, df).
         bindM (liftM (profile_factors (chk_requested_profile chk))) (\<lambda>(nf', cf', mf', df').
         let current_instances = (case chk_current chk of None \<Rightarrow> 0 | Some _ \<Rightarrow> nf);
             next_instances = (case usage of None \<Rightarrow> 0 | Some u \<Rightarrow> used_instances u)
               - current_instances + nf';
             next_cpu = (case usage of None \<Rightarrow> 0 | Some u \<Rightarrow> used_cpu u)
               - spec_part cpu (chk_current chk) * cf + cpu (chk_requested chk) * cf';
             next_mem = (case usage of None \<Rightarrow> 0 | Some u \<Rightarrow> used_memory_mib u)
               - spec_part memory_mib (chk_current chk) * mf + memory_mib (chk_requested chk) * mf';
             next_disk = (case usage of None \<Rightarrow> 0 | Some u \<Rightarrow> used_disk_gib u)
               - spec_part disk_gib (chk_current chk) * df + disk_gib (chk_requested chk) * df'
         in if next_instances > max_instances q
            then raiseM (QuotaExceededError ''instance quota exceeded'')
            else if next_cpu > max_cpu q then raiseM (QuotaExceededError ''cpu quota exceeded'')
            else if next_mem > max_memory_mib q
            then raiseM (QuotaExceededError ''memory quota exceeded'')
            else if next_disk > max_disk_gib q
            then raiseM (QuotaExceededError ''disk quota exceeded'')
            else returnM ())))))"


section \<open>What a check promises\<close>

definition valid_profile :: "string \<Rightarrow> bool" where
  "valid_profile p \<longleftrightarrow> p \<in> {''none'', ''stopped'', ''running''}"

text \<open>What an instance of a specification consumes under a profile, and what a row does.\<close>

definition profile_amount :: "string \<Rightarrow> resource_spec \<Rightarrow> amount" where
  "profile_amount p sp =
     (if p = ''stopped'' then Amount 1 0 0 (disk_gib sp)
      else if p = ''running'' then Amount 1 (cpu sp) (memory_mib sp) (disk_gib sp)
      else 0)"

definition instance_profile :: "instance_status \<Rightarrow> bool \<Rightarrow> string" where
  "instance_profile st reserve =
     (if \<not> reserve \<or> st = deleted then ''none''
      else if st = stopped then ''stopped'' else ''running'')"

definition row_amount :: "instance_model \<Rightarrow> amount" where
  "row_amount m = profile_amount (instance_profile (im_status m) (im_reserve_resources m))
     (inst_spec (to_instance m))"

definition tenant_used :: "db \<Rightarrow> uuid \<Rightarrow> amount" where
  "tenant_used d tid = (\<Sum>m \<leftarrow> instances d. if im_tenant_id m = tid then row_amount m else 0)"

definition host_used :: "db \<Rightarrow> string \<Rightarrow> amount" where
  "host_used d host = (\<Sum>m \<leftarrow> instances d. if im_host_node m = host then row_amount m else 0)"

definition within_quota :: "db \<Rightarrow> uuid \<Rightarrow> amount \<Rightarrow> bool" where
  "within_quota d tid a \<longleftrightarrow> (\<exists>t q. row_of ten_id tid (tenants d) = Some t \<and> ten_is_active t \<and>
     row_of quo_tenant_id tid (tenant_quotas d) = Some q \<and>
     a \<le> Amount (max_instances q) (max_cpu q) (max_memory_mib q) (max_disk_gib q))"

definition within_capacity :: "db \<Rightarrow> string \<Rightarrow> amount \<Rightarrow> bool" where
  "within_capacity d host a \<longleftrightarrow> (\<exists>c. row_of cap_host_node host (resource_capacity d) = Some c \<and>
     n_cpu a \<le> total_cpu c \<and> n_memory a \<le> total_memory_mib c \<and> n_disk a \<le> total_disk_gib c)"

definition current_amount :: "'k check_input \<Rightarrow> amount" where
  "current_amount c = (case chk_current c of None \<Rightarrow> 0 | Some sp \<Rightarrow> profile_amount (chk_current_profile c) sp)"

definition requested_amount :: "'k check_input \<Rightarrow> amount" where
  "requested_amount c = profile_amount (chk_requested_profile c) (chk_requested c)"

locale accounting_port =
  fixes check :: "'k check_input \<Rightarrow> (error, 's, unit) act"
    and used :: "'s \<Rightarrow> 'k \<Rightarrow> amount"
    and fits :: "'s \<Rightarrow> 'k \<Rightarrow> amount \<Rightarrow> bool"
  assumes check_iff:
      "valid_profile (chk_current_profile c) \<Longrightarrow> valid_profile (chk_requested_profile c) \<Longrightarrow>
       fst (check c s) = Inr () \<longleftrightarrow>
         fits s (chk_scope c) (used s (chk_scope c) - current_amount c + requested_amount c)"
    and check_readonly: "snd (check c s) = s"
begin

lemma check_passed:
  assumes "check c s = (Inr u, s')" "valid_profile (chk_current_profile c)"
    "valid_profile (chk_requested_profile c)"
  shows "s' = s \<and> fits s (chk_scope c) (used s (chk_scope c) - current_amount c + requested_amount c)"
  using assms check_iff [of c s] check_readonly [of c s] by simp

lemma check_failed: "check c s = (Inl e, s') \<Longrightarrow> s' = s"
  using check_readonly [of c s] by simp

text \<open>A checked write that has the announced effect ends within the limit.\<close>

lemma checked_write:
  assumes "check c s = (Inr u, s')" "valid_profile (chk_current_profile c)"
    "valid_profile (chk_requested_profile c)"
    and "used t (chk_scope c) = used s (chk_scope c) - current_amount c + requested_amount c"
    and "fits t = fits s"
  shows "fits t (chk_scope c) (used t (chk_scope c))"
  using check_passed [OF assms(1-3)] assms(4,5) by simp

end

lemma profile_factors_valid:
  "valid_profile p \<Longrightarrow> \<exists>nf cf mf df. profile_factors p = Inr (nf, cf, mf, df) \<and>
     (\<forall>sp. profile_amount p sp = Amount nf (cpu sp * cf) (memory_mib sp * mf) (disk_gib sp * df))"
  by (auto simp: valid_profile_def profile_factors_def profile_amount_def zero_amount_def)

lemma row_amount_sel:
  "n_instances (row_amount m) = (if counts m then 1 else 0)"
  "n_cpu (row_amount m) = (if counts m \<and> im_status m \<noteq> stopped then im_cpu m else 0)"
  "n_memory (row_amount m) = (if counts m \<and> im_status m \<noteq> stopped then im_memory_mib m else 0)"
  "n_disk (row_amount m) = (if counts m then im_disk_gib m else 0)"
  by (auto simp: row_amount_def profile_amount_def instance_profile_def counts_def)

lemma used_by_sel:
  fixes f :: "amount \<Rightarrow> int"
  assumes "\<And>xs. f (sum_list xs) = sum_list (map f xs)" "f 0 = 0"
    and "\<And>m. f (row_amount m) = (if q m then g m else 0)"
  shows "f (\<Sum>m \<leftarrow> ms. if p m then row_amount m else 0) = (\<Sum>m \<leftarrow> [m \<leftarrow> ms. p m \<and> q m]. g m)"
  unfolding assms(1) by (induction ms) (simp_all add: assms(2,3))

lemma used_sels:
  "n_instances (\<Sum>m \<leftarrow> ms. if p m then row_amount m else 0) = (\<Sum>m \<leftarrow> [m \<leftarrow> ms. p m \<and> counts m]. 1)"
  "n_cpu (\<Sum>m \<leftarrow> ms. if p m then row_amount m else 0) =
     (\<Sum>m \<leftarrow> [m \<leftarrow> ms. p m \<and> counts m \<and> im_status m \<noteq> stopped]. im_cpu m)"
  "n_memory (\<Sum>m \<leftarrow> ms. if p m then row_amount m else 0) =
     (\<Sum>m \<leftarrow> [m \<leftarrow> ms. p m \<and> counts m \<and> im_status m \<noteq> stopped]. im_memory_mib m)"
  "n_disk (\<Sum>m \<leftarrow> ms. if p m then row_amount m else 0) =
     (\<Sum>m \<leftarrow> [m \<leftarrow> ms. p m \<and> counts m]. im_disk_gib m)"
  by (rule used_by_sel; simp add: row_amount_sel)+

lemma capacity_used:
  "(case resource_reservations_view d host of None \<Rightarrow> 0 | Some u \<Rightarrow> reserved_cpu u) = n_cpu (host_used d host)"
  "(case resource_reservations_view d host of None \<Rightarrow> 0 | Some u \<Rightarrow> reserved_memory_mib u) =
     n_memory (host_used d host)"
  "(case resource_reservations_view d host of None \<Rightarrow> 0 | Some u \<Rightarrow> reserved_disk_gib u) =
     n_disk (host_used d host)"
proof -
  let ?ms = "[m \<leftarrow> instances d. im_reserve_resources m \<and> im_status m \<noteq> deleted \<and> im_host_node m = host]"
  have eq: "[m \<leftarrow> instances d. im_host_node m = host \<and> counts m \<and> im_status m \<noteq> stopped] =
      [i \<leftarrow> ?ms. im_status i \<noteq> stopped]" "[m \<leftarrow> instances d. im_host_node m = host \<and> counts m] = ?ms"
    by (auto simp: counts_def intro: filter_cong)
  show "(case resource_reservations_view d host of None \<Rightarrow> 0 | Some u \<Rightarrow> reserved_cpu u) = n_cpu (host_used d host)"
    unfolding host_used_def used_sels eq by (cases ?ms) (simp_all add: resource_reservations_view_def)
  show "(case resource_reservations_view d host of None \<Rightarrow> 0 | Some u \<Rightarrow> reserved_memory_mib u) =
      n_memory (host_used d host)"
    unfolding host_used_def used_sels eq by (cases ?ms) (simp_all add: resource_reservations_view_def)
  show "(case resource_reservations_view d host of None \<Rightarrow> 0 | Some u \<Rightarrow> reserved_disk_gib u) =
      n_disk (host_used d host)"
    unfolding host_used_def used_sels eq by (cases ?ms) (simp_all add: resource_reservations_view_def)
qed

lemma quota_used:
  "(case tenant_resource_usage_view d tid of None \<Rightarrow> 0 | Some u \<Rightarrow> used_instances u) =
     n_instances (tenant_used d tid)"
  "(case tenant_resource_usage_view d tid of None \<Rightarrow> 0 | Some u \<Rightarrow> used_cpu u) = n_cpu (tenant_used d tid)"
  "(case tenant_resource_usage_view d tid of None \<Rightarrow> 0 | Some u \<Rightarrow> used_memory_mib u) =
     n_memory (tenant_used d tid)"
  "(case tenant_resource_usage_view d tid of None \<Rightarrow> 0 | Some u \<Rightarrow> used_disk_gib u) =
     n_disk (tenant_used d tid)"
proof -
  let ?ms = "[m \<leftarrow> instances d. im_tenant_id m = tid]"
  have eq: "[m \<leftarrow> instances d. im_tenant_id m = tid \<and> counts m \<and> im_status m \<noteq> stopped] =
      [i \<leftarrow> ?ms. counts i \<and> im_status i \<noteq> stopped]"
      "[m \<leftarrow> instances d. im_tenant_id m = tid \<and> counts m] = [i \<leftarrow> ?ms. counts i]"
    by (auto intro: filter_cong)
  show "(case tenant_resource_usage_view d tid of None \<Rightarrow> 0 | Some u \<Rightarrow> used_instances u) =
      n_instances (tenant_used d tid)"
    unfolding tenant_used_def used_sels eq
    by (cases ?ms) (simp_all add: tenant_resource_usage_view_def sum_list_triv)
  show "(case tenant_resource_usage_view d tid of None \<Rightarrow> 0 | Some u \<Rightarrow> used_cpu u) = n_cpu (tenant_used d tid)"
    unfolding tenant_used_def used_sels eq by (cases ?ms) (simp_all add: tenant_resource_usage_view_def)
  show "(case tenant_resource_usage_view d tid of None \<Rightarrow> 0 | Some u \<Rightarrow> used_memory_mib u) =
      n_memory (tenant_used d tid)"
    unfolding tenant_used_def used_sels eq by (cases ?ms) (simp_all add: tenant_resource_usage_view_def)
  show "(case tenant_resource_usage_view d tid of None \<Rightarrow> 0 | Some u \<Rightarrow> used_disk_gib u) =
      n_disk (tenant_used d tid)"
    unfolding tenant_used_def used_sels eq by (cases ?ms) (simp_all add: tenant_resource_usage_view_def)
qed

lemma current_amount_parts:
  assumes "profile_factors (chk_current_profile c) = Inr (nf, cf, mf, df)"
    "\<forall>sp. profile_amount (chk_current_profile c) sp = Amount nf (cpu sp * cf) (memory_mib sp * mf) (disk_gib sp * df)"
  shows "current_amount c = Amount (case chk_current c of None \<Rightarrow> 0 | Some _ \<Rightarrow> nf)
    (spec_part cpu (chk_current c) * cf) (spec_part memory_mib (chk_current c) * mf)
    (spec_part disk_gib (chk_current c) * df)"
  using assms(2) by (simp add: current_amount_def spec_part_def zero_amount_def split: option.splits)

interpretation capacity: accounting_port assert_capacity host_used within_capacity
proof (unfold_locales, goal_cases)
  case (1 c d)
  obtain nf cf mf df where f: "profile_factors (chk_current_profile c) = Inr (nf, cf, mf, df)"
      "\<forall>sp. profile_amount (chk_current_profile c) sp = Amount nf (cpu sp * cf) (memory_mib sp * mf) (disk_gib sp * df)"
    using profile_factors_valid [OF 1(1)] by blast
  obtain nf' cf' mf' df' where f': "profile_factors (chk_requested_profile c) = Inr (nf', cf', mf', df')"
      "\<forall>sp. profile_amount (chk_requested_profile c) sp = Amount nf' (cpu sp * cf') (memory_mib sp * mf') (disk_gib sp * df')"
    using profile_factors_valid [OF 1(2)] by blast
  show ?case
    by (simp add: assert_capacity_def bindM_run bindM_sql_run find_key within_capacity_def capacity_used
        f(1) f'(1) Let_def current_amount_parts [OF f] requested_amount_def f'(2) not_less
        split: option.split)
next
  case (2 c d)
  show ?case
    by (auto simp: assert_capacity_def bindM_run bindM_sql_run find_key Let_def
        split: option.split sum.split prod.split)
qed

interpretation quota: accounting_port assert_quota tenant_used within_quota
proof (unfold_locales, goal_cases)
  case (1 c d)
  obtain nf cf mf df where f: "profile_factors (chk_current_profile c) = Inr (nf, cf, mf, df)"
      "\<forall>sp. profile_amount (chk_current_profile c) sp = Amount nf (cpu sp * cf) (memory_mib sp * mf) (disk_gib sp * df)"
    using profile_factors_valid [OF 1(1)] by blast
  obtain nf' cf' mf' df' where f': "profile_factors (chk_requested_profile c) = Inr (nf', cf', mf', df')"
      "\<forall>sp. profile_amount (chk_requested_profile c) sp = Amount nf' (cpu sp * cf') (memory_mib sp * mf') (disk_gib sp * df')"
    using profile_factors_valid [OF 1(2)] by blast
  show ?case
    by (simp add: assert_quota_def bindM_run bindM_sql_run find_key within_quota_def quota_used
        f(1) f'(1) Let_def current_amount_parts [OF f] requested_amount_def f'(2) not_less
        less_eq_amount_def split: option.split)
next
  case (2 c d)
  show ?case
    by (auto simp: assert_quota_def bindM_run bindM_sql_run find_key Let_def
        split: option.split sum.split prod.split)
qed


text \<open>
  The quota check lets a request through exactly when the tenant is active, has a
  quota, and its usage with the current resources replaced by the requested ones stays within
  every limit; it changes nothing.
\<close>

theorem assert_quota_iff:
  assumes "valid_profile (chk_current_profile chk)" "valid_profile (chk_requested_profile chk)"
  shows "assert_quota chk d = (Inr (), d) \<longleftrightarrow>
    within_quota d (chk_scope chk)
      (tenant_used d (chk_scope chk) - current_amount chk + requested_amount chk)"
  using quota.check_iff [OF assms, of d] quota.check_readonly [of chk d]
  by (cases "assert_quota chk d") auto

text \<open>
  Likewise the capacity check of a host, against the reservations of the
  instances placed on it; the number of instances is not limited there.
\<close>

theorem assert_capacity_iff:
  assumes "valid_profile (chk_current_profile chk)" "valid_profile (chk_requested_profile chk)"
  shows "assert_capacity chk d = (Inr (), d) \<longleftrightarrow>
    within_capacity d (chk_scope chk)
      (host_used d (chk_scope chk) - current_amount chk + requested_amount chk)"
  using capacity.check_iff [OF assms, of d] capacity.check_readonly [of chk d]
  by (cases "assert_capacity chk d") auto

section \<open>Usage after a write\<close>

definition inst_amount :: "vm_instance \<Rightarrow> amount" where
  "inst_amount i = profile_amount (instance_profile (inst_status i) (inst_reserve_resources i)) (inst_spec i)"

lemma row_amount_inst: "row_amount m = inst_amount (to_instance m)"
  by (simp add: row_amount_def inst_amount_def)

definition distinct_instances :: "db \<Rightarrow> bool" where
  "distinct_instances d \<longleftrightarrow> distinct (map im_id (instances d))"

definition usage_share :: "(vm_instance \<Rightarrow> bool) \<Rightarrow> vm_instance option \<Rightarrow> amount" where
  "usage_share p i = (case i of None \<Rightarrow> 0 | Some x \<Rightarrow> if p x then inst_amount x else 0)"

lemma usage_by_ids:
  assumes "distinct_instances d"
  shows "tenant_used d tid =
      (\<Sum>k \<leftarrow> map im_id (instances d). usage_share (\<lambda>i. inst_tenant_id i = tid) (inst_at d k))"
    and "host_used d host =
      (\<Sum>k \<leftarrow> map im_id (instances d). usage_share (\<lambda>i. inst_host_node i = host) (inst_at d k))"
proof -
  have eq: "(\<Sum>m \<leftarrow> instances d. usage_share p (Some (to_instance m))) =
      (\<Sum>k \<leftarrow> map im_id (instances d). usage_share p (inst_at d k))" for p
    using sum_rows_keys [of im_id "instances d" "\<lambda>r. usage_share p (map_option to_instance r)"]
      assms by (simp add: distinct_instances_def inst_at_def)
  show "tenant_used d tid =
      (\<Sum>k \<leftarrow> map im_id (instances d). usage_share (\<lambda>i. inst_tenant_id i = tid) (inst_at d k))"
    unfolding eq [symmetric] by (simp add: tenant_used_def usage_share_def row_amount_inst cong: if_cong)
  show "host_used d host =
      (\<Sum>k \<leftarrow> map im_id (instances d). usage_share (\<lambda>i. inst_host_node i = host) (inst_at d k))"
    unfolding eq [symmetric] by (simp add: host_used_def usage_share_def row_amount_inst cong: if_cong)
qed

text \<open>
  A write of one instance, new or old, moves the usage of its tenant and of its host by the
  difference of what the row consumes.
\<close>

definition writes_instance :: "db \<Rightarrow> uuid \<Rightarrow> vm_instance \<Rightarrow> db \<Rightarrow> bool" where
  "writes_instance d k i d' \<longleftrightarrow> inst_at d' = (inst_at d)(k \<mapsto> i) \<and>
     map im_id (instances d') = map im_id (instances d) @ (if inst_at d k = None then [k] else [])"

definition amount_at :: "db \<Rightarrow> uuid \<Rightarrow> amount" where
  "amount_at d k = (case inst_at d k of None \<Rightarrow> 0 | Some i \<Rightarrow> inst_amount i)"

lemma inst_at_dom: "inst_at d k \<noteq> None \<longleftrightarrow> k \<in> set (map im_id (instances d))"
  by (simp add: inst_at_def row_of_None_iff)

lemma usage_after_write:
  assumes "distinct_instances d" "writes_instance d k i d'"
    and "\<And>i0. inst_at d k = Some i0 \<Longrightarrow> inst_tenant_id i0 = inst_tenant_id i \<and> inst_host_node i0 = inst_host_node i"
  shows "distinct_instances d'"
    and "tenant_used d' (inst_tenant_id i) = tenant_used d (inst_tenant_id i) - amount_at d k + inst_amount i"
    and "host_used d' (inst_host_node i) = host_used d (inst_host_node i) - amount_at d k + inst_amount i"
proof -
  let ?ids = "map im_id (instances d)"
  have at: "inst_at d' = (inst_at d)(k \<mapsto> i)"
    and ids: "map im_id (instances d') = ?ids @ (if inst_at d k = None then [k] else [])"
    using assms(2) by (simp_all add: writes_instance_def)
  have dist: "distinct ?ids" using assms(1) by (simp add: distinct_instances_def)
  show dist': "distinct_instances d'"
    using dist ids inst_at_dom [of d k] by (auto simp: distinct_instances_def)
  have sum: "(\<Sum>x \<leftarrow> map im_id (instances d'). F ((inst_at d') x)) =
      (\<Sum>x \<leftarrow> ?ids. F (inst_at d x)) - F (inst_at d k) + F (Some i)"
    if "F None = 0" for F :: "vm_instance option \<Rightarrow> amount"
  proof (cases "inst_at d k")
    case None
    then have "k \<notin> set ?ids" using inst_at_dom [of d k] by simp
    then have "(\<Sum>x \<leftarrow> ?ids. F ((inst_at d') x)) = (\<Sum>x \<leftarrow> ?ids. F (inst_at d x))"
      unfolding at by (intro arg_cong [where f = sum_list] map_cong) auto
    then show ?thesis unfolding ids using None that at by simp
  next
    case (Some i0)
    then have "k \<in> set ?ids" using inst_at_dom [of d k] by simp
    then show ?thesis
      using sum_map_upd [OF dist, of k F "inst_at d" i] Some unfolding ids at by simp
  qed
  show "tenant_used d' (inst_tenant_id i) = tenant_used d (inst_tenant_id i) - amount_at d k + inst_amount i"
    unfolding usage_by_ids(1) [OF assms(1)] usage_by_ids(1) [OF dist']
    by (subst sum) (use assms(3) in \<open>auto simp: usage_share_def amount_at_def split: option.splits\<close>)
  show "host_used d' (inst_host_node i) = host_used d (inst_host_node i) - amount_at d k + inst_amount i"
    unfolding usage_by_ids(2) [OF assms(1)] usage_by_ids(2) [OF dist']
    by (subst sum) (use assms(3) in \<open>auto simp: usage_share_def amount_at_def split: option.splits\<close>)
qed

end
