(* ===== verification/Instance_Commands.thy ===== *)
theory Instance_Commands
  imports Task_Repo Outbox Accounting Task_State
begin

text \<open>
  \<^verbatim>\<open>application/commands/instance_commands.py\<close>: the five commands on an instance.  Each
  checks the instance and its tasks, checks quota and capacity where it takes more resources,
  puts the instance into the pending state of the command, records the task and enqueues the
  message for the VM manager.  A handler is one action on the database; the router commits it, or
  rolls back when it raises.  The identifiers \<^verbatim>\<open>uuid4\<close> draws and the clock reading are
  arguments (\<open>fresh_ids\<close>).
\<close>

record handler_config =
  hc_quota_accounting :: bool
  hc_outbox_max_attempts :: int
  hc_inet :: "string \<Rightarrow> string option"
  hc_repr :: "json \<Rightarrow> string" \<comment> \<open>\<^verbatim>\<open>str(v)\<close> of a value that is not a string\<close>

definition handler_config_of ::
  "bool \<Rightarrow> int \<Rightarrow> (string \<Rightarrow> string option) \<Rightarrow> (json \<Rightarrow> string) \<Rightarrow> handler_config" where
  "handler_config_of q attempts inet repr =
     \<lparr>hc_quota_accounting = q, hc_outbox_max_attempts = max 1 attempts, hc_inet = inet, hc_repr = repr\<rparr>"

record fresh_ids =
  new_instance_id :: uuid
  new_task_id :: uuid
  new_request_id :: uuid
  new_outbox_id :: uuid
  at_time :: timestamp

record create_instance_command =
  cr_cpu :: int
  cr_memory_mib :: int
  cr_disk_gib :: int
  cr_name :: "string option"
  cr_host_node :: string
  cr_image_id :: "string option"
  cr_tenant_id :: uuid

record update_instance_command =
  up_instance_id :: uuid
  up_cpu :: int
  up_memory_mib :: int
  up_disk_gib :: int
  up_host_node :: string

text \<open>The \<^verbatim>\<open>InstanceTask\<close> every handler builds, and the outcome it returns.\<close>

definition queued_task :: "fresh_ids \<Rightarrow> uuid \<Rightarrow> task_command \<Rightarrow> dict \<Rightarrow> instance_task" where
  "queued_task ids iid c payload =
     \<lparr>task_id = new_task_id ids, task_instance_id = iid, task_cmd = c, task_stat = task_queued,
      task_request_id = new_request_id ids, task_request_payload = payload,
      task_result_payload = JNull, task_error_code = None, task_error_message = None,
      task_attempt_count = 0, task_max_attempts = 3, task_created_at = at_time ids,
      task_started_at = None, task_finished_at = None, task_updated_at = at_time ids\<rparr>"

definition accepted :: "fresh_ids \<Rightarrow> uuid \<Rightarrow> task_command \<Rightarrow> task_accepted" where
  "accepted ids iid c =
     \<lparr>acc_task_id = new_task_id ids, acc_instance_id = iid, acc_command = c,
      acc_status = task_queued, acc_accepted_at = at_time ids\<rparr>"

text \<open>The common end of the handlers: create the task, enqueue the message.\<close>

definition submit ::
  "handler_config \<Rightarrow> fresh_ids \<Rightarrow> uuid \<Rightarrow> task_command \<Rightarrow> dict \<Rightarrow> string \<Rightarrow> dict \<Rightarrow> task_accepted db_act" where
  "submit cfg ids iid c request_payload topic payload =
     bindM (create_task (queued_task ids iid c request_payload)) (\<lambda>_.
     bindM (enqueue_command (new_outbox_id ids) (at_time ids) topic payload (new_task_id ids)
              (new_request_id ids) (hc_outbox_max_attempts cfg)) (\<lambda>_.
     returnM (accepted ids iid c)))"

definition image_entry :: "string option \<Rightarrow> dict" where
  "image_entry img = (case img of None \<Rightarrow> [] | Some s \<Rightarrow> if s \<noteq> [] then [(''image_id'', JStr s)] else [])"

definition spec_entries :: "resource_spec \<Rightarrow> dict" where
  "spec_entries sp = [(''cpu'', JInt (cpu sp)), (''memory_mib'', JInt (memory_mib sp)),
     (''disk_gib'', JInt (disk_gib sp))]"

definition require_quota ::
  "handler_config \<Rightarrow> tenant_quota_check_input \<Rightarrow> unit db_act" where
  "require_quota cfg chk = (if hc_quota_accounting cfg then assert_quota chk else returnM ())"

definition create_instance_handle ::
  "handler_config \<Rightarrow> fresh_ids \<Rightarrow> create_instance_command \<Rightarrow> task_accepted db_act" where
  "create_instance_handle cfg ids cmd =
     (let sp = \<lparr>cpu = cr_cpu cmd, memory_mib = cr_memory_mib cmd, disk_gib = cr_disk_gib cmd\<rparr>;
          now = at_time ids in
      bindM (liftM (validate_spec sp)) (\<lambda>_.
      bindM (require_quota cfg \<lparr>chk_scope = cr_tenant_id cmd, chk_current = None, chk_requested = sp,
               chk_current_profile = ''none'', chk_requested_profile = ''running''\<rparr>) (\<lambda>_.
      bindM (assert_capacity \<lparr>chk_scope = cr_host_node cmd, chk_current = None, chk_requested = sp,
               chk_current_profile = ''none'', chk_requested_profile = ''running''\<rparr>) (\<lambda>_.
      bindM (instance_create
        \<lparr>inst_id = new_instance_id ids, inst_name = cr_name cmd, inst_spec = sp,
         inst_status = creating_pending, inst_ip_address = None, inst_host_node = cr_host_node cmd,
         inst_reserve_resources = True, inst_last_task_id = Some (new_task_id ids),
         inst_deleted_at = None, inst_created_at = now, inst_updated_at = now,
         inst_tenant_id = cr_tenant_id cmd\<rparr>) (\<lambda>_.
      submit cfg ids (new_instance_id ids) cmd_create
        ([(''name'', json_opt_str (cr_name cmd))] @ spec_entries sp @
         [(''host_node'', JStr (cr_host_node cmd)), (''tenant_id'', JStr (uuid_str (cr_tenant_id cmd)))] @
         image_entry (cr_image_id cmd))
        ''instance.create''
        ([(''instance_id'', JStr (uuid_str (new_instance_id ids))), (''name'', json_opt_str (cr_name cmd))] @
         spec_entries sp @ [(''host_node'', JStr (cr_host_node cmd))] @ image_entry (cr_image_id cmd)))))))"

text \<open>\<^verbatim>\<open>get_for_update\<close> and the two guards the other handlers share.\<close>

definition instance_missing :: "uuid \<Rightarrow> error" where
  "instance_missing iid = NotFoundError (''instance '' @ uuid_str iid @ '' not found'')"

definition require_instance :: "uuid \<Rightarrow> vm_instance db_act" where
  "require_instance iid =
     bindM (instance_get_for_update iid) (\<lambda>found.
       case found of None \<Rightarrow> raiseM (instance_missing iid) | Some i \<Rightarrow> returnM i)"

definition require_idle :: "uuid \<Rightarrow> unit db_act" where
  "require_idle iid =
     bindM (has_active_task iid) (\<lambda>busy.
       guardM (\<not> busy) (ConflictError (''instance '' @ uuid_str iid @ '' already has an active task'')))"

definition delete_instance_handle ::
  "handler_config \<Rightarrow> fresh_ids \<Rightarrow> uuid \<Rightarrow> task_accepted db_act" where
  "delete_instance_handle cfg ids iid =
     bindM (require_instance iid) (\<lambda>i.
     bindM (guardM (inst_status i \<noteq> deleted) (ValidationError ''instance is already deleted'')) (\<lambda>_.
     bindM (require_idle iid) (\<lambda>_.
     bindM (instance_update_state (hc_inet cfg) (at_time ids) iid (JStr ''deleting_pending'') False
              (Some (new_task_id ids)) None (json_opt_str (inst_ip_address i))) (\<lambda>_.
     submit cfg ids iid cmd_delete
       [(''host_node'', JStr (inst_host_node i)),
        (''previous_spec'', JObj (spec_entries (inst_spec i))),
        (''previous_ip_address'', json_opt_str (inst_ip_address i)),
        (''previous_status'', JStr (instance_status_str (inst_status i)))]
       ''instance.delete''
       [(''instance_id'', JStr (uuid_str iid)), (''host_node'', JStr (inst_host_node i))]))))"

definition previous_state :: "vm_instance \<Rightarrow> dict" where
  "previous_state i =
     [(''tenant_id'', JStr (uuid_str (inst_tenant_id i))),
      (''previous_status'', JStr (instance_status_str (inst_status i))),
      (''previous_ip_address'', json_opt_str (inst_ip_address i)),
      (''previous_reserve_resources'', JBool (inst_reserve_resources i))]"

definition stop_instance_handle ::
  "handler_config \<Rightarrow> fresh_ids \<Rightarrow> uuid \<Rightarrow> task_accepted db_act" where
  "stop_instance_handle cfg ids iid =
     bindM (require_instance iid) (\<lambda>i.
     bindM (guardM (inst_status i \<noteq> deleted) (ValidationError ''cannot stop a deleted instance'')) (\<lambda>_.
     bindM (guardM (inst_status i \<in> {running, stopped})
       (ValidationError (''cannot stop instance from status '' @ instance_status_str (inst_status i)))) (\<lambda>_.
     bindM (require_idle iid) (\<lambda>_.
     bindM (instance_update_state (hc_inet cfg) (at_time ids) iid (JStr ''stopping_pending'') True
              (Some (new_task_id ids)) (inst_deleted_at i) (json_opt_str (inst_ip_address i))) (\<lambda>_.
     submit cfg ids iid cmd_stop
       ((''host_node'', JStr (inst_host_node i)) # previous_state i)
       ''instance.stop''
       [(''instance_id'', JStr (uuid_str iid)), (''host_node'', JStr (inst_host_node i))])))))"

definition start_instance_handle ::
  "handler_config \<Rightarrow> fresh_ids \<Rightarrow> uuid \<Rightarrow> string \<Rightarrow> task_accepted db_act" where
  "start_instance_handle cfg ids iid host =
     bindM (require_instance iid) (\<lambda>i.
     bindM (guardM (inst_status i \<noteq> deleted) (ValidationError ''cannot start a deleted instance'')) (\<lambda>_.
     bindM (guardM (inst_status i \<in> {running, stopped})
       (ValidationError (''cannot start instance from status '' @ instance_status_str (inst_status i)))) (\<lambda>_.
     bindM (require_idle iid) (\<lambda>_.
     bindM (if inst_status i = stopped then
              bindM (require_quota cfg \<lparr>chk_scope = inst_tenant_id i, chk_current = Some (inst_spec i),
                chk_requested = inst_spec i, chk_current_profile = ''stopped'',
                chk_requested_profile = ''running''\<rparr>) (\<lambda>_.
              assert_capacity \<lparr>chk_scope = host, chk_current = Some (inst_spec i),
                chk_requested = inst_spec i, chk_current_profile = ''stopped'',
                chk_requested_profile = ''running''\<rparr>)
            else returnM ()) (\<lambda>_.
     bindM (instance_update_state (hc_inet cfg) (at_time ids) iid (JStr ''starting_pending'') True
              (Some (new_task_id ids)) (inst_deleted_at i) (json_opt_str (inst_ip_address i))) (\<lambda>_.
     submit cfg ids iid cmd_start
       ((''host_node'', JStr host) # previous_state i)
       ''instance.start''
       [(''instance_id'', JStr (uuid_str iid)), (''host_node'', JStr host)]))))))"

text \<open>\<^verbatim>\<open>_profile_for_instance\<close>, the same method in the update and the retry handler.\<close>

definition profile_for_instance :: "instance_status \<Rightarrow> bool \<Rightarrow> string" where
  "profile_for_instance st reserve =
     (if \<not> reserve then ''none'' else if st = stopped then ''stopped'' else ''running'')"

definition updated_profile :: "instance_status \<Rightarrow> string" where
  "updated_profile st = (if st = stopped then ''stopped'' else ''running'')"

definition update_request :: "update_instance_command \<Rightarrow> resource_spec \<Rightarrow> vm_instance \<Rightarrow> dict" where
  "update_request cmd sp i =
     spec_entries sp @
     [(''host_node'', JStr (up_host_node cmd)), (''tenant_id'', JStr (uuid_str (inst_tenant_id i))),
      (''boot_after_update'', JBool (inst_status i \<noteq> stopped)),
      (''previous_spec'', JObj (spec_entries (inst_spec i))),
      (''previous_ip_address'', json_opt_str (inst_ip_address i)),
      (''previous_deleted_at'', case inst_deleted_at i of None \<Rightarrow> JNull | Some t \<Rightarrow> JStr (isoformat t)),
      (''previous_status'', JStr (instance_status_str (inst_status i))),
      (''previous_reserve_resources'', JBool (inst_reserve_resources i))]"

definition update_instance_handle ::
  "handler_config \<Rightarrow> fresh_ids \<Rightarrow> update_instance_command \<Rightarrow> task_accepted db_act" where
  "update_instance_handle cfg ids cmd =
     (let iid = up_instance_id cmd in
     bindM (require_instance iid) (\<lambda>i.
     bindM (guardM (inst_status i \<noteq> deleted) (ValidationError ''cannot update a deleted instance'')) (\<lambda>_.
     bindM (require_idle iid) (\<lambda>_.
     let sp = \<lparr>cpu = up_cpu cmd, memory_mib = up_memory_mib cmd, disk_gib = up_disk_gib cmd\<rparr>;
         current_profile = profile_for_instance (inst_status i) (inst_reserve_resources i);
         requested_profile = updated_profile (inst_status i) in
     bindM (liftM (validate_spec sp)) (\<lambda>_.
     bindM (require_quota cfg \<lparr>chk_scope = inst_tenant_id i, chk_current = Some (inst_spec i),
              chk_requested = sp, chk_current_profile = current_profile,
              chk_requested_profile = requested_profile\<rparr>) (\<lambda>_.
     bindM (assert_capacity \<lparr>chk_scope = up_host_node cmd, chk_current = Some (inst_spec i),
              chk_requested = sp, chk_current_profile = current_profile,
              chk_requested_profile = requested_profile\<rparr>) (\<lambda>_.
     bindM (instance_update_spec (hc_inet cfg) (at_time ids) iid sp (JStr ''updating_pending'')
              (json_opt_str (inst_ip_address i)) True (Some (new_task_id ids)) (inst_deleted_at i)) (\<lambda>_.
     submit cfg ids iid cmd_update (update_request cmd sp i)
       ''instance.update''
       ((''instance_id'', JStr (uuid_str iid)) # spec_entries sp @
        [(''host_node'', JStr (up_host_node cmd)),
         (''boot_after_update'', JBool (inst_status i \<noteq> stopped))])))))))))"

section \<open>What the steps of a handler do\<close>

definition db_wf :: "db \<Rightarrow> bool" where
  "db_wf d \<longleftrightarrow> distinct_instances d \<and> distinct (map task_id (instance_tasks d)) \<and> outbox_inv d \<and>
     (\<forall>m \<in> set (command_outbox d). task_at d (ob_task_id m) \<noteq> None)"

definition same_directory :: "db \<Rightarrow> db \<Rightarrow> bool" where
  \<comment> \<open>the tables the instance commands only read\<close>
  "same_directory d d' \<longleftrightarrow> tenants d' = tenants d \<and> tenant_quotas d' = tenant_quotas d \<and>
     resource_capacity d' = resource_capacity d \<and> users d' = users d \<and>
     refresh_tokens d' = refresh_tokens d \<and> audit_logs d' = audit_logs d"

lemma same_directory_refl [simp]: "same_directory d d"
  by (simp add: same_directory_def)

lemma same_directory_trans: "same_directory d d1 \<Longrightarrow> same_directory d1 d2 \<Longrightarrow> same_directory d d2"
  by (simp add: same_directory_def)

definition idle :: "db \<Rightarrow> uuid \<Rightarrow> bool" where
  "idle d iid \<longleftrightarrow> (\<forall>tid t. task_at d tid = Some t \<longrightarrow> task_instance_id t = iid \<longrightarrow> \<not> task_active (task_stat t))"

lemma has_active_task_idle:
  assumes "distinct (map task_id (instance_tasks d))"
  shows "has_active_task iid d = (Inr (\<not> idle d iid), d)"
proof -
  have rows: "row_of task_id (task_id t) (instance_tasks d) = Some t" if "t \<in> set (instance_tasks d)" for t
    by (rule row_of_unique [OF assms that])
  have "(\<exists>t \<in> set (instance_tasks d). task_instance_id t = iid \<and> task_active (task_stat t)) \<longleftrightarrow> \<not> idle d iid"
  proof
    assume "\<exists>t \<in> set (instance_tasks d). task_instance_id t = iid \<and> task_active (task_stat t)"
    then obtain t where t: "t \<in> set (instance_tasks d)" "task_instance_id t = iid" "task_active (task_stat t)"
      by blast
    then have "task_at d (task_id t) = Some (to_task t)" using rows by (simp add: task_at_def)
    moreover have "task_instance_id (to_task t) = iid" "task_active (task_stat (to_task t))"
      using t(2,3) by simp_all
    ultimately show "\<not> idle d iid" unfolding idle_def by blast
  next
    assume "\<not> idle d iid"
    then obtain tid r where "row_of task_id tid (instance_tasks d) = Some r" "task_instance_id r = iid"
        "task_active (task_stat r)"
      by (auto simp: idle_def task_at_def)
    then show "\<exists>t \<in> set (instance_tasks d). task_instance_id t = iid \<and> task_active (task_stat t)"
      using row_of_SomeD by fast
  qed
  then show ?thesis by (simp add: has_active_task_def task_active_def)
qed

lemma require_instance_ok [simp]:
  "require_instance iid d = (Inr i, d') \<longleftrightarrow> inst_at d iid = Some i \<and> d' = d"
  by (auto simp: require_instance_def bindM_instance_get split: option.splits)

lemma require_idle_ok:
  assumes "distinct (map task_id (instance_tasks d))"
  shows "require_idle iid d = (Inr u, d') \<longleftrightarrow> idle d iid \<and> d' = d"
  using has_active_task_idle [OF assms, of iid]
  by (auto simp: require_idle_def bindM_step split: if_splits)

lemma submit_ok:
  assumes "db_wf d" "submit cfg ids iid c rp topic payload d = (Inr r, d')"
  shows "r = accepted ids iid c" "instances d' = instances d" "same_directory d d'" "db_wf d'"
    "task_at d (new_task_id ids) = None"
    "task_at d' = (task_at d)(new_task_id ids \<mapsto> queued_task ids iid c rp)"
    "inst_at d iid \<noteq> None"
    "outbox_at d' = (outbox_at d)(new_outbox_id ids \<mapsto>
       new_outbox_row (new_outbox_id ids) (at_time ids) topic payload (new_task_id ids)
         (new_request_id ids) (hc_outbox_max_attempts cfg))"
proof -
  let ?row = "instance_task.extend (queued_task ids iid c rp) (instance_task_model.fields None None None)"
  let ?d1 = "instance_tasks_update (\<lambda>rs. rs @ [?row]) d"
  obtain m where ok: "task_violates d ?row = None" and r: "r = accepted ids iid c"
    and enq: "enqueue_command (new_outbox_id ids) (at_time ids) topic payload (new_task_id ids)
        (new_request_id ids) (hc_outbox_max_attempts cfg) ?d1 = (Inr m, d')"
    using assms(2) by (auto simp: submit_def create_task_def sql_insert_def split: option.splits)
  have row: "task_id ?row = new_task_id ids" "to_task ?row = queued_task ids iid c rp"
    "task_instance_id ?row = iid"
    by (simp_all add: to_task_def instance_task.defs instance_task_model.defs queued_task_def)
  show "r = accepted ids iid c" by (rule r)
  have fresh: "row_of task_id (new_task_id ids) (instance_tasks d) = None" and "exists_row im_id iid (instances d)"
    using ok row by (auto simp: task_violates_def exists_row_def split: if_splits)
  then show none: "task_at d (new_task_id ids) = None" and "inst_at d iid \<noteq> None"
    by (auto simp: task_at_def inst_at_def exists_row_def)
  have t1: "task_at ?d1 = (task_at d)(new_task_id ids \<mapsto> queued_task ids iid c rp)"
    using fresh row by (auto simp: task_at_def row_of_append fun_eq_iff split: option.splits)
  have "row_of command_key (new_task_id ids, topic, new_request_id ids) (command_outbox d) = None"
    using assms(1) none by (auto simp: row_of_None_iff command_key_def db_wf_def)
  then have d': "d' = command_outbox_update (\<lambda>rs. rs @ [new_outbox_row (new_outbox_id ids) (at_time ids)
        topic payload (new_task_id ids) (new_request_id ids) (hc_outbox_max_attempts cfg)]) ?d1"
    and new: "outbox_at d (new_outbox_id ids) = None"
    using enq by (auto simp: enqueue_command_run outbox_at_def)
  then show "instances d' = instances d" "same_directory d d'"
    by (simp_all add: same_directory_def)
  show t': "task_at d' = (task_at d)(new_task_id ids \<mapsto> queued_task ids iid c rp)"
    using t1 d' by (simp add: task_at_def fun_eq_iff)
  show "outbox_at d' = (outbox_at d)(new_outbox_id ids \<mapsto>
       new_outbox_row (new_outbox_id ids) (at_time ids) topic payload (new_task_id ids)
         (new_request_id ids) (hc_outbox_max_attempts cfg))"
    using d' new by (auto simp: outbox_at_def row_of_append fun_eq_iff split: option.splits)
  have "outbox_inv ?d1" using assms(1) by (simp add: db_wf_def outbox_inv_def)
  from enqueue_preserves_inv [OF this enq] have "outbox_inv d'" .
  moreover have "distinct (map task_id (instance_tasks d'))"
    using assms(1) fresh row(1) by (simp add: d' db_wf_def row_of_None_iff)
  moreover have "\<forall>m \<in> set (command_outbox d'). task_at d' (ob_task_id m) \<noteq> None"
    using assms(1) unfolding t' by (auto simp: d' db_wf_def new_outbox_row_def)
  ultimately show "db_wf d'" using assms(1) by (simp add: db_wf_def d' distinct_instances_def)
qed


section \<open>What an accepted command does\<close>

text \<open>
  The instance is written, a queued task and a queued message appear under fresh identifiers, and
  nothing else changes.
\<close>

definition accepts ::
  "handler_config \<Rightarrow> fresh_ids \<Rightarrow> uuid \<Rightarrow> task_command \<Rightarrow> dict \<Rightarrow> dict \<Rightarrow> vm_instance \<Rightarrow> db
     \<Rightarrow> task_accepted \<Rightarrow> db \<Rightarrow> bool" where
  "accepts cfg ids iid c rp payload i d r d' \<longleftrightarrow>
     r = accepted ids iid c \<and> writes_instance d iid i d' \<and>
     task_at d (new_task_id ids) = None \<and>
     task_at d' = (task_at d)(new_task_id ids \<mapsto> queued_task ids iid c rp) \<and>
     outbox_at d' = (outbox_at d)(new_outbox_id ids \<mapsto>
       new_outbox_row (new_outbox_id ids) (at_time ids) (''instance.'' @ task_command_str c) payload
         (new_task_id ids) (new_request_id ids) (hc_outbox_max_attempts cfg)) \<and>
     same_directory d d' \<and> db_wf d'"

definition enters_pending :: "task_command \<Rightarrow> uuid \<Rightarrow> vm_instance \<Rightarrow> vm_instance \<Rightarrow> bool" where
  "enters_pending c tid i i' \<longleftrightarrow>
     inst_id i' = inst_id i \<and> inst_tenant_id i' = inst_tenant_id i \<and> inst_host_node i' = inst_host_node i \<and>
     inst_status i' = pending_status c \<and> inst_last_task_id i' = Some tid \<and>
     inst_reserve_resources i' = (c \<noteq> cmd_delete) \<and>
     inst_deleted_at i' = (if c = cmd_delete then None else inst_deleted_at i) \<and>
     (c \<noteq> cmd_update \<longrightarrow> inst_spec i' = inst_spec i)"

lemma only_instances_wf:
  assumes "db_wf d" "only_instances d d1"
  shows "db_wf d1" "task_at d1 = task_at d" "outbox_at d1 = outbox_at d" "same_directory d d1"
  using assms only_instances_frame [OF assms(2)]
  by (simp_all add: db_wf_def distinct_instances_def task_at_def outbox_at_def same_directory_def
      outbox_inv_def fun_eq_iff)

lemma write_then_submit:
  assumes "db_wf d" "only_instances d d1" "inst_at d1 = (inst_at d)(iid \<mapsto> i')" "inst_at d iid = Some i"
    "submit cfg ids iid c rp (''instance.'' @ task_command_str c) payload d1 = (Inr r, d')"
  shows "accepts cfg ids iid c rp payload i' d r d'"
proof -
  note d1 = only_instances_wf [OF assms(1,2)]
  note sub = submit_ok [OF d1(1) assms(5)]
  have "inst_at d' = inst_at d1" using sub(2) by (simp add: inst_at_def fun_eq_iff)
  then have "writes_instance d iid i' d'"
    using assms(3,4) sub(2) only_instances_frame [OF assms(2)] by (simp add: writes_instance_def)
  then show ?thesis
    using sub d1 assms(3) same_directory_trans [OF d1(4) sub(3)] by (simp add: accepts_def)
qed

lemma update_state_pending:
  assumes "inst_at d iid = Some i"
    "instance_update_state inet now iid (JStr (instance_status_str (pending_status c))) (c \<noteq> cmd_delete)
       (Some tid) (if c = cmd_delete then None else inst_deleted_at i) ip d = (Inr i', d1)"
  shows "only_instances d d1" "inst_at d1 = (inst_at d)(iid \<mapsto> i')" "enters_pending c tid i i'"
  using pg_inst.upd_state_ok [OF assms(2)] assms(1) by (auto simp: enters_pending_def)

text \<open>
  An accepted delete found a live instance without an active task, releases its
  resources at once and leaves a queued delete task whose message is addressed to it.
\<close>

lemma delete_instance_effect:
  assumes "db_wf d" "delete_instance_handle cfg ids iid d = (Inr r, d')"
  shows "\<exists>i i' rp payload. inst_at d iid = Some i \<and> inst_status i \<noteq> deleted \<and> idle d iid \<and>
    enters_pending cmd_delete (new_task_id ids) i i' \<and>
    accepts cfg ids iid cmd_delete rp payload i' d r d' \<and>
    reverted_spec rp = Inr (inst_spec i) \<and> dget payload ''instance_id'' = JStr (uuid_str iid)"
proof -
  have dist: "distinct (map task_id (instance_tasks d))" using assms(1) by (simp add: db_wf_def)
  define c where "c = cmd_delete"
  obtain i i' d1 rp payload where i: "inst_at d iid = Some i" "inst_status i \<noteq> deleted" "idle d iid"
    and upd: "instance_update_state (hc_inet cfg) (at_time ids) iid (JStr (instance_status_str (pending_status c)))
        (c \<noteq> cmd_delete) (Some (new_task_id ids)) (if c = cmd_delete then None else inst_deleted_at i)
        (json_opt_str (inst_ip_address i)) d = (Inr i', d1)"
    and sub: "submit cfg ids iid c rp (''instance.'' @ task_command_str c) payload d1 = (Inr r, d')"
    and rp: "dget_default rp ''previous_spec'' (JObj []) = JObj (spec_entries (inst_spec i))"
    and payload: "dget payload ''instance_id'' = JStr (uuid_str iid)"
    using assms(2) by (auto simp: delete_instance_handle_def require_idle_ok [OF dist] c_def split: if_splits)
  have "reverted_spec rp = Inr (inst_spec i)"
    by (simp add: reverted_spec_def rp spec_of_payload_def spec_entries_def)
  then show ?thesis
    using i payload update_state_pending [OF i(1) upd]
      write_then_submit [OF assms(1) update_state_pending(1,2) [OF i(1) upd] i(1) sub]
    unfolding c_def by blast
qed


lemma require_quota_ok:
  "require_quota cfg chk d = (Inr u, d') \<Longrightarrow> d' = d \<and> (hc_quota_accounting cfg \<longrightarrow> assert_quota chk d = (Inr (), d))"
  by (auto simp: require_quota_def split: if_splits dest: quota.check_passed quota.check_failed)
     (metis quota.check_readonly snd_conv)+

lemma assert_capacity_ok: "assert_capacity chk d = (Inr u, d') \<Longrightarrow> d' = d"
  using capacity.check_readonly [of chk d] by simp

lemma previous_state_reverts:
  "st \<in> {running, stopped} \<Longrightarrow> inst_status i = st \<Longrightarrow> c \<in> {cmd_start, cmd_stop} \<Longrightarrow>
   reverted_status c ((''host_node'', JStr h) # previous_state i) = JStr (instance_status_str (inst_status i)) \<and>
   reverted_reserve c ((''host_node'', JStr h) # previous_state i) = inst_reserve_resources i \<and>
   dget ((''host_node'', JStr h) # previous_state i) ''previous_status'' = JStr (instance_status_str (inst_status i))"
  by (auto simp: reverted_status_def reverted_reserve_def previous_state_def py_or_def)

text \<open>
  An accepted stop found a running or stopped instance without an active task; what it
  records is exactly what a failure restores.
\<close>

lemma stop_instance_effect:
  assumes "db_wf d" "stop_instance_handle cfg ids iid d = (Inr r, d')"
  shows "\<exists>i i' rp payload. inst_at d iid = Some i \<and> inst_status i \<in> {running, stopped} \<and> idle d iid \<and>
    enters_pending cmd_stop (new_task_id ids) i i' \<and>
    accepts cfg ids iid cmd_stop rp payload i' d r d' \<and>
    dget rp ''previous_status'' = JStr (instance_status_str (inst_status i)) \<and>
    reverted_status cmd_stop rp = JStr (instance_status_str (inst_status i)) \<and>
    reverted_reserve cmd_stop rp = inst_reserve_resources i"
proof -
  have dist: "distinct (map task_id (instance_tasks d))" using assms(1) by (simp add: db_wf_def)
  define c where "c = cmd_stop"
  obtain i i' d1 payload where i: "inst_at d iid = Some i" "inst_status i \<in> {running, stopped}" "idle d iid"
    and upd: "instance_update_state (hc_inet cfg) (at_time ids) iid (JStr (instance_status_str (pending_status c)))
        (c \<noteq> cmd_delete) (Some (new_task_id ids)) (if c = cmd_delete then None else inst_deleted_at i)
        (json_opt_str (inst_ip_address i)) d = (Inr i', d1)"
    and sub: "submit cfg ids iid c ((''host_node'', JStr (inst_host_node i)) # previous_state i)
        (''instance.'' @ task_command_str c) payload d1 = (Inr r, d')"
    using assms(2) by (auto simp: stop_instance_handle_def require_idle_ok [OF dist] c_def split: if_splits)
  show ?thesis
    using i previous_state_reverts [OF i(2) refl, of cmd_stop "inst_host_node i"]
      update_state_pending [OF i(1) upd]
      write_then_submit [OF assms(1) update_state_pending(1,2) [OF i(1) upd] i(1) sub]
    unfolding c_def by blast
qed


section \<open>Commands that take resources\<close>

text \<open>
  After the write, the tenant is within its quota and the host within its capacity.
\<close>

definition resources_ok :: "handler_config \<Rightarrow> db \<Rightarrow> uuid \<Rightarrow> string \<Rightarrow> bool" where
  "resources_ok cfg d tid host \<longleftrightarrow>
     (hc_quota_accounting cfg \<longrightarrow> within_quota d tid (tenant_used d tid)) \<and>
     within_capacity d host (host_used d host)"

lemma same_directory_within:
  "same_directory d d' \<Longrightarrow> within_quota d' = within_quota d"
  "same_directory d d' \<Longrightarrow> within_capacity d' = within_capacity d"
  by (simp_all add: same_directory_def within_quota_def within_capacity_def fun_eq_iff)

lemma checked_quota:
  assumes "db_wf d" "accepts cfg ids iid c rp payload i d r d'"
    and "require_quota cfg \<lparr>chk_scope = inst_tenant_id i, chk_current = cur, chk_requested = inst_spec i,
          chk_current_profile = cp, chk_requested_profile = ''running''\<rparr> d = (Inr u, d)"
    and "valid_profile cp" "(case cur of None \<Rightarrow> 0 | Some sp \<Rightarrow> profile_amount cp sp) = amount_at d iid"
    and "inst_amount i = profile_amount ''running'' (inst_spec i)"
    and "\<And>i0. inst_at d iid = Some i0 \<Longrightarrow> inst_tenant_id i0 = inst_tenant_id i \<and> inst_host_node i0 = inst_host_node i"
    and "hc_quota_accounting cfg"
  shows "within_quota d' (inst_tenant_id i) (tenant_used d' (inst_tenant_id i))"
proof -
  let ?q = "\<lparr>chk_scope = inst_tenant_id i, chk_current = cur, chk_requested = inst_spec i,
          chk_current_profile = cp, chk_requested_profile = ''running''\<rparr>"
  have w: "distinct_instances d" "writes_instance d iid i d'" "same_directory d d'"
    using assms(1,2) by (simp_all add: db_wf_def accepts_def)
  have amounts: "current_amount ?q = amount_at d iid" "requested_amount ?q = inst_amount i"
    using assms(5,6) by (cases cur; simp add: current_amount_def requested_amount_def)+
  have "assert_quota ?q d = (Inr (), d)" using require_quota_ok [OF assms(3)] assms(8) by simp
  from quota.checked_write [OF this, of d'] show ?thesis
    using usage_after_write(2) [OF w(1,2) assms(7)] amounts same_directory_within(1) [OF w(3)] assms(4)
    by (simp add: valid_profile_def)
qed

lemma checked_accept:
  assumes "db_wf d" "accepts cfg ids iid c rp payload i d r d'"
    and "require_quota cfg \<lparr>chk_scope = inst_tenant_id i, chk_current = cur, chk_requested = inst_spec i,
          chk_current_profile = cp, chk_requested_profile = ''running''\<rparr> d = (Inr u, d)"
    and "assert_capacity \<lparr>chk_scope = inst_host_node i, chk_current = cur, chk_requested = inst_spec i,
          chk_current_profile = cp, chk_requested_profile = ''running''\<rparr> d = (Inr v, d)"
    and "valid_profile cp" "(case cur of None \<Rightarrow> 0 | Some sp \<Rightarrow> profile_amount cp sp) = amount_at d iid"
    and "inst_amount i = profile_amount ''running'' (inst_spec i)"
    and "\<And>i0. inst_at d iid = Some i0 \<Longrightarrow> inst_tenant_id i0 = inst_tenant_id i \<and> inst_host_node i0 = inst_host_node i"
  shows "resources_ok cfg d' (inst_tenant_id i) (inst_host_node i)"
proof -
  let ?c = "\<lparr>chk_scope = inst_host_node i, chk_current = cur, chk_requested = inst_spec i,
          chk_current_profile = cp, chk_requested_profile = ''running''\<rparr>"
  have w: "distinct_instances d" "writes_instance d iid i d'" "same_directory d d'"
    using assms(1,2) by (simp_all add: db_wf_def accepts_def)
  have amounts: "current_amount ?c = amount_at d iid" "requested_amount ?c = inst_amount i"
    using assms(6,7) by (cases cur; simp add: current_amount_def requested_amount_def)+
  have "within_capacity d' (inst_host_node i) (host_used d' (inst_host_node i))"
    using capacity.checked_write [OF assms(4), of d'] usage_after_write(3) [OF w(1,2) assms(8)] amounts
      same_directory_within(2) [OF w(3)] assms(5) by (simp add: valid_profile_def)
  then show ?thesis using checked_quota [OF assms(1-3,5-8)] by (simp add: resources_ok_def)
qed

lemma running_amount:
  "inst_status i \<notin> {stopped, deleted} \<Longrightarrow> inst_reserve_resources i \<Longrightarrow>
   inst_amount i = profile_amount ''running'' (inst_spec i)"
  by (simp add: inst_amount_def instance_profile_def)

lemma amount_at_profile:
  "inst_at d iid = Some i \<Longrightarrow> inst_status i \<noteq> deleted \<Longrightarrow>
   amount_at d iid = profile_amount (profile_for_instance (inst_status i) (inst_reserve_resources i)) (inst_spec i)"
  by (simp add: amount_at_def inst_amount_def instance_profile_def profile_for_instance_def)

lemma instance_create_ok:
  assumes "db_wf d" "instance_create i d = (Inr i', d1)"
  shows "i' = i" "inst_at d (inst_id i) = None" "inst_at d1 = (inst_at d)(inst_id i \<mapsto> i)"
    "map im_id (instances d1) = map im_id (instances d) @ [inst_id i]" "same_directory d d1"
    "db_wf d1" "task_at d1 = task_at d" "outbox_at d1 = outbox_at d"
proof -
  let ?row = "\<lparr>im_id = inst_id i, im_tenant_id = inst_tenant_id i, im_name = inst_name i,
        im_cpu = cpu (inst_spec i), im_memory_mib = memory_mib (inst_spec i),
        im_disk_gib = disk_gib (inst_spec i), im_status = inst_status i,
        im_ip_address = inst_ip_address i, im_host_node = inst_host_node i,
        im_reserve_resources = inst_reserve_resources i, im_last_task_id = inst_last_task_id i,
        im_deleted_at = inst_deleted_at i, im_created_at = inst_created_at i,
        im_updated_at = inst_updated_at i\<rparr>"
  have row: "to_instance ?row = i" by (simp add: to_instance_def)
  have ok: "instance_violates d ?row = None" and d1: "d1 = instances_update (\<lambda>rs. rs @ [?row]) d"
    and i': "i' = to_instance ?row"
    using assms(2) by (auto simp: instance_create_def sql_insert_def split: option.splits)
  show "i' = i" using i' row by simp
  have fresh: "row_of im_id (inst_id i) (instances d) = None"
    using ok by (auto simp: instance_violates_def exists_row_def split: if_splits)
  then show "inst_at d (inst_id i) = None" by (simp add: inst_at_def)
  show "inst_at d1 = (inst_at d)(inst_id i \<mapsto> i)"
    using fresh row by (auto simp: d1 inst_at_def row_of_append fun_eq_iff split: option.splits)
  show ids: "map im_id (instances d1) = map im_id (instances d) @ [inst_id i]" by (simp add: d1)
  show "same_directory d d1" by (simp add: d1 same_directory_def)
  show t: "task_at d1 = task_at d" and "outbox_at d1 = outbox_at d"
    by (simp_all add: d1 task_at_def outbox_at_def fun_eq_iff)
  have "distinct_instances d1"
    using assms(1) fresh unfolding distinct_instances_def ids by (simp add: db_wf_def distinct_instances_def row_of_None_iff)
  then show "db_wf d1" using assms(1) unfolding db_wf_def t by (simp add: d1 outbox_inv_def)
qed

text \<open>
  An accepted creation had a positive specification, makes a new pending instance
  with that specification, and leaves its tenant within quota and its host within capacity.
\<close>

lemma create_instance_effect:
  assumes "db_wf d" "create_instance_handle cfg ids cmd d = (Inr r, d')"
  shows "\<exists>i rp payload. inst_at d (new_instance_id ids) = None \<and>
    positive_spec (inst_spec i) \<and> inst_status i = creating_pending \<and>
    inst_id i = new_instance_id ids \<and> inst_tenant_id i = cr_tenant_id cmd \<and> inst_host_node i = cr_host_node cmd \<and>
    inst_last_task_id i = Some (new_task_id ids) \<and> inst_reserve_resources i \<and> inst_deleted_at i = None \<and>
    inst_spec i = \<lparr>cpu = cr_cpu cmd, memory_mib = cr_memory_mib cmd, disk_gib = cr_disk_gib cmd\<rparr> \<and>
    accepts cfg ids (new_instance_id ids) cmd_create rp payload i d r d' \<and>
    (\<forall>fallback. spec_of_payload rp fallback = Inr (inst_spec i)) \<and>
    resources_ok cfg d' (cr_tenant_id cmd) (cr_host_node cmd)"
proof -
  define i where "i = \<lparr>inst_id = new_instance_id ids, inst_name = cr_name cmd,
         inst_spec = \<lparr>cpu = cr_cpu cmd, memory_mib = cr_memory_mib cmd, disk_gib = cr_disk_gib cmd\<rparr>,
         inst_status = creating_pending, inst_ip_address = None, inst_host_node = cr_host_node cmd,
         inst_reserve_resources = True, inst_last_task_id = Some (new_task_id ids),
         inst_deleted_at = None, inst_created_at = at_time ids, inst_updated_at = at_time ids,
         inst_tenant_id = cr_tenant_id cmd\<rparr>"
  have i_sel: "inst_id i = new_instance_id ids" "inst_tenant_id i = cr_tenant_id cmd"
      "inst_host_node i = cr_host_node cmd" "inst_status i = creating_pending"
      "inst_reserve_resources i" "inst_deleted_at i = None" "inst_last_task_id i = Some (new_task_id ids)"
      "inst_spec i = \<lparr>cpu = cr_cpu cmd, memory_mib = cr_memory_mib cmd, disk_gib = cr_disk_gib cmd\<rparr>"
    by (simp_all add: i_def)
  define rp where "rp = [(''name'', json_opt_str (cr_name cmd))] @ spec_entries (inst_spec i) @
         [(''host_node'', JStr (cr_host_node cmd)), (''tenant_id'', JStr (uuid_str (cr_tenant_id cmd)))] @
         image_entry (cr_image_id cmd)"
  have req: "\<forall>fallback. spec_of_payload rp fallback = Inr (inst_spec i)"
    by (simp add: rp_def spec_of_payload_def spec_entries_def)
  obtain u v i' d0 d1 d2 payload where pos: "positive_spec (inst_spec i)"
    and q: "require_quota cfg \<lparr>chk_scope = inst_tenant_id i, chk_current = None, chk_requested = inst_spec i,
          chk_current_profile = ''none'', chk_requested_profile = ''running''\<rparr> d = (Inr u, d0)"
    and c: "assert_capacity \<lparr>chk_scope = inst_host_node i, chk_current = None, chk_requested = inst_spec i,
          chk_current_profile = ''none'', chk_requested_profile = ''running''\<rparr> d0 = (Inr v, d1)"
    and cre: "instance_create i d1 = (Inr i', d2)"
    and sub: "submit cfg ids (inst_id i) cmd_create rp (''instance.'' @ task_command_str cmd_create) payload d2 = (Inr r, d')"
    using assms(2) unfolding i_sel
    by (auto simp: create_instance_handle_def Let_def i_def rp_def)
  have d: "d0 = d" "d1 = d" using require_quota_ok [OF q] assert_capacity_ok [OF c] by simp_all
  note new = instance_create_ok [OF assms(1) cre [unfolded d]]
  note sub' = submit_ok [OF new(6) sub]
  have "inst_at d' = inst_at d2" using sub'(2) by (simp add: inst_at_def fun_eq_iff)
  then have acc: "accepts cfg ids (inst_id i) cmd_create rp payload i d r d'"
    using new sub' same_directory_trans [OF new(5) sub'(3)] by (simp add: accepts_def writes_instance_def)
  have "resources_ok cfg d' (inst_tenant_id i) (inst_host_node i)"
    by (rule checked_accept [OF assms(1) acc q [unfolded d] c [unfolded d]])
       (use new(2) i_sel in \<open>auto simp: valid_profile_def amount_at_def inst_amount_def instance_profile_def\<close>)
  then show ?thesis using new(2) pos acc req i_sel by (metis (no_types))
qed


text \<open>
  An accepted start of a stopped instance that holds its reservation leaves its
  tenant within quota and its host within capacity; what it records is what a failure restores.
\<close>

lemma start_instance_effect:
  assumes "db_wf d" "start_instance_handle cfg ids iid host d = (Inr r, d')"
  shows "\<exists>i i' rp payload. inst_at d iid = Some i \<and> inst_status i \<in> {running, stopped} \<and> idle d iid \<and>
    enters_pending cmd_start (new_task_id ids) i i' \<and>
    accepts cfg ids iid cmd_start rp payload i' d r d' \<and>
    dget rp ''previous_status'' = JStr (instance_status_str (inst_status i)) \<and>
    reverted_status cmd_start rp = JStr (instance_status_str (inst_status i)) \<and>
    reverted_reserve cmd_start rp = inst_reserve_resources i \<and>
    (inst_status i = stopped \<longrightarrow> inst_reserve_resources i \<longrightarrow> host = inst_host_node i \<longrightarrow>
       resources_ok cfg d' (inst_tenant_id i) host)"
proof -
  have dist: "distinct (map task_id (instance_tasks d))" using assms(1) by (simp add: db_wf_def)
  define c where "c = cmd_start"
  obtain i i' u d0 d1 payload where i: "inst_at d iid = Some i" "inst_status i \<in> {running, stopped}" "idle d iid"
    and chk: "(if inst_status i = stopped then
              bindM (require_quota cfg \<lparr>chk_scope = inst_tenant_id i, chk_current = Some (inst_spec i),
                chk_requested = inst_spec i, chk_current_profile = ''stopped'',
                chk_requested_profile = ''running''\<rparr>) (\<lambda>_.
              assert_capacity \<lparr>chk_scope = host, chk_current = Some (inst_spec i),
                chk_requested = inst_spec i, chk_current_profile = ''stopped'',
                chk_requested_profile = ''running''\<rparr>)
            else returnM ()) d = (Inr u, d0)"
    and upd: "instance_update_state (hc_inet cfg) (at_time ids) iid (JStr (instance_status_str (pending_status c)))
        (c \<noteq> cmd_delete) (Some (new_task_id ids)) (if c = cmd_delete then None else inst_deleted_at i)
        (json_opt_str (inst_ip_address i)) d0 = (Inr i', d1)"
    and sub: "submit cfg ids iid c ((''host_node'', JStr host) # previous_state i)
        (''instance.'' @ task_command_str c) payload d1 = (Inr r, d')"
    using assms(2) by (auto simp: start_instance_handle_def require_idle_ok [OF dist] c_def simp del: bindM_Inr_iff
        dest!: bindM_Inr_iff [THEN iffD1] split: if_splits)
  have d0: "d0 = d" using chk require_quota_ok assert_capacity_ok by (auto split: if_splits) blast+
  note upd = upd [unfolded d0]
  note enter = update_state_pending [OF i(1) upd]
  have acc: "accepts cfg ids iid c ((''host_node'', JStr host) # previous_state i) payload i' d r d'"
    by (rule write_then_submit [OF assms(1) enter(1,2) i(1) sub])
  have "resources_ok cfg d' (inst_tenant_id i) host"
    if st: "inst_status i = stopped" "inst_reserve_resources i" "host = inst_host_node i"
  proof -
    have i': "inst_tenant_id i' = inst_tenant_id i" "inst_host_node i' = inst_host_node i"
        "inst_spec i' = inst_spec i" "inst_amount i' = profile_amount ''running'' (inst_spec i')"
      using enter(3) running_amount [of i'] by (auto simp: enters_pending_def c_def)
    obtain u v where q: "require_quota cfg \<lparr>chk_scope = inst_tenant_id i', chk_current = Some (inst_spec i),
          chk_requested = inst_spec i', chk_current_profile = ''stopped'', chk_requested_profile = ''running''\<rparr> d = (Inr u, d)"
      and k: "assert_capacity \<lparr>chk_scope = inst_host_node i', chk_current = Some (inst_spec i),
          chk_requested = inst_spec i', chk_current_profile = ''stopped'', chk_requested_profile = ''running''\<rparr> d = (Inr v, d)"
      using chk st i' d0 by (auto dest: require_quota_ok)
    have "resources_ok cfg d' (inst_tenant_id i') (inst_host_node i')"
      by (rule checked_accept [OF assms(1) acc q k])
         (use i st i' in \<open>auto simp: valid_profile_def amount_at_def inst_amount_def instance_profile_def\<close>)
    then show ?thesis using i' st by simp
  qed
  then show ?thesis
    using i previous_state_reverts [OF i(2) refl, of cmd_start host] enter(3) acc
    unfolding c_def by blast
qed


lemma update_spec_pending:
  assumes "inst_at d iid = Some i"
    "instance_update_spec inet now iid sp (JStr ''updating_pending'') ip True (Some tid) (inst_deleted_at i) d = (Inr i', d1)"
  shows "only_instances d d1" "inst_at d1 = (inst_at d)(iid \<mapsto> i')" "enters_pending cmd_update tid i i'"
    "inst_spec i' = sp"
  using pg_inst.upd_spec_ok [OF assms(2)] assms(1) by (auto simp: enters_pending_def)

text \<open>
  An accepted update takes the new specification over, records the old one for the
  revert, and leaves the tenant within its quota when the instance was not stopped.  The capacity
  it was checked against is that of the host the command names, which need not be the host
  of the instance.
\<close>

lemma update_instance_effect:
  assumes "db_wf d" "update_instance_handle cfg ids cmd d = (Inr r, d')"
  shows "\<exists>i i' rp payload. inst_at d (up_instance_id cmd) = Some i \<and> inst_status i \<noteq> deleted \<and>
    idle d (up_instance_id cmd) \<and> positive_spec (inst_spec i') \<and>
    inst_spec i' = \<lparr>cpu = up_cpu cmd, memory_mib = up_memory_mib cmd, disk_gib = up_disk_gib cmd\<rparr> \<and>
    enters_pending cmd_update (new_task_id ids) i i' \<and>
    accepts cfg ids (up_instance_id cmd) cmd_update rp payload i' d r d' \<and>
    reverted_spec rp = Inr (inst_spec i) \<and>
    (\<forall>fallback. spec_of_payload rp fallback = Inr (inst_spec i')) \<and>
    dget rp ''boot_after_update'' = JBool (inst_status i \<noteq> stopped) \<and>
    (inst_deleted_at i = None \<longrightarrow> dget rp ''previous_deleted_at'' = JNull) \<and>
    (inst_status i \<noteq> stopped \<longrightarrow>
       (hc_quota_accounting cfg \<longrightarrow> within_quota d' (inst_tenant_id i) (tenant_used d' (inst_tenant_id i))) \<and>
       within_capacity d' (up_host_node cmd) (host_used d (up_host_node cmd) - inst_amount i + inst_amount i'))"
proof -
  have dist: "distinct (map task_id (instance_tasks d))" using assms(1) by (simp add: db_wf_def)
  let ?iid = "up_instance_id cmd"
  let ?sp = "\<lparr>cpu = up_cpu cmd, memory_mib = up_memory_mib cmd, disk_gib = up_disk_gib cmd\<rparr>"
  obtain i i' u v d0 d1 d2 payload where i: "inst_at d ?iid = Some i" "inst_status i \<noteq> deleted" "idle d ?iid"
    and pos: "positive_spec ?sp"
    and q: "require_quota cfg \<lparr>chk_scope = inst_tenant_id i, chk_current = Some (inst_spec i), chk_requested = ?sp,
          chk_current_profile = profile_for_instance (inst_status i) (inst_reserve_resources i),
          chk_requested_profile = updated_profile (inst_status i)\<rparr> d = (Inr u, d0)"
    and k: "assert_capacity \<lparr>chk_scope = up_host_node cmd, chk_current = Some (inst_spec i), chk_requested = ?sp,
          chk_current_profile = profile_for_instance (inst_status i) (inst_reserve_resources i),
          chk_requested_profile = updated_profile (inst_status i)\<rparr> d0 = (Inr v, d1)"
    and upd: "instance_update_spec (hc_inet cfg) (at_time ids) ?iid ?sp (JStr ''updating_pending'')
        (json_opt_str (inst_ip_address i)) True (Some (new_task_id ids)) (inst_deleted_at i) d1 = (Inr i', d2)"
    and sub: "submit cfg ids ?iid cmd_update (update_request cmd ?sp i)
        (''instance.'' @ task_command_str cmd_update) payload d2 = (Inr r, d')"
    using assms(2)
    by (auto simp: update_instance_handle_def Let_def require_idle_ok [OF dist] split: if_splits)
  have d01: "d0 = d" "d1 = d" using require_quota_ok [OF q] assert_capacity_ok [OF k] by simp_all
  note enter = update_spec_pending [OF i(1) upd [unfolded d01]]
  have acc: "accepts cfg ids ?iid cmd_update (update_request cmd ?sp i) payload i' d r d'"
    by (rule write_then_submit [OF assms(1) enter(1,2) i(1) sub])
  have rp: "reverted_spec (update_request cmd ?sp i) = Inr (inst_spec i)"
      "dget (update_request cmd ?sp i) ''boot_after_update'' = JBool (inst_status i \<noteq> stopped)"
      "inst_deleted_at i = None \<Longrightarrow> dget (update_request cmd ?sp i) ''previous_deleted_at'' = JNull"
      "\<forall>fallback. spec_of_payload (update_request cmd ?sp i) fallback = Inr ?sp"
    by (simp_all add: update_request_def reverted_spec_def spec_of_payload_def spec_entries_def)
  have "(hc_quota_accounting cfg \<longrightarrow> within_quota d' (inst_tenant_id i) (tenant_used d' (inst_tenant_id i))) \<and>
       within_capacity d' (up_host_node cmd) (host_used d (up_host_node cmd) - inst_amount i + inst_amount i')"
    if st: "inst_status i \<noteq> stopped"
  proof -
    have i': "inst_tenant_id i' = inst_tenant_id i" "inst_host_node i' = inst_host_node i"
        "inst_amount i' = profile_amount ''running'' (inst_spec i')" "inst_spec i' = ?sp"
      using enter(3,4) running_amount [of i'] by (auto simp: enters_pending_def)
    let ?p = "profile_for_instance (inst_status i) (inst_reserve_resources i)"
    have p: "valid_profile ?p" "inst_amount i = profile_amount ?p (inst_spec i)"
      using amount_at_profile [OF i(1,2)] i(1) by (simp_all add: valid_profile_def profile_for_instance_def amount_at_def)
    have run: "updated_profile (inst_status i) = ''running''" using st by (simp add: updated_profile_def)
    then have q': "require_quota cfg \<lparr>chk_scope = inst_tenant_id i', chk_current = Some (inst_spec i),
          chk_requested = inst_spec i', chk_current_profile = ?p, chk_requested_profile = ''running''\<rparr> d = (Inr u, d)"
      using q i' d01 by simp
    have "within_quota d' (inst_tenant_id i') (tenant_used d' (inst_tenant_id i'))" if "hc_quota_accounting cfg"
      by (rule checked_quota [OF assms(1) acc q' _ _ i'(3) _ that])
         (use i i' p in \<open>auto simp: amount_at_profile\<close>)
    moreover have "within_capacity d' = within_capacity d"
      using acc by (intro same_directory_within(2)) (simp add: accepts_def)
    moreover have "within_capacity d (up_host_node cmd)
        (host_used d (up_host_node cmd) - profile_amount ?p (inst_spec i) + profile_amount ''running'' ?sp)"
      using capacity.check_passed [OF k [unfolded d01 run]] p(1)
      by (simp add: valid_profile_def current_amount_def requested_amount_def)
    ultimately show ?thesis using i' p(2) by simp
  qed
  moreover have "positive_spec (inst_spec i')" using pos enter(4) by simp
  ultimately show ?thesis using i enter(3,4) acc rp
    by (intro exI [of _ i] exI [of _ i'] exI [of _ "update_request cmd ?sp i"] exI [of _ payload]) simp
qed


section \<open>A small database\<close>

definition example_tenant :: tenant where
  "example_tenant = \<lparr>ten_id = 1, ten_key = ''acme'', ten_name = ''Acme'', ten_is_active = True,
     ten_created_at = 0, ten_updated_at = 0\<rparr>"

definition example_quota :: tenant_quota where
  "example_quota = \<lparr>quo_tenant_id = 1, max_instances = 2, max_cpu = 4, max_memory_mib = 4096,
     max_disk_gib = 50, quo_updated_at = 0\<rparr>"

definition example_host :: resource_capacity_model where
  "example_host = \<lparr>cap_host_node = ''node'', total_cpu = 16, total_memory_mib = 32768, total_disk_gib = 500\<rparr>"

definition example_instance :: "instance_status \<Rightarrow> instance_model" where
  "example_instance st = \<lparr>im_id = 9, im_tenant_id = 1, im_name = None, im_cpu = 2, im_memory_mib = 1024,
     im_disk_gib = 10, im_status = st, im_ip_address = None, im_host_node = ''node'',
     im_reserve_resources = True, im_last_task_id = None, im_deleted_at = None, im_created_at = 0,
     im_updated_at = 0\<rparr>"

definition example_db :: "instance_status \<Rightarrow> db" where
  "example_db st = empty_db\<lparr>tenants := [example_tenant], tenant_quotas := [example_quota],
     resource_capacity := [example_host], instances := [example_instance st]\<rparr>"

definition example_config :: handler_config where
  "example_config = handler_config_of True 20 Some (\<lambda>_. [])"

definition example_ids :: fresh_ids where
  "example_ids = \<lparr>new_instance_id = 10, new_task_id = 11, new_request_id = 12, new_outbox_id = 13, at_time = 1000\<rparr>"

lemma example_db_wf: "db_wf (example_db st)"
  by (simp add: example_db_def empty_db_def example_instance_def db_wf_def distinct_instances_def outbox_inv_def)


lemma example_at [simp]: "inst_at (example_db st) 9 = Some (to_instance (example_instance st))"
  by (simp add: example_db_def inst_at_def example_instance_def)

lemma example_sel [simp]:
  "im_tenant_id (example_instance st) = 1" "im_status (example_instance st) = st"
  "im_reserve_resources (example_instance st)" "im_host_node (example_instance st) = ''node''"
  "im_disk_gib (example_instance st) = 10" "im_deleted_at (example_instance st) = None"
  by (simp_all add: example_instance_def)

lemma run_pair: "fst x = Inr r \<Longrightarrow> x = (Inr r, snd x)"
  by (metis prod.collapse)

section \<open>The checks at a concrete input\<close>

definition example_quota_check :: tenant_quota_check_input where
  "example_quota_check = \<lparr>chk_scope = 1, chk_current = None,
     chk_requested = \<lparr>cpu = 2, memory_mib = 1024, disk_gib = 10\<rparr>, chk_current_profile = ''none'',
     chk_requested_profile = ''running''\<rparr>"

theorem assert_quota_iff_witness:
  "within_quota (example_db running) 1 (tenant_used (example_db running) 1 + Amount 1 2 1024 10)"
proof -
  have "assert_quota example_quota_check (example_db running) = (Inr (), example_db running)"
    by code_simp
  then show ?thesis
    using assert_quota_iff [of example_quota_check "example_db running"]
    by (simp add: valid_profile_def example_quota_check_def current_amount_def requested_amount_def
        profile_amount_def)
qed

definition example_capacity_check :: capacity_check_input where
  "example_capacity_check = \<lparr>chk_scope = ''node'', chk_current = None,
     chk_requested = \<lparr>cpu = 15, memory_mib = 1024, disk_gib = 10\<rparr>, chk_current_profile = ''none'',
     chk_requested_profile = ''running''\<rparr>"

theorem assert_capacity_iff_witness:
  "\<not> within_capacity (example_db running) ''node''
     (host_used (example_db running) ''node'' + Amount 1 15 1024 10)"
proof -
  have "fst (assert_capacity example_capacity_check (example_db running)) =
      Inl (CapacityExceededError ''cpu capacity exceeded'')"
    by code_simp
  then show ?thesis
    using assert_capacity_iff [of example_capacity_check "example_db running"]
    by (auto simp: valid_profile_def example_capacity_check_def current_amount_def requested_amount_def
        profile_amount_def)
qed

section \<open>Properties\<close>

text \<open>
  C11: an accepted creation leaves its tenant within quota and its host within capacity,
  having taken exactly the requested resources.
\<close>

theorem create_within_limits:
  assumes "db_wf d" "create_instance_handle cfg ids cmd d = (Inr r, d')"
  shows "resources_ok cfg d' (cr_tenant_id cmd) (cr_host_node cmd) \<and>
    tenant_used d' (cr_tenant_id cmd) = tenant_used d (cr_tenant_id cmd) +
      Amount 1 (cr_cpu cmd) (cr_memory_mib cmd) (cr_disk_gib cmd)"
proof -
  obtain i rp payload where i: "inst_at d (new_instance_id ids) = None" "inst_status i = creating_pending"
      "inst_tenant_id i = cr_tenant_id cmd" "inst_reserve_resources i"
      "inst_spec i = \<lparr>cpu = cr_cpu cmd, memory_mib = cr_memory_mib cmd, disk_gib = cr_disk_gib cmd\<rparr>"
    and acc: "accepts cfg ids (new_instance_id ids) cmd_create rp payload i d r d'"
    and ok: "resources_ok cfg d' (cr_tenant_id cmd) (cr_host_node cmd)"
    using create_instance_effect [OF assms] by blast
  have "distinct_instances d" "writes_instance d (new_instance_id ids) i d'"
    using assms(1) acc by (simp_all add: db_wf_def accepts_def)
  from usage_after_write(2) [OF this] show ?thesis
    using i ok by (simp add: amount_at_def inst_amount_def instance_profile_def profile_amount_def)
qed

definition example_create :: create_instance_command where
  "example_create = \<lparr>cr_cpu = 2, cr_memory_mib = 1024, cr_disk_gib = 10, cr_name = None,
     cr_host_node = ''node'', cr_image_id = None, cr_tenant_id = 1\<rparr>"

theorem create_within_limits_witness:
  "resources_ok example_config (snd (create_instance_handle example_config example_ids example_create
     (example_db running))) 1 ''node''"
proof -
  have "fst (create_instance_handle example_config example_ids example_create (example_db running)) =
      Inr (accepted example_ids 10 cmd_create)"
    by code_simp
  from create_within_limits [OF example_db_wf run_pair [OF this]] show ?thesis
    by (simp add: example_create_def)
qed

text \<open>
  An accepted start of a stopped instance that holds its reservation, on its own
  host, leaves tenant and host within their limits, having taken its CPU and memory.
\<close>

theorem start_within_limits:
  assumes "db_wf d" "start_instance_handle cfg ids iid host d = (Inr r, d')"
    "inst_at d iid = Some i" "inst_status i = stopped" "inst_reserve_resources i" "host = inst_host_node i"
  shows "resources_ok cfg d' (inst_tenant_id i) host \<and>
    tenant_used d' (inst_tenant_id i) = tenant_used d (inst_tenant_id i) +
      Amount 0 (cpu (inst_spec i)) (memory_mib (inst_spec i)) 0"
proof -
  obtain i' rp payload where e: "enters_pending cmd_start (new_task_id ids) i i'"
    and acc: "accepts cfg ids iid cmd_start rp payload i' d r d'"
    and ok: "resources_ok cfg d' (inst_tenant_id i) host"
    using start_instance_effect [OF assms(1,2)] assms(3-6) by auto
  have "distinct_instances d" "writes_instance d iid i' d'"
    using assms(1) acc by (simp_all add: db_wf_def accepts_def)
  from usage_after_write(2) [OF this] show ?thesis
    using assms(3-5) e ok
    by (simp add: amount_at_def inst_amount_def instance_profile_def profile_amount_def
        enters_pending_def amount.expand)
qed

theorem start_within_limits_witness:
  "resources_ok example_config (snd (start_instance_handle example_config example_ids 9 ''node''
     (example_db stopped))) 1 ''node''"
proof -
  have "fst (start_instance_handle example_config example_ids 9 ''node'' (example_db stopped)) =
      Inr (accepted example_ids 9 cmd_start)"
    by code_simp
  from start_within_limits [OF example_db_wf run_pair [OF this] example_at] show ?thesis by simp
qed

text \<open>
  C12: an accepted update of an instance that is not stopped puts the new specification in the
  place of the old one in the usage of tenant and host, leaves the tenant within its quota, and
  passed the capacity check on the host the command names.  So the host is within its
  capacity too when that is the host of the instance; the handler does not ask.
\<close>

theorem update_within_limits:
  assumes "db_wf d" "update_instance_handle cfg ids cmd d = (Inr r, d')"
    "inst_at d (up_instance_id cmd) = Some i" "inst_status i \<noteq> stopped"
  defines "taken \<equiv> Amount 1 (up_cpu cmd) (up_memory_mib cmd) (up_disk_gib cmd)"
  shows "tenant_used d' (inst_tenant_id i) = tenant_used d (inst_tenant_id i) - inst_amount i + taken \<and>
    host_used d' (inst_host_node i) = host_used d (inst_host_node i) - inst_amount i + taken \<and>
    (hc_quota_accounting cfg \<longrightarrow> within_quota d' (inst_tenant_id i) (tenant_used d' (inst_tenant_id i))) \<and>
    within_capacity d' (up_host_node cmd) (host_used d (up_host_node cmd) - inst_amount i + taken) \<and>
    (up_host_node cmd = inst_host_node i \<longrightarrow> resources_ok cfg d' (inst_tenant_id i) (up_host_node cmd))"
proof -
  obtain i' rp payload where e: "enters_pending cmd_update (new_task_id ids) i i'"
      "inst_spec i' = \<lparr>cpu = up_cpu cmd, memory_mib = up_memory_mib cmd, disk_gib = up_disk_gib cmd\<rparr>"
    and acc: "accepts cfg ids (up_instance_id cmd) cmd_update rp payload i' d r d'"
    and ok: "hc_quota_accounting cfg \<longrightarrow> within_quota d' (inst_tenant_id i) (tenant_used d' (inst_tenant_id i))"
      "within_capacity d' (up_host_node cmd) (host_used d (up_host_node cmd) - inst_amount i + inst_amount i')"
    using update_instance_effect [OF assms(1,2)] assms(3,4) by auto
  have i': "inst_amount i' = taken" "inst_tenant_id i' = inst_tenant_id i" "inst_host_node i' = inst_host_node i"
    using e by (simp_all add: taken_def inst_amount_def instance_profile_def profile_amount_def enters_pending_def)
  have "distinct_instances d" "writes_instance d (up_instance_id cmd) i' d'"
    using assms(1) acc by (simp_all add: db_wf_def accepts_def)
  from usage_after_write(2,3) [OF this] have
    "tenant_used d' (inst_tenant_id i) = tenant_used d (inst_tenant_id i) - inst_amount i + taken"
    "host_used d' (inst_host_node i) = host_used d (inst_host_node i) - inst_amount i + taken"
    using assms(3) i' by (simp_all add: amount_at_def)
  then show ?thesis using ok i'(1) by (auto simp: resources_ok_def)
qed

definition example_update :: "int \<Rightarrow> update_instance_command" where
  "example_update n = \<lparr>up_instance_id = 9, up_cpu = n, up_memory_mib = 1024, up_disk_gib = 10,
     up_host_node = ''node''\<rparr>"

theorem update_within_limits_witness:
  "resources_ok example_config (snd (update_instance_handle example_config example_ids (example_update 4)
     (example_db running))) 1 ''node''"
proof -
  have "fst (update_instance_handle example_config example_ids (example_update 4) (example_db running)) =
      Inr (accepted example_ids 9 cmd_update)"
    by code_simp
  from update_within_limits [OF example_db_wf run_pair [OF this]] show ?thesis
    by (simp add: example_update_def)
qed



end
