(* ===== verification/Task_Commands.thy ===== *)
theory Task_Commands
  imports Instance_Commands
begin

text \<open>
  \<^verbatim>\<open>application/commands/task_commands.py\<close>: canceling a task and retrying a failed or
  canceled one.
\<close>

record cancel_task_command =
  ca_task_id :: uuid
  ca_actor_user_id :: "uuid option"
  ca_reason :: "string option"

definition task_missing :: "uuid \<Rightarrow> error" where
  "task_missing tid = NotFoundError (''task '' @ uuid_str tid @ '' not found'')"

definition require_task :: "uuid \<Rightarrow> instance_task db_act" where
  "require_task tid =
     bindM (task_get_for_update tid) (\<lambda>found.
       case found of None \<Rightarrow> raiseM (task_missing tid) | Some t \<Rightarrow> returnM t)"

definition revert_db ::
  "(string \<Rightarrow> string option) \<Rightarrow> timestamp \<Rightarrow> uuid \<Rightarrow> task_command \<Rightarrow> dict \<Rightarrow> unit db_act" where
  "revert_db inet now =
     revert_instance_state_on_terminal_failure (instance_update_spec inet now) (instance_update_state inet now)"

definition apply_pending_db ::
  "(string \<Rightarrow> string option) \<Rightarrow> timestamp \<Rightarrow> vm_instance \<Rightarrow> task_command \<Rightarrow> dict \<Rightarrow> uuid \<Rightarrow> unit db_act" where
  "apply_pending_db inet now =
     apply_pending_instance_state (instance_update_spec inet now) (instance_update_state inet now)"

definition str_or :: "string option \<Rightarrow> string \<Rightarrow> string" where
  \<comment> \<open>\<^verbatim>\<open>s or default\<close> of an optional string\<close>
  "str_or s fallback = (case s of None \<Rightarrow> fallback | Some x \<Rightarrow> if x = [] then fallback else x)"

definition outcome_of :: "instance_task \<Rightarrow> timestamp \<Rightarrow> task_accepted" where
  "outcome_of t now = \<lparr>acc_task_id = task_id t, acc_instance_id = task_instance_id t,
     acc_command = task_cmd t, acc_status = task_stat t, acc_accepted_at = now\<rparr>"

definition cancel_task_handle ::
  "handler_config \<Rightarrow> fresh_ids \<Rightarrow> cancel_task_command \<Rightarrow> task_accepted db_act" where
  "cancel_task_handle cfg ids cmd =
     (let now = at_time ids in
     bindM (require_task (ca_task_id cmd)) (\<lambda>t.
     bindM (require_instance (task_instance_id t)) (\<lambda>i.
     case task_stat t of
       task_queued \<Rightarrow>
         bindM (revert_db (hc_inet cfg) now (inst_id i) (task_cmd t) (task_request_payload t)) (\<lambda>_.
         bindM (mark_canceled now (task_id t) (task_attempt_count t) (ca_actor_user_id cmd) (ca_reason cmd)
                  JNull (JStr ''CANCELED'') (JStr (str_or (ca_reason cmd) ''task canceled before execution'')))
           (\<lambda>c. returnM (outcome_of c now)))
     | task_running \<Rightarrow>
         bindM (mark_cancel_pending now (task_id t) (ca_actor_user_id cmd) (ca_reason cmd)) (\<lambda>c.
         bindM (enqueue_command (new_outbox_id ids) now ''instance.cancel''
                  [(''instance_id'', JStr (uuid_str (inst_id i))),
                   (''target_task_id'', JStr (uuid_str (task_id t))),
                   (''target_command'', JStr (task_command_str (task_cmd t))),
                   (''reason'', json_opt_str (ca_reason cmd))]
                  (task_id t) (new_request_id ids) (hc_outbox_max_attempts cfg))
           (\<lambda>_. returnM (outcome_of c now)))
     | cancel_pending \<Rightarrow> returnM (outcome_of t now)
     | canceled \<Rightarrow> returnM (outcome_of t now)
     | _ \<Rightarrow> raiseM (ConflictError (''task '' @ uuid_str (task_id t) @ '' cannot be canceled from status '' @
              task_status_str (task_stat t))))))"

text \<open>\<^verbatim>\<open>str(v)\<close> of a JSON value.\<close>

definition py_str :: "handler_config \<Rightarrow> json \<Rightarrow> string" where
  "py_str cfg v = (case v of JStr s \<Rightarrow> s | _ \<Rightarrow> hc_repr cfg v)"

definition requested_profile :: "task_command \<Rightarrow> dict \<Rightarrow> string" where
  "requested_profile c payload =
     (if c = cmd_stop then ''stopped''
      else if c = cmd_update \<and> \<not> truthy (dget_default payload ''boot_after_update'' (JBool True))
      then ''stopped''
      else if c \<in> {cmd_create, cmd_update, cmd_start} then ''running''
      else ''none'')"

definition int_entries :: "dict \<Rightarrow> error + dict" where
  "int_entries payload =
     (case py_int (dget payload ''cpu'') of Inl e \<Rightarrow> Inl e | Inr c \<Rightarrow>
      case py_int (dget payload ''memory_mib'') of Inl e \<Rightarrow> Inl e | Inr m \<Rightarrow>
      case py_int (dget payload ''disk_gib'') of Inl e \<Rightarrow> Inl e | Inr g \<Rightarrow>
        Inr (spec_entries \<lparr>cpu = c, memory_mib = m, disk_gib = g\<rparr>))"

definition command_payload ::
  "handler_config \<Rightarrow> task_command \<Rightarrow> uuid \<Rightarrow> dict \<Rightarrow> string \<Rightarrow> error + dict" where
  "command_payload cfg c iid payload host =
     (let head = (''instance_id'', JStr (uuid_str iid)); tail = (''host_node'', JStr host) in
      case c of
        cmd_create \<Rightarrow> (case int_entries payload of Inl e \<Rightarrow> Inl e | Inr es \<Rightarrow>
          Inr ([head, (''name'', dget payload ''name'')] @ es @ [tail] @
            (if truthy (dget payload ''image_id'')
             then [(''image_id'', JStr (py_str cfg (dget payload ''image_id'')))] else [])))
      | cmd_update \<Rightarrow> (case int_entries payload of Inl e \<Rightarrow> Inl e | Inr es \<Rightarrow>
          Inr ([head] @ es @ [tail, (''boot_after_update'',
            JBool (truthy (dget_default payload ''boot_after_update'' (JBool True))))]))
      | _ \<Rightarrow> Inr [head, tail])"

definition retry_task_handle :: "handler_config \<Rightarrow> fresh_ids \<Rightarrow> uuid \<Rightarrow> task_accepted db_act" where
  "retry_task_handle cfg ids tid =
     bindM (require_task tid) (\<lambda>src.
     bindM (guardM (task_stat src \<in> {failed, canceled})
       (ValidationError ''only failed or canceled tasks can be retried'')) (\<lambda>_.
     bindM (require_instance (task_instance_id src)) (\<lambda>i.
     bindM (guardM (inst_status i \<noteq> deleted) (ValidationError ''cannot retry task for a deleted instance'')) (\<lambda>_.
     bindM (require_idle (inst_id i)) (\<lambda>_.
     let payload = task_request_payload src; c = task_cmd src; now = at_time ids;
         host = py_str cfg (py_or (dget payload ''host_node'') (JStr (inst_host_node i)));
         current_profile = profile_for_instance (inst_status i) (inst_reserve_resources i);
         wanted_profile = requested_profile c payload;
         takes = (c \<in> {cmd_create, cmd_update, cmd_start}) in
     bindM (liftM (spec_of_payload payload (inst_spec i))) (\<lambda>requested.
     bindM (if takes then require_quota cfg \<lparr>chk_scope = inst_tenant_id i,
              chk_current = Some (inst_spec i), chk_requested = requested,
              chk_current_profile = current_profile, chk_requested_profile = wanted_profile\<rparr>
            else returnM ()) (\<lambda>_.
     bindM (if takes then assert_capacity \<lparr>chk_scope = host,
              chk_current = Some (inst_spec i), chk_requested = requested,
              chk_current_profile = current_profile, chk_requested_profile = wanted_profile\<rparr>
            else returnM ()) (\<lambda>_.
     bindM (apply_pending_db (hc_inet cfg) now i c payload (new_task_id ids)) (\<lambda>_.
     bindM (clone_for_retry src (new_task_id ids) (new_request_id ids) now) (\<lambda>cloned.
     bindM (liftM (command_payload cfg c (inst_id i) payload host)) (\<lambda>message.
     bindM (enqueue_command (new_outbox_id ids) now (''instance.'' @ task_command_str c) message
              (task_id cloned) (new_request_id ids) (hc_outbox_max_attempts cfg)) (\<lambda>_.
     returnM (outcome_of cloned now)))))))))))))"

end
