(* ===== verification/Uuid_Text.thy ===== *)
theory Uuid_Text
  imports Domain
begin

text \<open>
  Reading a UUID: Python's \<^verbatim>\<open>UUID(text)\<close> constructor, applied to the identifiers of
  result messages, the request identifier of a header and the subject of a token.  Writing one
  (\<open>uuid_str\<close>) and reading it back is the identity.
\<close>

text \<open>\<^verbatim>\<open>UUID(text)\<close>: the prefixes, braces and hyphens go, then 32 characters must read as a
  base-16 integer (with the sign, prefix and underscores \<^verbatim>\<open>int(s, 16)\<close> allows).\<close>

definition hex_val :: "char \<Rightarrow> int option" where
  "hex_val c = (let n = of_char c :: int in
     if 48 \<le> n \<and> n \<le> 57 then Some (n - 48)
     else if 97 \<le> n \<and> n \<le> 102 then Some (n - 87)
     else if 65 \<le> n \<and> n \<le> 70 then Some (n - 55) else None)"

fun hex_digits_val :: "int \<Rightarrow> string \<Rightarrow> int option" where
  "hex_digits_val acc [] = Some acc"
| "hex_digits_val acc (c # cs) =
     (case hex_val c of
        Some d \<Rightarrow> hex_digits_val (16 * acc + d) cs
      | None \<Rightarrow>
          (if c = CHR ''_'' then
             (case cs of [] \<Rightarrow> None
              | c' # cs' \<Rightarrow> (case hex_val c' of
                  Some d \<Rightarrow> hex_digits_val (16 * acc + d) cs' | None \<Rightarrow> None))
           else None))"

definition hex_start :: "string \<Rightarrow> int option" where
  "hex_start cs = (case cs of [] \<Rightarrow> None
     | c # cs' \<Rightarrow> (case hex_val c of Some d \<Rightarrow> hex_digits_val d cs' | None \<Rightarrow> None))"

definition hex_unsigned :: "string \<Rightarrow> int option" where
  "hex_unsigned cs =
     (if take 2 cs \<in> {''0x'', ''0X''}
      then (if take 1 (drop 2 cs) = ''_'' then hex_start (drop 3 cs) else hex_start (drop 2 cs))
      else hex_start cs)"

definition py_int16 :: "string \<Rightarrow> int option" where
  "py_int16 s =
     (case py_strip s of
        [] \<Rightarrow> None
      | c # cs \<Rightarrow>
          (if c = CHR ''-'' then map_option uminus (hex_unsigned cs)
           else if c = CHR ''+'' then hex_unsigned cs
           else hex_unsigned (c # cs)))"

function remove_all :: "string \<Rightarrow> string \<Rightarrow> string" where
  \<comment> \<open>\<^verbatim>\<open>s.replace(pat, '')\<close> for a non-empty pattern\<close>
  "remove_all pat [] = []"
| "remove_all pat (c # cs) =
     (if pat \<noteq> [] \<and> take (length pat) (c # cs) = pat then remove_all pat (drop (length pat) (c # cs))
      else c # remove_all pat cs)"
  by pat_completeness auto
termination by (relation "measure (length \<circ> snd)") (auto simp: length_greater_0_conv [symmetric] simp del: length_greater_0_conv)

definition strip_braces :: "string \<Rightarrow> string" where
  "strip_braces s = (let brace = (\<lambda>c. c = CHR 0x7B \<or> c = CHR 0x7D) in
     rev (dropWhile brace (rev (dropWhile brace s))))"

definition uuid_of_string :: "string \<Rightarrow> error + uuid" where
  "uuid_of_string s =
     (let h = remove_all ''-'' (strip_braces (remove_all ''uuid:'' (remove_all ''urn:'' s))) in
      if length h \<noteq> 32 then Inl (ValueError ''badly formed hexadecimal UUID string'')
      else case py_int16 h of
        None \<Rightarrow> Inl (ValueError ''invalid literal for int() with base 16'')
      | Some n \<Rightarrow> if 0 \<le> n \<and> n < 2 ^ 128 then Inr (word_of_int n)
                  else Inl (ValueError ''int is out of range (need a 128-bit value)''))"

fun uuid_of_json :: "json \<Rightarrow> error + uuid" where
  "uuid_of_json (JStr s) = uuid_of_string s"
| "uuid_of_json JNull = Inl (TypeError ''one of the hex, bytes, bytes_le, fields, or int arguments must be given'')"
| "uuid_of_json _ = Inl (AttributeError ''object has no attribute replace'')"

section \<open>Reading back\<close>

lemma remove_all_id: "pat = c # p \<Longrightarrow> c \<notin> set s \<Longrightarrow> remove_all pat s = s"
  by (induction s) auto

lemma remove_all_char: "remove_all [c] s = filter (\<lambda>x. x \<noteq> c) s"
  by (induction s) auto

lemma dropWhile_hd: "s = [] \<or> \<not> p (hd s) \<Longrightarrow> dropWhile p s = s"
  by (cases s) auto

definition nibble :: "uuid \<Rightarrow> nat \<Rightarrow> nat" where
  "nibble u i = unat (take_bit 4 (drop_bit (4 * (31 - i)) u))"

lemma nibble_less: "nibble u i < 16"
proof -
  have "take_bit 4 (uint (drop_bit (4 * (31 - i)) u)) < 2 ^ 4" by (rule take_bit_int_less_exp)
  then show ?thesis by (simp add: nibble_def unat_eq_nat_uint unsigned_take_bit_eq nat_less_iff)
qed

lemma uuid_hex_nibbles: "uuid_hex u = map (\<lambda>i. hex_digit (nibble u i)) [0..<32]"
  by (simp add: uuid_hex_def nibble_def)

lemma less_16_cases: "n < (16::nat) \<Longrightarrow>
  n \<in> {0, 1, 2, 3, 4, 5, 6, 7, 8, 9, 10, 11, 12, 13, 14, 15}"
  by (simp; presburger)

lemma hex_val_digit: "n < 16 \<Longrightarrow> hex_val (hex_digit n) = Some (int n)"
  by (drule less_16_cases) (auto simp: hex_val_def hex_digit_def)

definition hex_chars :: string where
  "hex_chars = ''0123456789abcdef''"

lemma hex_digit_chars: "n < 16 \<Longrightarrow> hex_digit n \<in> set hex_chars"
  unfolding hex_digit_def hex_chars_def by (rule nth_mem) simp

lemma hex_digits_val_fold:
  "\<forall>n \<in> set ns. n < 16 \<Longrightarrow>
     hex_digits_val acc (map hex_digit ns) = Some (foldl (\<lambda>a n. 16 * a + int n) acc ns)"
  by (induction ns arbitrary: acc) (simp_all add: hex_val_digit)

lemma fold_nibbles:
  "k \<le> 32 \<Longrightarrow> foldl (\<lambda>a n. 16 * a + int n) 0 (map (nibble u) [0..<k]) = uint u div 2 ^ (4 * (32 - k))"
proof (induction k)
  case 0
  have "uint u < 2 ^ 128" using uint_lt2p [of u] by simp
  then show ?case by simp
next
  case (Suc k)
  then have e: "4 * (32 - k) = 4 * (31 - k) + 4" by simp
  have n: "int (nibble u k) = uint u div 2 ^ (4 * (31 - k)) mod 16"
    unfolding nibble_def unat_eq_nat_uint unsigned_take_bit_eq unsigned_drop_bit_eq
    using uint_lt2p [of u] by (simp add: take_bit_eq_mod drop_bit_eq_div mod_pos_pos_trivial)
  have "uint u div 2 ^ (4 * (32 - k)) = uint u div 2 ^ (4 * (31 - k)) div 16"
    unfolding e power_add by (simp add: zdiv_zmult2_eq)
  with Suc n show ?case by simp
qed

lemma uuid_hex_value: "hex_digits_val 0 (uuid_hex u) = Some (uint u)"
  using hex_digits_val_fold [of "map (nibble u) [0..<32]" 0] fold_nibbles [of 32 u]
  by (simp add: uuid_hex_nibbles nibble_less comp_def)

lemma uuid_hex_chars: "c \<in> set (uuid_hex u) \<Longrightarrow> c \<in> set hex_chars"
  unfolding uuid_hex_nibbles set_map using hex_digit_chars [OF nibble_less] by blast

lemma uuid_hex_length: "length (uuid_hex u) = 32"
  by (simp add: uuid_hex_def)

lemma uuid_str_chars: "c \<in> set (uuid_str u) \<Longrightarrow> c = CHR ''-'' \<or> c \<in> set hex_chars"
proof -
  assume "c \<in> set (uuid_str u)"
  then have "c \<in> {CHR ''-''} \<or> c \<in> set (uuid_hex u)"
    unfolding uuid_str_def Let_def set_append list.set
    by (blast dest: in_set_takeD in_set_dropD)
  then show ?thesis using uuid_hex_chars by blast
qed

lemma filter_dash: "c \<notin> set s \<Longrightarrow> filter (\<lambda>x. x \<noteq> c) s = s"
  by (rule filter_True) auto

lemma uuid_str_dashes: "filter (\<lambda>x. x \<noteq> CHR ''-'') (uuid_str u) = uuid_hex u"
proof -
  have dash: "CHR ''-'' \<notin> set (uuid_hex u)" using uuid_hex_chars [of "CHR ''-''" u] by (auto simp: hex_chars_def)
  then have sub: "filter (\<lambda>x. x \<noteq> CHR ''-'') (take n (drop m (uuid_hex u))) = take n (drop m (uuid_hex u))"
    "filter (\<lambda>x. x \<noteq> CHR ''-'') (take n (uuid_hex u)) = take n (uuid_hex u)"
    "filter (\<lambda>x. x \<noteq> CHR ''-'') (drop m (uuid_hex u)) = drop m (uuid_hex u)" for n m
    by (intro filter_dash; blast dest: in_set_takeD in_set_dropD)+
  have "take 8 h @ take 4 (drop 8 h) @ take 4 (drop 12 h) @ take 4 (drop 16 h) @ drop 20 h = h" for h :: string
    using take_add [of 8 4 h] take_add [of 12 4 h] take_add [of 16 4 h] append_take_drop_id [of 20 h]
    by simp
  then show ?thesis by (simp add: uuid_str_def Let_def sub)
qed

lemma hd_uuid_str: "hd (uuid_str u) \<in> set hex_chars" "hd (rev (uuid_str u)) \<in> set hex_chars"
proof -
  have "uuid_hex u \<noteq> []" "drop 20 (uuid_hex u) \<noteq> []"
    using uuid_hex_length [of u] by (auto simp: length_greater_0_conv [symmetric] simp del: length_greater_0_conv)
  then have "hd (uuid_str u) = hd (uuid_hex u)" "hd (rev (uuid_str u)) = last (uuid_hex u)"
    by (simp_all add: uuid_str_def Let_def hd_append hd_rev)
  then show "hd (uuid_str u) \<in> set hex_chars" "hd (rev (uuid_str u)) \<in> set hex_chars"
    using \<open>uuid_hex u \<noteq> []\<close> uuid_hex_chars [OF hd_in_set] uuid_hex_chars [OF last_in_set] by simp_all
qed

lemma hex_char_facts:
  assumes "c \<in> set hex_chars"
  shows "c \<noteq> CHR 0x7B" "c \<noteq> CHR 0x7D" "\<not> py_space c" "c \<noteq> CHR ''-''" "c \<noteq> CHR ''+''" "c \<noteq> CHR ''x''"
    "c \<noteq> CHR ''X''"
  using assms by (auto simp: hex_chars_def py_space_def)

lemma py_int16_hex: "py_int16 (uuid_hex u) = Some (uint u)"
proof -
  let ?h = "uuid_hex u"
  obtain a b cs where h: "?h = a # b # cs" using uuid_hex_length [of u]
    by (metis length_0_conv length_Cons list.exhaust numeral_eq_one_iff semiring_norm(83) zero_neq_numeral One_nat_def)
  then have ab: "a \<in> set hex_chars" "b \<in> set hex_chars" using uuid_hex_chars [of _ u] by auto
  have last: "last ?h \<in> set hex_chars" by (rule uuid_hex_chars, rule last_in_set) (simp add: h)
  have strip: "py_strip ?h = ?h"
  proof -
    have "dropWhile py_space ?h = ?h" using hex_char_facts(3) [OF ab(1)] by (simp add: h)
    moreover have "dropWhile py_space (rev ?h) = rev ?h"
      by (rule dropWhile_hd) (simp add: hd_rev hex_char_facts(3) [OF last])
    ultimately show ?thesis by (simp add: py_strip_def)
  qed
  obtain n where "n < 16" "a = hex_digit n"
    using h nibble_less [of u 0] by (auto simp: uuid_hex_nibbles upt_rec)
  then obtain v where v: "hex_val a = Some v" using hex_val_digit by blast
  then have "hex_start ?h = hex_digits_val 0 ?h" by (simp add: hex_start_def h v)
  moreover have "take 2 ?h \<notin> {''0x'', ''0X''}" using hex_char_facts(6,7) [OF ab(2)] by (auto simp: h)
  ultimately have "hex_unsigned ?h = Some (uint u)" by (simp add: hex_unsigned_def uuid_hex_value)
  then show ?thesis using strip hex_char_facts(4,5) [OF ab(1)] by (simp add: py_int16_def h)
qed

lemma uuid_reads_back: "uuid_of_string (uuid_str u) = Inr u"
proof -
  have u: "CHR ''u'' \<notin> set (uuid_str u)" using uuid_str_chars by (force simp: hex_chars_def)
  have "strip_braces (uuid_str u) = uuid_str u"
    using hex_char_facts(1,2) [OF hd_uuid_str(1)] hex_char_facts(1,2) [OF hd_uuid_str(2)]
    by (simp add: strip_braces_def Let_def dropWhile_hd)
  then show ?thesis
    using u uint_lt2p [of u]
    by (simp add: uuid_of_string_def remove_all_id [of _ "CHR ''u''"] remove_all_char uuid_str_dashes
        uuid_hex_length py_int16_hex Let_def)
qed

end
