(* ===== verification/Result_Processor.thy ===== *)
theory Result_Processor
  imports Task_Commands Uuid_Text
begin

text \<open>
  \<^verbatim>\<open>application/services/task_result_processor.py\<close> and the message handling of
  \<^verbatim>\<open>runtime/workers/rabbitmq_result_consumer.py\<close>: an event of the VM manager is parsed,
  applied to its task and instance in one transaction, and acknowledged, requeued or sent to the
  dead-letter queue.  \<^verbatim>\<open>json.loads\<close> of the message body is the parameter \<open>loads\<close>;
  the loop over the messages of a channel is in \<open>Consumer_Loop\<close>, that over connections in
  \<open>Result_Consumer\<close>.
\<close>

section \<open>Events\<close>

record vm_result_event =
  ev_task_id :: uuid
  ev_request_id :: uuid
  ev_instance_id :: uuid
  ev_command :: json
  ev_status :: json
  ev_attempt_count :: int
  ev_result :: json
  ev_error_code :: json
  ev_error_message :: json
  ev_timestamp :: py_datetime

definition dict_item :: "dict \<Rightarrow> string \<Rightarrow> error + json" where
  "dict_item d k = (case map_of d k of None \<Rightarrow> Inl (KeyError k) | Some v \<Rightarrow> Inr v)"

definition event_time :: "timestamp \<Rightarrow> json \<Rightarrow> error + py_datetime" where
  "event_time now ts =
     (if \<not> truthy ts then Inr (Aware now)
      else case ts of
        JStr s \<Rightarrow> (case fromisoformat (replace_Z s) of
            Some t \<Rightarrow> Inr t
          | None \<Rightarrow> Inl (ValueError (''Invalid isoformat string: '' @ replace_Z s)))
      | _ \<Rightarrow> Inl (AttributeError ''object has no attribute replace''))"

definition parse_event :: "timestamp \<Rightarrow> dict \<Rightarrow> (error, 's, vm_result_event) act" where
  "parse_event now p =
     bindM (liftM (event_time now (dget p ''timestamp''))) (\<lambda>time.
     bindM (liftM (dict_item p ''task_id'')) (\<lambda>tid_v. bindM (liftM (uuid_of_json tid_v)) (\<lambda>tid.
     bindM (liftM (dict_item p ''request_id'')) (\<lambda>rid_v. bindM (liftM (uuid_of_json rid_v)) (\<lambda>rid.
     bindM (liftM (dict_item p ''instance_id'')) (\<lambda>iid_v. bindM (liftM (uuid_of_json iid_v)) (\<lambda>iid.
     bindM (liftM (dict_item p ''command'')) (\<lambda>command.
     bindM (liftM (dict_item p ''status'')) (\<lambda>status.
     bindM (liftM (py_int (dget_default p ''attempt_count'' (JInt 0)))) (\<lambda>attempts.
     returnM \<lparr>ev_task_id = tid, ev_request_id = rid, ev_instance_id = iid, ev_command = command,
       ev_status = status, ev_attempt_count = attempts, ev_result = dget p ''result'',
       ev_error_code = dget p ''error_code'', ev_error_message = dget p ''error_message'',
       ev_timestamp = time\<rparr>))))))))))"

section \<open>Processing\<close>

definition hashable :: "json \<Rightarrow> bool" where
  "hashable v = (case v of JList _ \<Rightarrow> False | JObj _ \<Rightarrow> False | _ \<Rightarrow> True)"

definition event_statuses :: "json list" where
  "event_statuses = [JStr ''running'', JStr ''succeeded'', JStr ''failed'', JStr ''canceled'']"

text \<open>\<^verbatim>\<open>(now - event.timestamp).total_seconds() < 60\<close>\<close>

definition recent :: "timestamp \<Rightarrow> py_datetime \<Rightarrow> error + bool" where
  "recent now t = (case t of
     Aware a \<Rightarrow> Inr (now - a < seconds 60)
   | Naive _ \<Rightarrow> Inl (TypeError ''cannot subtract offset-naive and offset-aware datetimes''))"

definition result_dict :: "vm_result_event \<Rightarrow> error + dict" where
  "result_dict ev = as_dict (py_or (ev_result ev) (JObj []))"

definition handle_success ::
  "(string \<Rightarrow> string option) \<Rightarrow> timestamp \<Rightarrow> task_command \<Rightarrow> dict \<Rightarrow> uuid \<Rightarrow> vm_result_event \<Rightarrow> unit db_act" where
  "handle_success inet now c payload iid ev =
     (let update = (\<lambda>st reserve del ip. bindM
            (instance_update_state inet now iid st reserve (Some (ev_task_id ev)) del ip) (\<lambda>_. returnM ()))
      in case c of
        cmd_create \<Rightarrow> bindM (liftM (result_dict ev)) (\<lambda>res.
          update (JStr ''running'') True None (dget res ''ip_address''))
      | cmd_update \<Rightarrow> bindM (liftM (result_dict ev)) (\<lambda>res.
          update (py_or (dget res ''status'') (JStr ''running'')) True None
            (py_or (dget res ''ip_address'') (dget payload ''previous_ip_address'')))
      | cmd_start \<Rightarrow> bindM (liftM (result_dict ev)) (\<lambda>res.
          update (JStr ''running'') True None
            (py_or (dget res ''ip_address'') (dget payload ''previous_ip_address'')))
      | cmd_stop \<Rightarrow> bindM (liftM (result_dict ev)) (\<lambda>res.
          update (JStr ''stopped'') True None
            (py_or (dget res ''ip_address'') (dget payload ''previous_ip_address'')))
      | cmd_delete \<Rightarrow> update (JStr ''deleted'') False (Some now) JNull)"

definition process :: "(string \<Rightarrow> string option) \<Rightarrow> timestamp \<Rightarrow> vm_result_event \<Rightarrow> unit db_act" where
  "process inet now ev =
     bindM (guardM (hashable (ev_status ev)) (TypeError ''unhashable type'')) (\<lambda>_.
     bindM (guardM (ev_status ev \<in> set event_statuses)
       (NonRetryableResultEventError ''unsupported task result status'')) (\<lambda>_.
     bindM (task_get_for_update (ev_task_id ev)) (\<lambda>found.
     case found of
       None \<Rightarrow>
         bindM (liftM (recent now (ev_timestamp ev))) (\<lambda>young.
         if young then raiseM (RetryableResultEventError
           (''task '' @ uuid_str (ev_task_id ev) @ '' not yet visible''))
         else returnM ())
     | Some t \<Rightarrow>
       if task_stat t \<in> {succeeded, failed, canceled} then returnM ()
       else bindM (require_instance (task_instance_id t)) (\<lambda>i.
         if ev_status ev = JStr ''running'' then
           (if task_stat t \<noteq> cancel_pending
            then bindM (mark_running now (task_id t) (max (ev_attempt_count ev) 1)) (\<lambda>_. returnM ())
            else returnM ())
         else if ev_status ev = JStr ''succeeded'' then
           bindM (handle_success inet now (task_cmd t) (task_request_payload t) (inst_id i) ev) (\<lambda>_.
           bindM (mark_terminal now (task_id t) succeeded (max (ev_attempt_count ev) 1) (ev_result ev)
                    JNull JNull) (\<lambda>_. returnM ()))
         else if ev_status ev = JStr ''canceled'' then
           bindM (revert_db inet now (inst_id i) (task_cmd t) (task_request_payload t)) (\<lambda>_.
           bindM (mark_canceled now (task_id t) (max (ev_attempt_count ev) (task_attempt_count t)) None None
                    (ev_result ev) (py_or (ev_error_code ev) (JStr ''CANCELED''))
                    (py_or (ev_error_message ev) (JStr ''task canceled''))) (\<lambda>_. returnM ()))
         else
           bindM (revert_db inet now (inst_id i) (task_cmd t) (task_request_payload t)) (\<lambda>_.
           bindM (mark_terminal now (task_id t) failed (max (ev_attempt_count ev) 1) (ev_result ev)
                    (ev_error_code ev) (ev_error_message ev)) (\<lambda>_. returnM ()))))))"

section \<open>Consuming a message\<close>

text \<open>
  What the transaction of a message decides.  The calls that settle it follow, and the
  acknowledgement may still raise when the transaction has committed: they are
  \<open>handle_delivery\<close> of \<open>Consumer_Loop\<close>.
\<close>

datatype disposition = Ack | Requeue | DeadLetter

fun disposition_of :: "error \<Rightarrow> disposition" where
  "disposition_of (RetryableResultEventError _) = Requeue"
| "disposition_of (OperationalError _) = Requeue"
| "disposition_of _ = DeadLetter"

definition process_message ::
  "(string \<Rightarrow> string option) \<Rightarrow> timestamp \<Rightarrow> json \<Rightarrow> unit db_act" where
  "process_message inet now payload =
     bindM (liftM (as_dict payload)) (\<lambda>p. bindM (parse_event now p) (\<lambda>ev. process inet now ev))"

definition consume ::
  "('body \<Rightarrow> json option) \<Rightarrow> (string \<Rightarrow> string option) \<Rightarrow> timestamp \<Rightarrow> 'body \<Rightarrow> db \<Rightarrow> disposition \<times> db" where
  "consume loads inet now body d =
     (case loads body of
        None \<Rightarrow> (DeadLetter, d)
      | Some payload \<Rightarrow>
          (case process_message inet now payload d of
             (Inr _, d') \<Rightarrow> (Ack, d')
           | (Inl e, _) \<Rightarrow> (disposition_of e, d)))"

end
