(* ===== verification/Stale_Monitor.thy ===== *)
theory Stale_Monitor
  imports Task_Commands
begin

text \<open>
  \<^verbatim>\<open>runtime/workers/stale_task_monitor.py\<close>: tasks that stayed queued too long, with no
  message in the outbox, a failed one, or one sent before the cutoff, are failed and their
  instances reverted.  A sweep is one transaction; what it raises rolls it back.  The
  loop around \<open>sweep_once\<close> is in \<open>Monitor_Loop\<close>.
\<close>

fun dec_nat :: "nat \<Rightarrow> string" where
  "dec_nat n = (if n < 10 then [dec_digit (int n)] else dec_nat (n div 10) @ [dec_digit (int (n mod 10))])"

declare dec_nat.simps [simp del]

definition dec_int :: "int \<Rightarrow> string" where
  "dec_int n = (if n < 0 then ''-'' @ dec_nat (nat (- n)) else dec_nat (nat n))"

definition message_of_task :: "instance_task_model \<Rightarrow> outbox_message \<Rightarrow> bool" where
  "message_of_task t m \<longleftrightarrow> ob_task_id m = task_id t \<and> ob_topic m = ''instance.'' @ task_command_str (task_cmd t)"

definition stale_message :: "timestamp \<Rightarrow> outbox_message \<Rightarrow> bool" where
  "stale_message cutoff m \<longleftrightarrow>
     ob_status m = sent \<and> (case ob_sent_at m of None \<Rightarrow> False | Some t \<Rightarrow> t < cutoff) \<or> ob_status m = ob_failed"

definition stale_task :: "timestamp \<Rightarrow> db \<Rightarrow> instance_task_model \<Rightarrow> bool" where
  "stale_task cutoff d t \<longleftrightarrow> task_stat t = task_queued \<and> task_created_at t < cutoff \<and>
     (\<not> (\<exists>m \<in> set (command_outbox d). message_of_task t m) \<or>
      (\<exists>m \<in> set (command_outbox d). message_of_task t m \<and> stale_message cutoff m))"

definition stale_ids :: "timestamp \<Rightarrow> db \<Rightarrow> uuid list" where
  "stale_ids cutoff d =
     map task_id (take 100 (sort_key task_created_at (filter (stale_task cutoff d) (instance_tasks d))))"

definition timeout_text :: "int \<Rightarrow> string" where
  "timeout_text n = ''task stayed queued for more than '' @ dec_int n @ ''s''"

definition fail_stale ::
  "(string \<Rightarrow> string option) \<Rightarrow> timestamp \<Rightarrow> int \<Rightarrow> uuid \<Rightarrow> bool db_act" where
  "fail_stale inet now limit tid =
     bindM (task_get_for_update tid) (\<lambda>found.
     case found of
       None \<Rightarrow> returnM False
     | Some t \<Rightarrow>
       if task_stat t \<noteq> task_queued then returnM False
       else bindM (revert_db inet now (task_instance_id t) (task_cmd t) (task_request_payload t)) (\<lambda>_.
         bindM (mark_terminal now (task_id t) failed (max (task_attempt_count t) 1) JNull
                  (JStr ''TIMEOUT'') (JStr (timeout_text limit))) (\<lambda>_. returnM True)))"

primrec fail_all_stale ::
  "(string \<Rightarrow> string option) \<Rightarrow> timestamp \<Rightarrow> int \<Rightarrow> int \<Rightarrow> uuid list \<Rightarrow> int db_act" where
  "fail_all_stale inet now limit recovered [] = returnM recovered"
| "fail_all_stale inet now limit recovered (tid # tids) =
     bindM (fail_stale inet now limit tid) (\<lambda>hit.
       fail_all_stale inet now limit (if hit then recovered + 1 else recovered) tids)"

definition sweep_once ::
  "(string \<Rightarrow> string option) \<Rightarrow> timestamp \<Rightarrow> int \<Rightarrow> int db_act" where
  "sweep_once inet now timeout d =
     (let limit = max 1 timeout; tids = stale_ids (now - seconds limit) d in
      if tids = [] then (Inr 0, d)
      else case fail_all_stale inet now limit 0 tids d of
        (Inr n, d') \<Rightarrow> (Inr n, d')
      | (Inl e, _) \<Rightarrow> (Inl e, d))"

end
