(* ===== verification/Relay.thy ===== *)
theory Relay
  imports Outbox
begin

text \<open>
  \<^verbatim>\<open>runtime/workers/outbox_relay.py\<close>: publishing the outbox.  The broker
  (\<^verbatim>\<open>VmProvisioningPort.publish_command\<close>, which \<open>Messaging\<close> models over the AMQP client)
  is the field \<open>publish\<close> of the environment: \<open>None\<close> when the call returned, the text of
  the exception otherwise.  The environment also gives the clock, the random draws of the
  jitter and the moment the stop event is set, each indexed by the step of the relay.  The
  endless loop \<^verbatim>\<open>_run\<close> around \<open>drain_available\<close> is in \<open>Relay_Loop\<close>, its thread in
  \<open>Worker_Thread\<close>.
\<close>

record relay_config =
  rc_batch_size :: int
  rc_lock_timeout_seconds :: int
  rc_retry_max_seconds :: int
  rc_locker_id :: string

definition outbox_relay :: "int \<Rightarrow> int \<Rightarrow> int \<Rightarrow> string \<Rightarrow> relay_config" where
  "outbox_relay batch lock_timeout retry_max locker =
     \<lparr>rc_batch_size = max 1 batch, rc_lock_timeout_seconds = max 1 lock_timeout,
      rc_retry_max_seconds = max 1 retry_max, rc_locker_id = locker\<rparr>"

record relay_env =
  publish :: "nat \<Rightarrow> outbox_message \<Rightarrow> string option"
  clock :: "nat \<Rightarrow> timestamp"
  draw :: "nat \<Rightarrow> rat"
  stop_at :: "nat option"

definition stop_is_set :: "relay_env \<Rightarrow> nat \<Rightarrow> bool" where
  "stop_is_set env n \<longleftrightarrow> (case stop_at env of None \<Rightarrow> False | Some k \<Rightarrow> k \<le> n)"

text \<open>\<^verbatim>\<open>random.uniform(0.0, b)\<close> is \<open>b\<close> times a draw from the unit interval.\<close>

definition retry_delay_seconds :: "relay_config \<Rightarrow> rat \<Rightarrow> int \<Rightarrow> int" where
  "retry_delay_seconds cfg u attempt =
     (let base = min (rc_retry_max_seconds cfg) (2 ^ nat (max 1 attempt));
          jitter = u * min 1 (of_int base / 4)
      in max 1 (rat_trunc (of_int base + jitter)))"

definition publish_error_text :: "string \<Rightarrow> string" where
  "publish_error_text s = (if s \<noteq> [] then take 2000 s else ''publish failed'')"

definition record_failure ::
  "relay_config \<Rightarrow> relay_env \<Rightarrow> nat \<Rightarrow> outbox_message \<Rightarrow> string \<Rightarrow> unit db_act" where
  "record_failure cfg env n m text =
     (let attempt = ob_attempt_count m + 1; msg = Some (publish_error_text text) in
      bindM (if attempt \<ge> ob_max_attempts m
             then ob_mark_failed (clock env n) (ob_id m) msg
             else ob_mark_retry (clock env n) (ob_id m)
                    (retry_delay_seconds cfg (draw env n) attempt) msg)
        (\<lambda>_. returnM ()))"

text \<open>
  \<^verbatim>\<open>_dispatch\<close>: an exception of the publish call or of \<^verbatim>\<open>mark_sent\<close> is caught and
  recorded; what recording it raises leaves the function.
\<close>

definition dispatch :: "relay_config \<Rightarrow> relay_env \<Rightarrow> nat \<Rightarrow> outbox_message \<Rightarrow> unit db_act" where
  "dispatch cfg env n m d =
     (case publish env n m of
        Some text \<Rightarrow> record_failure cfg env n m text d
      | None \<Rightarrow>
          (case ob_mark_sent (clock env n) (ob_id m) d of
             (Inr _, d') \<Rightarrow> (Inr (), d')
           | (Inl e, d') \<Rightarrow> record_failure cfg env n m (error_text e) d'))"

text \<open>The \<^verbatim>\<open>for\<close> loop over a claimed batch: the step reached and the number handled.\<close>

primrec dispatch_all ::
  "relay_config \<Rightarrow> relay_env \<Rightarrow> nat \<Rightarrow> int \<Rightarrow> outbox_message list \<Rightarrow> (nat \<times> int) db_act" where
  "dispatch_all cfg env n count [] = returnM (n, count)"
| "dispatch_all cfg env n count (m # ms) =
     (if stop_is_set env n then returnM (n, count)
      else bindM (dispatch cfg env n m) (\<lambda>_. dispatch_all cfg env (Suc n) (count + 1) ms))"

definition claim :: "relay_config \<Rightarrow> relay_env \<Rightarrow> nat \<Rightarrow> outbox_message list db_act" where
  "claim cfg env n =
     bindM (recover_stuck_publishing (clock env n)) (\<lambda>_.
     claim_batch (clock env n) (rc_locker_id cfg) (rc_batch_size cfg) (rc_lock_timeout_seconds cfg))"

text \<open>\<^verbatim>\<open>_drain_available\<close>; \<open>None\<close> when the fuel ends before the loop does.\<close>

fun drain_available ::
  "nat \<Rightarrow> relay_config \<Rightarrow> relay_env \<Rightarrow> nat \<Rightarrow> int \<Rightarrow> db \<Rightarrow> ((error + int) \<times> db) option" where
  "drain_available 0 cfg env n count d = None"
| "drain_available (Suc fuel) cfg env n count d =
     (if stop_is_set env n then Some (Inr count, d)
      else case claim cfg env n d of
        (Inl e, d') \<Rightarrow> Some (Inl e, d')
      | (Inr ms, d') \<Rightarrow>
          (if ms = [] then Some (Inr count, d')
           else case dispatch_all cfg env (Suc n) count ms d' of
             (Inl e, d'') \<Rightarrow> Some (Inl e, d'')
           | (Inr (n', count'), d'') \<Rightarrow> drain_available fuel cfg env n' count' d''))"


section \<open>The retry delay\<close>

lemma rat_trunc_of_int_plus:
  "0 \<le> b \<Longrightarrow> 0 \<le> q \<Longrightarrow> q < 1 \<Longrightarrow> rat_trunc (of_int b + q) = b"
  by (simp add: rat_trunc_def floor_unique)

text \<open>
  The delay is the exponential base capped at the configured maximum, whatever was
  drawn: the jitter is below one second and \<^verbatim>\<open>int\<close> truncates it away, so messages that
  failed together are retried together.
\<close>

theorem retry_delay_ignores_jitter:
  assumes "0 \<le> u" "u < 1" "1 \<le> rc_retry_max_seconds cfg"
  shows "retry_delay_seconds cfg u attempt = min (rc_retry_max_seconds cfg) (2 ^ nat (max 1 attempt)) \<and>
    1 \<le> retry_delay_seconds cfg u attempt \<and> retry_delay_seconds cfg u attempt \<le> rc_retry_max_seconds cfg"
proof -
  define b where "b = min (rc_retry_max_seconds cfg) (2 ^ nat (max 1 attempt))"
  define c where "c = min 1 (rat_of_int b / 4)"
  have b: "1 \<le> b" using assms(3) by (simp add: b_def)
  then have c: "0 \<le> c" "c \<le> 1" by (simp_all add: c_def)
  have "u * c \<le> u * 1" by (rule mult_left_mono [OF c(2) assms(1)])
  then have "u * c < 1" using assms(2) by linarith
  moreover have "0 \<le> u * c" using assms(1) c(1) by (rule mult_nonneg_nonneg)
  ultimately have "rat_trunc (of_int b + u * c) = b" using b by (intro rat_trunc_of_int_plus) simp_all
  moreover have "retry_delay_seconds cfg u attempt = max 1 (rat_trunc (of_int b + u * c))"
    by (simp only: retry_delay_seconds_def Let_def b_def c_def)
  ultimately have "retry_delay_seconds cfg u attempt = b" using b by simp
  moreover have "b \<le> rc_retry_max_seconds cfg" by (simp add: b_def)
  ultimately show ?thesis using b by (simp only: b_def)
qed

theorem retry_delay_ignores_jitter_witness:
  "retry_delay_seconds (outbox_relay 50 30 60 ''relay'') (3 / 4) 3 = 8"
  using retry_delay_ignores_jitter [of "3 / 4" "outbox_relay 50 30 60 ''relay''" 3]
  by (simp add: outbox_relay_def)

section \<open>One message\<close>

definition dispatched_row ::
  "relay_config \<Rightarrow> relay_env \<Rightarrow> nat \<Rightarrow> outbox_message \<Rightarrow> outbox_message \<Rightarrow> outbox_message" where
  "dispatched_row cfg env n m r =
     (case publish env n m of
        None \<Rightarrow> r\<lparr>ob_status := sent, ob_sent_at := Some (clock env n), ob_locked_by := None,
          ob_lock_expires_at := None, ob_last_error := None, ob_updated_at := clock env n\<rparr>
      | Some text \<Rightarrow>
          (if ob_attempt_count m + 1 \<ge> ob_max_attempts m
           then r\<lparr>ob_status := ob_failed, ob_attempt_count := ob_attempt_count r + 1,
             ob_locked_by := None, ob_lock_expires_at := None,
             ob_last_error := Some (publish_error_text text), ob_updated_at := clock env n\<rparr>
           else r\<lparr>ob_status := ob_queued, ob_attempt_count := ob_attempt_count r + 1,
             ob_next_attempt_at := clock env n +
               seconds (max 1 (retry_delay_seconds cfg (draw env n) (ob_attempt_count m + 1))),
             ob_locked_by := None, ob_lock_expires_at := None,
             ob_last_error := Some (publish_error_text text), ob_updated_at := clock env n\<rparr>))"

text \<open>
  The row \<open>r\<close> is still the one handed out as \<open>m\<close>: another transaction may have touched its
  time stamp since, nothing else.
\<close>

definition still_claimed :: "outbox_message \<Rightarrow> outbox_message \<Rightarrow> bool" where
  "still_claimed m r \<longleftrightarrow> ob_status r = publishing \<and> ob_attempt_count r = ob_attempt_count m \<and>
     ob_max_attempts r = ob_max_attempts m"

text \<open>The number of publish attempts the outbox can still cause.\<close>

definition attempts_left :: "outbox_message \<Rightarrow> int" where
  "attempts_left r = (if ob_status r \<in> {ob_queued, publishing}
     then ob_max_attempts r - ob_attempt_count r else 0)"

definition outbox_work :: "db \<Rightarrow> int" where
  "outbox_work d = sum_list (map attempts_left (command_outbox d))"

lemma attempts_left_nonneg: "outbox_row_ok r \<Longrightarrow> 0 \<le> attempts_left r"
  by (auto simp: attempts_left_def outbox_row_ok_def split: if_splits)

lemma outbox_work_nonneg: "outbox_inv d \<Longrightarrow> 0 \<le> outbox_work d"
  by (auto simp: outbox_work_def outbox_inv_def intro!: sum_list_nonneg attempts_left_nonneg)

lemma dispatched_row_facts:
  assumes "outbox_row_ok r" "still_claimed m r"
  shows "outbox_row_ok (dispatched_row cfg env n m r)" "ob_id (dispatched_row cfg env n m r) = ob_id r"
    "command_key (dispatched_row cfg env n m r) = command_key r"
    "attempts_left (dispatched_row cfg env n m r) < attempts_left r"
  using assms
  by (auto simp: dispatched_row_def outbox_row_ok_def attempts_left_def still_claimed_def split: option.splits)

lemma can_count_row:
  assumes "outbox_inv d" "outbox_at d (ob_id m) = Some r" "still_claimed m r"
  shows "can_count_attempt (ob_id m) d"
proof -
  have "outbox_row_ok r" using outbox_inv_rowD [OF assms(1,2)] .
  then have "int4 (ob_attempt_count r + 1)" using assms(3) by (auto simp: outbox_row_ok_def still_claimed_def int4_def)
  moreover have "q = r" if "q \<in> set (command_outbox d)" "ob_id q = ob_id m" for q
    using that assms(1,2) row_of_unique [of ob_id "command_outbox d" q]
    by (simp add: outbox_inv_def outbox_at_def)
  ultimately show ?thesis by (auto simp: can_count_attempt_def list_all_iff)
qed

lemma dispatch_run:
  assumes "outbox_inv d" "outbox_at d (ob_id m) = Some r" "still_claimed m r"
  shows "\<exists>f. dispatch cfg env n m d =
      (Inr (), command_outbox_update (update_where (\<lambda>r. ob_id r = ob_id m) f) d) \<and>
    f r = dispatched_row cfg env n m r \<and> (\<forall>q. ob_id (f q) = ob_id q) \<and> (\<forall>q. command_key (f q) = command_key q)"
proof (cases "publish env n m")
  case None
  then show ?thesis using assms(2)
    by (intro exI [of _ "\<lambda>r. r\<lparr>ob_status := sent, ob_sent_at := Some (clock env n),
          ob_locked_by := None, ob_lock_expires_at := None, ob_last_error := None,
          ob_updated_at := clock env n\<rparr>"])
       (simp add: dispatch_def ob_mark_sent_def outbox_update_one_run dispatched_row_def)
next
  case (Some err)
  show ?thesis
  proof (cases "ob_attempt_count m + 1 \<ge> ob_max_attempts m")
    case True
    then show ?thesis using Some assms can_count_row [OF assms]
      by (intro exI [of _ "\<lambda>r. r\<lparr>ob_status := ob_failed,
            ob_attempt_count := ob_attempt_count r + 1, ob_locked_by := None,
            ob_lock_expires_at := None, ob_last_error := Some (publish_error_text err),
            ob_updated_at := clock env n\<rparr>"])
         (simp add: dispatch_def record_failure_def Let_def ob_mark_failed_def bindM_run
           bindM_step outbox_update_one_run dispatched_row_def)
  next
    case False
    then show ?thesis using Some assms can_count_row [OF assms]
      by (intro exI [of _ "\<lambda>r. r\<lparr>ob_status := ob_queued,
            ob_attempt_count := ob_attempt_count r + 1, ob_next_attempt_at := clock env n +
               seconds (max 1 (retry_delay_seconds cfg (draw env n) (ob_attempt_count m + 1))),
            ob_locked_by := None, ob_lock_expires_at := None,
            ob_last_error := Some (publish_error_text err), ob_updated_at := clock env n\<rparr>"])
         (simp add: dispatch_def record_failure_def Let_def ob_mark_retry_def bindM_run
           bindM_step outbox_update_one_run dispatched_row_def)
  qed
qed

lemma dispatch_effect:
  assumes "outbox_inv d" "outbox_at d (ob_id m) = Some r" "still_claimed m r"
  obtains d' where "dispatch cfg env n m d = (Inr (), d')" "outbox_inv d'" "same_messages d d'"
    "outbox_at d' = (outbox_at d)(ob_id m \<mapsto> dispatched_row cfg env n m r)"
    "outbox_work d' < outbox_work d"
proof -
  obtain f where f: "dispatch cfg env n m d =
        (Inr (), command_outbox_update (update_where (\<lambda>r. ob_id r = ob_id m) f) d)"
      "f r = dispatched_row cfg env n m r" "\<And>q. ob_id (f q) = ob_id q" "\<And>q. command_key (f q) = command_key q"
    using dispatch_run [OF assms, of cfg env n] by auto
  let ?d = "command_outbox_update (update_where (\<lambda>r. ob_id r = ob_id m) f) d"
  have dist: "distinct (map ob_id (command_outbox d))" and ok: "outbox_row_ok r"
    using assms(1) outbox_inv_rowD [OF assms(1,2)] by (simp_all add: outbox_inv_def)
  have row: "row_of ob_id (ob_id m) (command_outbox d) = Some r" using assms(2) by (simp add: outbox_at_def)
  have only: "q = r" if "q \<in> set (command_outbox d)" "ob_id q = ob_id m" for q
    using row_of_unique [OF dist that(1)] that(2) row by simp
  have "outbox_inv ?d"
    by (rule outbox_inv_update [OF assms(1) f(3) f(4)])
       (use only dispatched_row_facts [OF ok assms(3)] f(2) in metis)
  moreover have "outbox_at ?d = (outbox_at d)(ob_id m \<mapsto> dispatched_row cfg env n m r)"
    using ob_t.get_after_update [of f _ "ob_id m" d] f(2,3) row
    by (simp add: outbox_at_def fun_eq_iff)
  moreover have "outbox_work ?d < outbox_work d"
    using ob_t.sum_after_update [OF dist row, of attempts_left f]
      dispatched_row_facts(4) [OF ok assms(3), of cfg env n] f(2)
    by (simp add: outbox_work_def)
  ultimately show ?thesis using that [OF f(1)] same_messages_update [OF f(4)] by blast
qed

text \<open>
  C20: a dispatched message ends sent when the broker took it; otherwise it has used
  one attempt more and is queued again for later, or failed when that was its last one.  No row
  ever counts more attempts than its maximum.
\<close>

theorem dispatch_outcome:
  assumes "outbox_inv d" "outbox_at d (ob_id m) = Some r" "still_claimed m r"
  shows "\<exists>d' q. dispatch cfg env n m d = (Inr (), d') \<and> same_messages d d' \<and> outbox_inv d' \<and>
    outbox_at d' = (outbox_at d)(ob_id m \<mapsto> q) \<and> ob_payload q = ob_payload r \<and>
    (case publish env n m of
       None \<Rightarrow> ob_status q = sent \<and> ob_sent_at q = Some (clock env n) \<and> ob_attempt_count q = ob_attempt_count r
     | Some _ \<Rightarrow> ob_attempt_count q = ob_attempt_count r + 1 \<and>
         (if ob_attempt_count r + 1 < ob_max_attempts r
          then ob_status q = ob_queued \<and> clock env n < ob_next_attempt_at q
          else ob_status q = ob_failed \<and> ob_attempt_count q = ob_max_attempts r))"
proof -
  obtain d' where d': "dispatch cfg env n m d = (Inr (), d')" "outbox_inv d'" "same_messages d d'"
    "outbox_at d' = (outbox_at d)(ob_id m \<mapsto> dispatched_row cfg env n m r)"
    by (rule dispatch_effect [OF assms])
  have "outbox_row_ok r" using outbox_inv_rowD [OF assms(1,2)] .
  then show ?thesis using d' assms(3)
    by (intro exI [of _ d'] exI [of _ "dispatched_row cfg env n m r"])
       (auto simp: dispatched_row_def still_claimed_def outbox_row_ok_def seconds_def split: option.splits)
qed

section \<open>A batch\<close>

definition batch_of :: "outbox_message list \<Rightarrow> db \<Rightarrow> bool" where
  "batch_of ms d \<longleftrightarrow> distinct (map ob_id ms) \<and>
     (\<forall>m \<in> set ms. outbox_at d (ob_id m) = Some m \<and> ob_status m = publishing)"

lemma dispatch_all_effect:
  "outbox_inv d \<Longrightarrow> batch_of ms d \<Longrightarrow> 0 \<le> count \<Longrightarrow>
   \<exists>n' k d'. dispatch_all cfg env n count ms d = (Inr (n', k), d') \<and> outbox_inv d' \<and> same_messages d d' \<and>
     count \<le> k \<and>
     (ms = [] \<and> d' = d \<or> stop_is_set env n' \<and> outbox_work d' \<le> outbox_work d \<or>
      outbox_work d' < outbox_work d)"
proof (induction ms arbitrary: n count d)
  case Nil
  then show ?case by simp
next
  case (Cons m ms)
  show ?case
  proof (cases "stop_is_set env n")
    case True
    then show ?thesis using Cons.prems by auto
  next
    case False
    have m: "outbox_at d (ob_id m) = Some m" "still_claimed m m"
      using Cons.prems(2) by (auto simp: batch_of_def still_claimed_def)
    obtain d1 where d1: "dispatch cfg env n m d = (Inr (), d1)" "outbox_inv d1" "same_messages d d1"
        "outbox_at d1 = (outbox_at d)(ob_id m \<mapsto> dispatched_row cfg env n m m)"
        "outbox_work d1 < outbox_work d"
      by (rule dispatch_effect [OF Cons.prems(1) m])
    have "ob_id x \<noteq> ob_id m" if "x \<in> set ms" for x
      using Cons.prems(2) that by (force simp: batch_of_def)
    then have "batch_of ms d1" using Cons.prems(2) by (simp add: batch_of_def d1(4))
    from Cons.IH [OF d1(2) this, of "count + 1" "Suc n"] Cons.prems(3) obtain n' k d' where
      d': "dispatch_all cfg env (Suc n) (count + 1) ms d1 = (Inr (n', k), d')" "outbox_inv d'"
        "same_messages d1 d'" "count + 1 \<le> k" "d' = d1 \<or> outbox_work d' \<le> outbox_work d1"
      by fastforce
    have "same_messages d d'" using d1(3) d'(3) by (rule same_messages_trans)
    then show ?thesis using False d1(1,5) d' by (auto simp: bindM_step)
  qed
qed

section \<open>The drain\<close>

lemma recover_effect:
  assumes "outbox_inv d"
  obtains k d' where "recover_stuck_publishing now d = (Inr k, d')" "outbox_inv d'" "same_messages d d'"
    "outbox_work d' = outbox_work d" "\<forall>r \<in> set (command_outbox d'). \<not> stuck now r"
proof -
  let ?f = "recovered_row now"
  let ?d = "command_outbox_update (update_where (stuck now) ?f) d"
  have inv: "outbox_inv ?d"
    by (rule outbox_inv_update [OF assms]) (auto simp: recovered_row_ok)
  have "sum_list (map attempts_left (update_where (stuck now) ?f rs)) =
      sum_list (map attempts_left rs)" for rs
    by (induction rs) (auto simp: attempts_left_def stuck_def)
  then have work: "outbox_work ?d = outbox_work d" by (simp add: outbox_work_def)
  have none: "\<forall>r \<in> set (command_outbox ?d). \<not> stuck now r"
    by (auto simp: set_update_where stuck_def)
  have "recover_stuck_publishing now d = (Inr (int (length (filter (stuck now) (command_outbox d)))), ?d)"
    by (simp add: recover_stuck_publishing_def bindM_sql_run)
  then show ?thesis by (rule that [OF _ inv same_messages_update work none]) simp
qed

lemma claim_batch_effect:
  assumes "outbox_inv d"
  obtains ms d' where "claim_batch now locker limit lock_timeout d = (Inr ms, d')" "outbox_inv d'"
    "same_messages d d'" "outbox_work d' = outbox_work d" "batch_of ms d'"
    "ms = [] \<Longrightarrow> \<forall>r \<in> set (command_outbox d'). \<not> claimable now r"
proof -
  let ?ids = "picked now limit (command_outbox d)"
  let ?f = "claimed_row now locker lock_timeout"
  let ?ms = "map ?f (filter (\<lambda>r. ob_id r \<in> set ?ids) (command_outbox d))"
  let ?d = "command_outbox_update (update_where (\<lambda>r. ob_id r \<in> set ?ids) ?f) d"
  have dist: "distinct (map ob_id (command_outbox d))" using assms by (simp add: outbox_inv_def)
  have inv: "outbox_inv ?d"
    by (rule outbox_inv_update [OF assms])
       (use picked_claimable [OF dist] claimed_row_ok in auto)
  then have dist': "distinct (map ob_id (command_outbox ?d))" by (simp add: outbox_inv_def)
  have "map attempts_left (command_outbox ?d) = map attempts_left (command_outbox d)"
    using picked_claimable [OF dist, of _ now limit]
    by (auto simp: update_where_def attempts_left_def claimable_def)
  then have work: "outbox_work ?d = outbox_work d" by (simp add: outbox_work_def)
  have "map ob_id ?ms = map ob_id (filter (\<lambda>r. ob_id r \<in> set ?ids) (command_outbox d))" by simp
  then have "distinct (map ob_id ?ms)" using dist distinct_map_filter by metis
  moreover have "outbox_at ?d (ob_id m) = Some m" if "m \<in> set ?ms" for m
    unfolding outbox_at_def by (rule row_of_unique [OF dist']) (use that in \<open>auto simp: set_update_where\<close>)
  ultimately have batch: "batch_of ?ms ?d" by (auto simp: batch_of_def)
  have none: "\<forall>r \<in> set (command_outbox ?d). \<not> claimable now r" if "?ms = []"
  proof -
    have "?ids = []" using that picked_subset [of now limit "command_outbox d"]
      by (cases ?ids) (auto simp: filter_empty_conv)
    then show ?thesis using picked_nonempty [of _ "command_outbox d" now limit] by auto
  qed
  show ?thesis
    by (rule that [OF _ inv same_messages_update work batch none]) (simp_all add: claim_batch_run Let_def)
qed

lemma claim_effect:
  assumes "outbox_inv d"
  obtains ms d' where "claim cfg env n d = (Inr ms, d')" "outbox_inv d'" "same_messages d d'"
    "outbox_work d' = outbox_work d" "batch_of ms d'"
    "ms = [] \<Longrightarrow> \<forall>r \<in> set (command_outbox d'). \<not> claimable (clock env n) r"
proof -
  obtain k d1 where d1: "recover_stuck_publishing (clock env n) d = (Inr k, d1)" "outbox_inv d1"
      "same_messages d d1" "outbox_work d1 = outbox_work d"
    by (rule recover_effect [OF assms])
  obtain ms d' where d': "claim_batch (clock env n) (rc_locker_id cfg) (rc_batch_size cfg)
        (rc_lock_timeout_seconds cfg) d1 = (Inr ms, d')" "outbox_inv d'" "same_messages d1 d'"
      "outbox_work d' = outbox_work d1" "batch_of ms d'"
      "ms = [] \<Longrightarrow> \<forall>r \<in> set (command_outbox d'). \<not> claimable (clock env n) r"
    by (rule claim_batch_effect [OF d1(2)]) blast
  have "same_messages d d'" using d1(3) d'(3) by (rule same_messages_trans)
  then show ?thesis using that d1 d' by (simp add: claim_def bindM_step)
qed

text \<open>The step at which the drain looks at the stop event and the outbox for the last time.\<close>

fun last_look :: "nat \<Rightarrow> relay_config \<Rightarrow> relay_env \<Rightarrow> nat \<Rightarrow> int \<Rightarrow> db \<Rightarrow> nat" where
  "last_look 0 cfg env n count d = n"
| "last_look (Suc fuel) cfg env n count d =
     (if stop_is_set env n then n
      else case claim cfg env n d of
        (Inl e, d') \<Rightarrow> n
      | (Inr ms, d') \<Rightarrow>
          if ms = [] then n
          else (case dispatch_all cfg env (Suc n) count ms d' of
             (Inl e, d'') \<Rightarrow> n
           | (Inr (n', count'), d'') \<Rightarrow> last_look fuel cfg env n' count' d''))"

lemma drain_effect:
  assumes "outbox_inv d" "nat (outbox_work d) < fuel" "0 \<le> count"
  shows "\<exists>k d'. drain_available fuel cfg env n count d = Some (Inr k, d') \<and> count \<le> k \<and>
    outbox_inv d' \<and> same_messages d d' \<and>
    (\<not> stop_is_set env (last_look fuel cfg env n count d) \<longrightarrow>
       (\<forall>r \<in> set (command_outbox d'). \<not> claimable (clock env (last_look fuel cfg env n count d)) r))"
  using assms
proof (induction fuel arbitrary: n count d)
  case (Suc fuel)
  show ?case
  proof (cases "stop_is_set env n")
    case True
    then show ?thesis using Suc.prems(1) by auto
  next
    case False
    obtain ms d1 where d1: "claim cfg env n d = (Inr ms, d1)" "outbox_inv d1" "same_messages d d1"
        "outbox_work d1 = outbox_work d" "batch_of ms d1"
        "ms = [] \<Longrightarrow> \<forall>r \<in> set (command_outbox d1). \<not> claimable (clock env n) r"
      by (rule claim_effect [OF Suc.prems(1)]) blast
    show ?thesis
    proof (cases "ms = []")
      case True
      then show ?thesis using False d1 by auto
    next
      case ms: False
      obtain n' k d2 where d2: "dispatch_all cfg env (Suc n) count ms d1 = (Inr (n', k), d2)"
          "outbox_inv d2" "same_messages d1 d2" "count \<le> k"
          "stop_is_set env n' \<or> outbox_work d2 < outbox_work d1"
        using dispatch_all_effect [OF d1(2,5) Suc.prems(3), of cfg env "Suc n"] ms by auto
      have step: "drain_available (Suc fuel) cfg env n count d = drain_available fuel cfg env n' k d2"
          "last_look (Suc fuel) cfg env n count d = last_look fuel cfg env n' k d2"
        using False ms d1(1) d2(1) by simp_all
      have frame: "same_messages d d2" using d1(3) d2(3) by (rule same_messages_trans)
      show ?thesis
      proof (cases "stop_is_set env n'")
        case stop: True
        obtain m where "m \<in> set ms" using ms by (cases ms) auto
        then have "0 < attempts_left m" "m \<in> set (command_outbox d1)"
          using d1(2,5) outbox_inv_rowD [OF d1(2), of "ob_id m" m]
          by (auto simp: batch_of_def attempts_left_def outbox_row_ok_def outbox_at_def dest: row_of_SomeD)
        moreover have "attempts_left m \<le> outbox_work d1"
          unfolding outbox_work_def
          by (rule member_le_sum_list)
             (use calculation(2) d1(2) attempts_left_nonneg in \<open>auto simp: outbox_inv_def\<close>)
        ultimately have "0 < outbox_work d" using d1(4) by simp
        then obtain fuel' where "fuel = Suc fuel'" using Suc.prems(2) by (cases fuel) auto
        then show ?thesis using step stop frame d2(2,4) by auto
      next
        case nostop: False
        then have "nat (outbox_work d2) < fuel"
          using d2(5) d1(4) Suc.prems(2) outbox_work_nonneg [OF d2(2)] by auto
        from Suc.IH [OF d2(2) this, of k n'] obtain k' d' where
          "drain_available fuel cfg env n' k d2 = Some (Inr k', d')" "k \<le> k'" "outbox_inv d'"
          "same_messages d2 d'"
          "\<not> stop_is_set env (last_look fuel cfg env n' k d2) \<longrightarrow>
            (\<forall>r \<in> set (command_outbox d'). \<not> claimable (clock env (last_look fuel cfg env n' k d2)) r)"
          using Suc.prems(3) d2(4) by auto
        moreover have "same_messages d d'" using frame calculation(4) by (rule same_messages_trans)
        ultimately show ?thesis using step d2(4) by (metis order_trans)
      qed
    qed
  qed
qed simp


definition example_env :: relay_env where
  "example_env = \<lparr>publish = (\<lambda>n m. if n < 4 then Some ''timeout'' else None), clock = (\<lambda>n. seconds (int n)),
     draw = (\<lambda>_. 0), stop_at = None\<rparr>"

text \<open>
  C22: the drain ends, however the broker answers and however the clock moves: as many
  iterations as the outbox has publish attempts left, plus one, are enough.  It never raises,
  keeps the outbox well formed, touches no other table, and leaves no message that was due when it
  last looked at the outbox, unless it found the stop event set at that step.
\<close>

theorem drain_terminates:
  assumes "outbox_inv d" "nat (outbox_work d) < fuel"
  shows "\<exists>k d'. drain_available fuel cfg env n 0 d = Some (Inr k, d') \<and> 0 \<le> k \<and>
    outbox_inv d' \<and> same_messages d d' \<and>
    (\<not> stop_is_set env (last_look fuel cfg env n 0 d) \<longrightarrow>
       (\<forall>r \<in> set (command_outbox d'). \<not> claimable (clock env (last_look fuel cfg env n 0 d)) r))"
  by (rule drain_effect [OF assms order.refl])

theorem drain_terminates_witness:
  "\<exists>k d'. drain_available 6 (outbox_relay 50 30 60 ''relay'') example_env 0 0 example_outbox_db = Some (Inr k, d') \<and>
     0 \<le> k \<and> outbox_inv d' \<and> (\<forall>r \<in> set (command_outbox d').
       \<not> claimable (clock example_env (last_look 6 (outbox_relay 50 30 60 ''relay'') example_env 0 0 example_outbox_db)) r)"
proof -
  have "nat (outbox_work example_outbox_db) < 6"
    by (simp add: outbox_work_def example_outbox_db_def example_message_def new_outbox_row_def
        attempts_left_def)
  moreover have "\<not> stop_is_set example_env k" for k by (simp add: example_env_def stop_is_set_def)
  ultimately show ?thesis
    using drain_terminates [OF example_outbox_inv, of 6 "outbox_relay 50 30 60 ''relay''" example_env 0] by blast
qed


theorem dispatch_outcome_witness:
  "\<exists>d' q. dispatch (outbox_relay 50 30 60 ''relay'') example_env 0 (claimed_row 100 ''relay'' 30 example_message)
     (example_outbox_db\<lparr>command_outbox := [claimed_row 100 ''relay'' 30 example_message]\<rparr>) = (Inr (), d') \<and>
     outbox_at d' 7 = Some q \<and> ob_status q = ob_queued \<and> ob_attempt_count q = 1"
proof -
  let ?r = "claimed_row 100 ''relay'' 30 example_message"
  let ?d = "example_outbox_db\<lparr>command_outbox := [?r]\<rparr>"
  have "outbox_row_ok ?r"
    by (rule claimed_row_ok) (simp_all add: example_message_def claimable_def new_outbox_row_def outbox_row_ok_def int4_def)
  then have inv: "outbox_inv ?d" by (simp add: outbox_inv_def)
  have at: "outbox_at ?d (ob_id ?r) = Some ?r" by (simp add: outbox_at_def)
  have "still_claimed ?r ?r" by (simp add: still_claimed_def)
  from dispatch_outcome [OF inv at this, of "outbox_relay 50 30 60 ''relay''" example_env 0]
  show ?thesis
    by (auto simp: example_env_def example_message_def new_outbox_row_def claimed_row_def)
qed

end
