(* ===== verification/VM_System.thy ===== *)
theory VM_System
  imports Lifecycle Result_Processor Stale_Monitor Relay
begin

text \<open>
  The control plane as one system: every committed transaction of a handler, of the result
  consumer, of the stale-task monitor and of the relay is a step on the database.  The system
  refines the specification of \<open>Lifecycle\<close>, and the invariant of both is carried along
  every run.  A transaction that raises is rolled back, hence no step.
\<close>

definition abs_life :: "db \<Rightarrow> life" where
  "abs_life d = (inst_at d, task_at d)"

definition vm_inv :: "db \<Rightarrow> bool" where
  "vm_inv d \<longleftrightarrow> db_wf d \<and> life_inv (abs_life d)"

lemma vm_invD:
  assumes "vm_inv d"
  shows "db_wf d" "life_inv (inst_at d, task_at d)" "distinct (map task_id (instance_tasks d))"
  using assms by (simp_all add: vm_inv_def abs_life_def db_wf_def)

lemma idle_idle_in: "idle d iid = idle_in (task_at d) iid"
  by (simp add: idle_def idle_in_def)

text \<open>A step of the system: the invariant again, through steps of the specification.\<close>

definition follows :: "db \<Rightarrow> db \<Rightarrow> bool" where
  "follows d d' \<longleftrightarrow> vm_inv d' \<and> life_step\<^sup>*\<^sup>* (abs_life d) (abs_life d')"

lemma followsI: "db_wf d' \<Longrightarrow> vm_inv d \<Longrightarrow> life_step (abs_life d) (abs_life d') \<Longrightarrow> follows d d'"
  using life_step_inv [of "abs_life d" "abs_life d'"] by (simp add: follows_def vm_inv_def)

lemma follows_same: "db_wf d' \<Longrightarrow> vm_inv d \<Longrightarrow> abs_life d' = abs_life d \<Longrightarrow> follows d d'"
  by (auto simp: follows_def vm_inv_def)

lemma follows_trans: "follows d d1 \<Longrightarrow> follows d1 d2 \<Longrightarrow> follows d d2"
  unfolding follows_def by (meson rtranclp_trans)

lemma followsD: "follows d d' \<Longrightarrow> vm_inv d'"
  by (simp add: follows_def)

lemma follows_refl: "vm_inv d \<Longrightarrow> follows d d"
  by (simp add: follows_def)

section \<open>The instance commands\<close>

lemma accepts_follows:
  assumes inv: "vm_inv d" and acc: "accepts cfg ids iid c rp payload i' d r d'"
    and idle: "idle d iid" and i: "inst_at d iid = Some i" "inst_status i \<noteq> deleted"
    and e: "enters_pending c (new_task_id ids) i i'" and rr: "revert_ready c rp"
  shows "follows d d'"
proof -
  have "inst_ok i" "inst_id i = iid" using life_invD(1,2) [OF vm_invD(2) [OF inv] i(1)] by simp_all
  then have "inst_ok i'" using e i(2) by (cases c) (auto simp: enters_pending_def inst_ok_def)
  then have "life_step (inst_at d, task_at d)
      ((inst_at d)(iid \<mapsto> i'), (task_at d)(new_task_id ids \<mapsto> queued_task ids iid c rp))"
    using acc idle i e rr \<open>inst_id i = iid\<close>
    by (intro life_step.open_task)
       (simp_all add: accepts_def idle_idle_in same_place_def enters_pending_def queued_task_def)
  then show ?thesis using acc inv
    by (intro followsI) (simp_all add: accepts_def writes_instance_def abs_life_def)
qed

lemma accepts_new_follows:
  assumes inv: "vm_inv d" and acc: "accepts cfg ids iid cmd_create rp payload i d r d'"
    and i: "inst_at d iid = None" "inst_status i = creating_pending" "inst_id i = iid"
      "inst_last_task_id i = Some (new_task_id ids)" "inst_reserve_resources i" "inst_deleted_at i = None"
  shows "follows d d'"
proof -
  have "idle_in (task_at d) iid"
    using life_invD(4) [OF vm_invD(2) [OF inv]] i(1) unfolding idle_in_def by metis
  then have "life_step (inst_at d, task_at d)
      ((inst_at d)(iid \<mapsto> i), (task_at d)(new_task_id ids \<mapsto> queued_task ids iid cmd_create rp))"
    using acc i
    by (intro life_step.open_task)
       (simp_all add: accepts_def queued_task_def inst_ok_def revert_ready_def)
  then show ?thesis using acc inv
    by (intro followsI) (simp_all add: accepts_def writes_instance_def abs_life_def)
qed

lemma create_follows:
  "vm_inv d \<Longrightarrow> create_instance_handle cfg ids cmd d = (Inr r, d') \<Longrightarrow> follows d d'"
  using create_instance_effect [OF vm_invD(1)] accepts_new_follows by blast

lemma delete_follows:
  assumes "vm_inv d" "delete_instance_handle cfg ids iid d = (Inr r, d')"
  shows "follows d d'"
  using delete_instance_effect [OF vm_invD(1) [OF assms(1)] assms(2)] accepts_follows [OF assms(1)]
  by (auto simp: revert_ready_def)

lemma live_reserved:
  assumes "vm_inv d" "inst_at d iid = Some i" "inst_status i \<in> {running, stopped}"
  shows "inst_reserve_resources i"
  using life_invD(2) [OF vm_invD(2) [OF assms(1)] assms(2)] assms(3) by (auto simp: inst_ok_def)

lemma stop_follows:
  assumes "vm_inv d" "stop_instance_handle cfg ids iid d = (Inr r, d')"
  shows "follows d d'"
proof -
  obtain i i' rp payload where i: "inst_at d iid = Some i" "inst_status i \<in> {running, stopped}" "idle d iid"
      "enters_pending cmd_stop (new_task_id ids) i i'" "accepts cfg ids iid cmd_stop rp payload i' d r d'"
      "reverted_status cmd_stop rp = JStr (instance_status_str (inst_status i))"
      "reverted_reserve cmd_stop rp = inst_reserve_resources i"
    using stop_instance_effect [OF vm_invD(1) [OF assms(1)] assms(2)] by blast
  then have "revert_ready cmd_stop rp"
    using live_reserved [OF assms(1) i(1,2)] by (auto simp: revert_ready_def)
  then show ?thesis using accepts_follows [OF assms(1) i(5,3,1) _ i(4)] i(2) by auto
qed

lemma start_follows:
  assumes "vm_inv d" "start_instance_handle cfg ids iid host d = (Inr r, d')"
  shows "follows d d'"
proof -
  obtain i i' rp payload where i: "inst_at d iid = Some i" "inst_status i \<in> {running, stopped}" "idle d iid"
      "enters_pending cmd_start (new_task_id ids) i i'" "accepts cfg ids iid cmd_start rp payload i' d r d'"
      "reverted_status cmd_start rp = JStr (instance_status_str (inst_status i))"
      "reverted_reserve cmd_start rp = inst_reserve_resources i"
    using start_instance_effect [OF vm_invD(1) [OF assms(1)] assms(2)] by blast
  then have "revert_ready cmd_start rp"
    using live_reserved [OF assms(1) i(1,2)] by (auto simp: revert_ready_def)
  then show ?thesis using accepts_follows [OF assms(1) i(5,3,1) _ i(4)] i(2) by auto
qed

lemma update_follows:
  assumes "vm_inv d" "update_instance_handle cfg ids cmd d = (Inr r, d')"
  shows "follows d d'"
proof -
  obtain i i' rp payload where i: "inst_at d (up_instance_id cmd) = Some i" "inst_status i \<noteq> deleted"
      "idle d (up_instance_id cmd)" "enters_pending cmd_update (new_task_id ids) i i'"
      "accepts cfg ids (up_instance_id cmd) cmd_update rp payload i' d r d'"
      "inst_deleted_at i = None \<longrightarrow> dget rp ''previous_deleted_at'' = JNull"
    using update_instance_effect [OF vm_invD(1) [OF assms(1)] assms(2)] by (elim exE conjE) (rule that)
  have "inst_deleted_at i = None"
    using life_invD(2) [OF vm_invD(2) [OF assms(1)] i(1)] i(2) by (auto simp: inst_ok_def)
  then have "revert_ready cmd_update rp" using i(6) by (simp add: revert_ready_def)
  then show ?thesis using accepts_follows [OF assms(1) i(5,3,1,2,4)] by simp
qed


section \<open>Writes of a running task\<close>

lemma only_tasks_wf:
  assumes "db_wf d" "only_tasks d d'" "task_at d' = (task_at d)(tid \<mapsto> t)"
  shows "db_wf d'" "inst_at d' = inst_at d"
proof -
  note f = only_tasks_frame [OF assms(2)]
  show "inst_at d' = inst_at d" using f by (simp add: inst_at_def fun_eq_iff)
  show "db_wf d'"
    using assms(1,3) f by (auto simp: db_wf_def distinct_instances_def outbox_inv_def)
qed

lemma task_update_effect:
  assumes "db_wf d" "apply_task_update now op tid d = (Inr t', d')"
  obtains t where "task_at d tid = Some t" "same_request t t'" "task_stat t' = updated_status op"
    "task_at d' = (task_at d)(tid \<mapsto> t')" "inst_at d' = inst_at d" "db_wf d'"
proof -
  note ok = pg_task.set_status_ok [OF assms(2)]
  then obtain t where "task_at d tid = Some t" "same_request t t'" by blast
  then show ?thesis using that ok only_tasks_wf [OF assms(1)] by blast
qed

lemma progress_follows:
  assumes "vm_inv d" "apply_task_update now op tid d = (Inr t', d')" "task_at d tid = Some t"
    "task_active (task_stat t)" "updated_status op \<in> {task_running, cancel_pending}"
  shows "follows d d'"
proof -
  obtain u where u: "task_at d tid = Some u" "same_request u t'" "task_stat t' = updated_status op"
    "task_at d' = (task_at d)(tid \<mapsto> t')" "inst_at d' = inst_at d" "db_wf d'"
    by (rule task_update_effect [OF vm_invD(1) [OF assms(1)] assms(2)])
  then have "life_step (abs_life d) (abs_life d')"
    using assms(3-5) by (auto simp: abs_life_def intro!: life_step.progress_task)
  then show ?thesis using followsI u(6) assms(1) by blast
qed

lemma settle_follows:
  assumes inv: "vm_inv d" and t: "task_at d tid = Some t" "task_active (task_stat t)"
    and i: "inst_at d (task_instance_id t) = Some i"
    and d1: "only_instances d d1" "inst_at d1 = (inst_at d)(task_instance_id t \<mapsto> i')"
    and i': "same_place i i'" "inst_ok i'" "\<not> is_pending (inst_status i')"
    and upd: "apply_task_update now op tid d1 = (Inr t', d')" "task_terminal (updated_status op)"
  shows "follows d d'"
proof -
  note w = only_instances_wf [OF vm_invD(1) [OF inv] d1(1)]
  obtain u where u: "task_at d1 tid = Some u" "same_request u t'" "task_stat t' = updated_status op"
    "task_at d' = (task_at d1)(tid \<mapsto> t')" "inst_at d' = inst_at d1" "db_wf d'"
    by (rule task_update_effect [OF w(1) upd(1)])
  have "life_step (inst_at d, task_at d)
      ((inst_at d)(task_instance_id t \<mapsto> i'), (task_at d)(tid \<mapsto> t'))"
    using t i i' u upd(2) w(2) by (intro life_step.finish_task) simp_all
  then have "life_step (abs_life d) (abs_life d')"
    using u d1(2) w(2) by (simp add: abs_life_def)
  then show ?thesis using followsI u(6) inv by blast
qed

lemma revert_settles:
  assumes inv: "vm_inv d" and t: "task_at d tid = Some t"
    and rev: "revert_db inet now (task_instance_id t) (task_cmd t) (task_request_payload t) d = (Inr u, d1)"
  obtains i i' where "inst_at d (task_instance_id t) = Some i" "only_instances d d1"
    "inst_at d1 = (inst_at d)(task_instance_id t \<mapsto> i')" "same_place i i'" "inst_ok i'"
    "\<not> is_pending (inst_status i')" "inst_last_task_id i' = None"
proof -
  let ?c = "task_cmd t" and ?p = "task_request_payload t"
  have rr: "revert_ready ?c ?p" by (rule life_invD(5) [OF vm_invD(2) [OF inv] t])
  obtain i i' where i: "inst_at d (task_instance_id t) = Some i"
      "inst_at d1 = (inst_at d)(task_instance_id t \<mapsto> i')" "only_instances d d1"
      "inst_id i' = inst_id i" "inst_tenant_id i' = inst_tenant_id i" "inst_host_node i' = inst_host_node i"
      "inst_last_task_id i' = None" "?c \<noteq> cmd_update \<Longrightarrow> inst_deleted_at i' = None"
      "?c = cmd_update \<Longrightarrow> \<exists>dt. parse_timestamp (dget ?p ''previous_deleted_at'') = Inr dt \<and>
         bind_timestamptz dt = Inr (inst_deleted_at i')"
      "reverted_status ?c ?p = JStr (instance_status_str (inst_status i'))"
      "inst_reserve_resources i' = reverted_reserve ?c ?p"
    by (rule pg_inst.revert_ok [OF rev [unfolded revert_db_def]]) blast
  have del: "inst_deleted_at i' = None"
  proof (cases "?c = cmd_update")
    case True
    then have "dget ?p ''previous_deleted_at'' = JNull" using rr by (simp add: revert_ready_def)
    then show ?thesis using i(9) True by (auto simp: parse_timestamp_def bind_timestamptz_def)
  qed (use i in simp)
  have "inst_ok i' \<and> \<not> is_pending (inst_status i')"
    using rr i(10,11) del
    by (cases ?c) (auto simp: revert_ready_def inst_ok_def reverted_status_def reverted_reserve_def)
  then show ?thesis using that i by (simp add: same_place_def)
qed


section \<open>Results\<close>

text \<open>
  The status of an updated instance is taken over from the result unchecked, and from no other
  result.  So the invariant relies on what the VM manager reports when an update succeeds:
  \<^verbatim>\<open>running\<close> or \<^verbatim>\<open>stopped\<close> (\<^verbatim>\<open>updateVM\<close> in
  \<^verbatim>\<open>src/vm-manager/internal/service/manager.go\<close>), or nothing.  Every other event may carry
  any result.
\<close>

definition reported_status :: "dict \<Rightarrow> json" where
  "reported_status res = py_or (dget res ''status'') (JStr ''running'')"

definition settled_result :: "vm_result_event \<Rightarrow> bool" where
  "settled_result ev \<longleftrightarrow> (case result_dict ev of Inl _ \<Rightarrow> True
     | Inr res \<Rightarrow> reported_status res \<in> {JStr ''running'', JStr ''stopped''})"

definition reports_settled :: "db \<Rightarrow> vm_result_event \<Rightarrow> bool" where
  "reports_settled d ev \<longleftrightarrow> (\<forall>t. task_at d (ev_task_id ev) = Some t \<longrightarrow> task_cmd t = cmd_update \<longrightarrow>
     ev_status ev = JStr ''succeeded'' \<longrightarrow> settled_result ev)"

lemma reports_settledD:
  "reports_settled d ev \<Longrightarrow> task_at d (ev_task_id ev) = Some t \<Longrightarrow> ev_status ev = JStr ''succeeded'' \<Longrightarrow>
     task_cmd t = cmd_update \<Longrightarrow> settled_result ev"
  by (simp add: reports_settled_def)

lemma update_state_settles:
  assumes "instance_update_state inet now iid (JStr (instance_status_str st)) (st \<noteq> deleted) ltid
      (if st = deleted then Some now else None) ip d = (Inr i', d1)"
    and "st \<in> {running, stopped, deleted}"
  obtains i where "inst_at d iid = Some i" "only_instances d d1" "inst_at d1 = (inst_at d)(iid \<mapsto> i')"
    "same_place i i'" "inst_ok i'" "inst_status i' = st" "inst_last_task_id i' = ltid" "inst_spec i' = inst_spec i"
proof -
  note ok = pg_inst.upd_state_ok [OF assms(1)]
  then obtain i where i: "inst_at d iid = Some i" "same_place i i'" "inst_spec i' = inst_spec i"
    by (auto simp: same_place_def)
  have st: "inst_status i' = st" using ok by simp
  then have "inst_ok i'" using ok assms(2) by (auto simp: inst_ok_def)
  then show thesis using that i st ok by blast
qed

text \<open>The status a success settles the instance in.\<close>

definition success_status :: "task_command \<Rightarrow> dict \<Rightarrow> json" where
  "success_status c res = (case c of cmd_update \<Rightarrow> reported_status res
     | cmd_stop \<Rightarrow> JStr ''stopped'' | cmd_delete \<Rightarrow> JStr ''deleted'' | _ \<Rightarrow> JStr ''running'')"

lemma handle_success_ok:
  assumes "handle_success inet now c payload iid ev d = (Inr u, d1)"
    and settled: "c = cmd_update \<Longrightarrow> settled_result ev"
  obtains i i' res where "inst_at d iid = Some i" "only_instances d d1" "inst_at d1 = (inst_at d)(iid \<mapsto> i')"
    "same_place i i'" "inst_ok i'" "\<not> is_pending (inst_status i')"
    "inst_last_task_id i' = Some (ev_task_id ev)" "inst_spec i' = inst_spec i"
    "JStr (instance_status_str (inst_status i')) = success_status c res"
    "c \<noteq> cmd_delete \<longrightarrow> result_dict ev = Inr res"
proof -
  obtain st i' ip res where upd: "instance_update_state inet now iid (JStr (instance_status_str st))
        (st \<noteq> deleted) (Some (ev_task_id ev)) (if st = deleted then Some now else None) ip d = (Inr i', d1)"
      "st \<in> {running, stopped, deleted}" "JStr (instance_status_str st) = success_status c res"
      "c \<noteq> cmd_delete \<Longrightarrow> result_dict ev = Inr res"
  proof (cases c)
    case cmd_create
    with assms(1) show thesis by (auto simp: handle_success_def success_status_def intro: that [of running])
  next
    case cmd_start
    with assms(1) show thesis by (auto simp: handle_success_def success_status_def intro: that [of running])
  next
    case cmd_stop
    with assms(1) show thesis by (auto simp: handle_success_def success_status_def intro: that [of stopped])
  next
    case cmd_delete
    with assms(1) show thesis by (auto simp: handle_success_def success_status_def intro: that [of deleted])
  next
    case cmd_update
    with assms(1) obtain res i' where res: "result_dict ev = Inr res"
      and upd: "instance_update_state inet now iid (reported_status res) True (Some (ev_task_id ev)) None
        (py_or (dget res ''ip_address'') (dget payload ''previous_ip_address'')) d = (Inr i', d1)"
      by (auto simp: handle_success_def reported_status_def)
    then consider "reported_status res = JStr ''running''" | "reported_status res = JStr ''stopped''"
      using settled [OF cmd_update] by (auto simp: settled_result_def)
    then show thesis
    proof cases
      case 1
      show ?thesis
        by (rule that [of running _ i' res]) (use 1 upd res cmd_update in \<open>auto simp: success_status_def\<close>)
    next
      case 2
      show ?thesis
        by (rule that [of stopped _ i' res]) (use 2 upd res cmd_update in \<open>auto simp: success_status_def\<close>)
    qed
  qed
  obtain i where i: "inst_at d iid = Some i" "only_instances d d1" "inst_at d1 = (inst_at d)(iid \<mapsto> i')"
    "same_place i i'" "inst_ok i'" "inst_status i' = st" "inst_last_task_id i' = Some (ev_task_id ev)"
    "inst_spec i' = inst_spec i"
    by (rule update_state_settles [OF upd(1,2)])
  show thesis by (rule that [OF i(1-5) _ i(7,8)]) (use i(6) upd(2-4) in auto)
qed

text \<open>The four outcomes of an event on a task that has not finished.\<close>

lemma process_found:
  assumes "process inet now ev d = (Inr u, d')" "task_at d (ev_task_id ev) = Some t"
    "task_active (task_stat t)"
  obtains (running) "ev_status ev = JStr ''running''" "task_stat t = cancel_pending" "d' = d"
  | (started) t' where "ev_status ev = JStr ''running''" "task_stat t \<noteq> cancel_pending"
      "apply_task_update now (MarkRunning (max (ev_attempt_count ev) 1)) (ev_task_id ev) d = (Inr t', d')"
  | (succeeded) v d1 t' where "ev_status ev = JStr ''succeeded''"
      "handle_success inet now (task_cmd t) (task_request_payload t) (task_instance_id t) ev d = (Inr v, d1)"
      "apply_task_update now (MarkTerminal succeeded (max (ev_attempt_count ev) 1) (ev_result ev) JNull JNull)
         (ev_task_id ev) d1 = (Inr t', d')"
  | (canceled) v d1 t' where "ev_status ev = JStr ''canceled''"
      "revert_db inet now (task_instance_id t) (task_cmd t) (task_request_payload t) d = (Inr v, d1)"
      "apply_task_update now (MarkCanceled (max (ev_attempt_count ev) (task_attempt_count t)) None None (ev_result ev)
         (py_or (ev_error_code ev) (JStr ''CANCELED'')) (py_or (ev_error_message ev) (JStr ''task canceled'')))
         (ev_task_id ev) d1 = (Inr t', d')"
  | (failed) v d1 t' where "ev_status ev = JStr ''failed''"
      "revert_db inet now (task_instance_id t) (task_cmd t) (task_request_payload t) d = (Inr v, d1)"
      "apply_task_update now (MarkTerminal failed (max (ev_attempt_count ev) 1) (ev_result ev) (ev_error_code ev)
         (ev_error_message ev)) (ev_task_id ev) d1 = (Inr t', d')"
proof -
  have st: "task_stat t \<notin> {task_status.succeeded, task_status.failed, task_status.canceled}"
    using assms(3) by auto
  have id: "task_id t = ev_task_id ev" using task_at_id [OF assms(2)] .
  obtain i where i: "inst_at d (task_instance_id t) = Some i" and in_set: "ev_status ev \<in> set event_statuses"
    using assms(1,2) st
    by (auto simp: process_def bindM_task_get split: if_splits)
  have iid: "inst_id i = task_instance_id t" using inst_at_id [OF i] .
  have "require_instance (task_instance_id t) d = (Inr i, d)" using i by simp
  then have run: "process inet now ev d =
     (if ev_status ev = JStr ''running'' then
           (if task_stat t \<noteq> cancel_pending
            then bindM (mark_running now (task_id t) (max (ev_attempt_count ev) 1)) (\<lambda>_. returnM ())
            else returnM ())
         else if ev_status ev = JStr ''succeeded'' then
           bindM (handle_success inet now (task_cmd t) (task_request_payload t) (inst_id i) ev) (\<lambda>_.
           bindM (mark_terminal now (task_id t) task_status.succeeded (max (ev_attempt_count ev) 1) (ev_result ev)
                    JNull JNull) (\<lambda>_. returnM ()))
         else if ev_status ev = JStr ''canceled'' then
           bindM (revert_db inet now (inst_id i) (task_cmd t) (task_request_payload t)) (\<lambda>_.
           bindM (mark_canceled now (task_id t) (max (ev_attempt_count ev) (task_attempt_count t)) None None
                    (ev_result ev) (py_or (ev_error_code ev) (JStr ''CANCELED''))
                    (py_or (ev_error_message ev) (JStr ''task canceled''))) (\<lambda>_. returnM ()))
         else
           bindM (revert_db inet now (inst_id i) (task_cmd t) (task_request_payload t)) (\<lambda>_.
           bindM (mark_terminal now (task_id t) task_status.failed (max (ev_attempt_count ev) 1) (ev_result ev)
                    (ev_error_code ev) (ev_error_message ev)) (\<lambda>_. returnM ()))) d"
    using assms(2) st in_set
    by (auto simp: process_def bindM_task_get bindM_run bindM_step hashable_def event_statuses_def)
  consider "ev_status ev = JStr ''running''" | "ev_status ev = JStr ''succeeded''"
    | "ev_status ev = JStr ''canceled''" | "ev_status ev = JStr ''failed''"
    using in_set by (auto simp: event_statuses_def)
  then show thesis
    using assms(1) unfolding run id iid
    by cases (auto intro: running started succeeded canceled failed split: if_splits)
qed

lemma process_idle:
  assumes "process inet now ev d = (Inr u, d')"
    and "\<And>t. task_at d (ev_task_id ev) = Some t \<Longrightarrow> task_terminal (task_stat t)"
  shows "d' = d"
proof (cases "task_at d (ev_task_id ev)")
  case None
  then show ?thesis using assms(1)
    by (auto simp: process_def bindM_task_get bindM_run split: if_splits sum.splits)
next
  case (Some t)
  then have "task_stat t \<in> {succeeded, failed, canceled}" using assms(2) by (simp add: task_terminal_def)
  then show ?thesis using assms(1) Some
    by (auto simp: process_def bindM_task_get bindM_run split: if_splits)
qed


lemma process_follows:
  assumes inv: "vm_inv d" and run: "process inet now ev d = (Inr u, d')" and settled: "reports_settled d ev"
  shows "follows d d'"
proof (cases "\<exists>t. task_at d (ev_task_id ev) = Some t \<and> task_active (task_stat t)")
  case False
  then have "d' = d" using process_idle [OF run] by (auto simp: task_terminal_not_active)
  then show ?thesis using inv by (simp add: follows_refl)
next
  case True
  then obtain t where t: "task_at d (ev_task_id ev) = Some t" "task_active (task_stat t)" by blast
  from run t show ?thesis
  proof (cases rule: process_found)
    case running
    then show ?thesis using inv by (simp add: follows_refl)
  next
    case (started t')
    show ?thesis by (rule progress_follows [OF inv started(3) t]) simp
  next
    case (succeeded v d1 t')
    obtain i i' where s: "inst_at d (task_instance_id t) = Some i" "only_instances d d1"
        "inst_at d1 = (inst_at d)(task_instance_id t \<mapsto> i')" "same_place i i'" "inst_ok i'" "\<not> is_pending (inst_status i')"
      by (rule handle_success_ok [OF succeeded(2) reports_settledD [OF settled t(1) succeeded(1)]]) blast
    show ?thesis by (rule settle_follows [OF inv t s succeeded(3)]) simp
  next
    case (canceled v d1 t')
    obtain i i' where s: "inst_at d (task_instance_id t) = Some i" "only_instances d d1"
        "inst_at d1 = (inst_at d)(task_instance_id t \<mapsto> i')" "same_place i i'" "inst_ok i'" "\<not> is_pending (inst_status i')"
      by (rule revert_settles [OF inv t(1) canceled(2)]) blast
    show ?thesis by (rule settle_follows [OF inv t s canceled(3)]) simp
  next
    case (failed v d1 t')
    obtain i i' where s: "inst_at d (task_instance_id t) = Some i" "only_instances d d1"
        "inst_at d1 = (inst_at d)(task_instance_id t \<mapsto> i')" "same_place i i'" "inst_ok i'" "\<not> is_pending (inst_status i')"
      by (rule revert_settles [OF inv t(1) failed(2)]) blast
    show ?thesis by (rule settle_follows [OF inv t s failed(3)]) simp
  qed
qed

section \<open>Cancel, retry, sweep, relay\<close>

lemma require_task_ok [simp]:
  "require_task tid d = (Inr t, d') \<longleftrightarrow> task_at d tid = Some t \<and> d' = d"
  by (auto simp: require_task_def bindM_task_get split: option.splits)

lemma enqueue_wf:
  assumes "db_wf d" "enqueue_command nid now topic payload tid rid k d = (Inr m, d')" "task_at d tid \<noteq> None"
  shows "db_wf d'" "abs_life d' = abs_life d"
proof -
  note f = only_outbox_frame [OF enqueue_only_outbox [OF assms(2)]]
  have t: "task_at d' = task_at d" "inst_at d' = inst_at d" using f by (simp_all add: task_at_def inst_at_def fun_eq_iff)
  then show "abs_life d' = abs_life d" by (simp add: abs_life_def)
  have "ob_task_id q = tid \<or> (\<exists>r \<in> set (command_outbox d). ob_task_id q = ob_task_id r)"
    if "q \<in> set (command_outbox d')" for q
    using assms(2) that
    by (auto simp: enqueue_command_run set_update_where new_outbox_row_def split: option.splits)
  then have "\<forall>q \<in> set (command_outbox d'). task_at d' (ob_task_id q) \<noteq> None"
    using assms(1,3) unfolding t db_wf_def by metis
  moreover have "outbox_inv d'"
    using enqueue_preserves_inv [OF _ assms(2)] assms(1) by (simp add: db_wf_def)
  ultimately show "db_wf d'" using assms(1) f by (simp add: db_wf_def distinct_instances_def)
qed

lemma cancel_cases:
  assumes "cancel_task_handle cfg ids cmd d = (Inr r, d')"
  obtains (queued) t i u d1 t' where "task_at d (ca_task_id cmd) = Some t" "task_stat t = task_queued"
      "inst_at d (task_instance_id t) = Some i"
      "revert_db (hc_inet cfg) (at_time ids) (task_instance_id t) (task_cmd t) (task_request_payload t) d = (Inr u, d1)"
      "apply_task_update (at_time ids) (MarkCanceled (task_attempt_count t) (ca_actor_user_id cmd) (ca_reason cmd) JNull
         (JStr ''CANCELED'') (JStr (str_or (ca_reason cmd) ''task canceled before execution'')))
         (ca_task_id cmd) d1 = (Inr t', d')" "r = outcome_of t' (at_time ids)"
  | (running) t i t' d1 m payload where "task_at d (ca_task_id cmd) = Some t" "task_stat t = task_running"
      "inst_at d (task_instance_id t) = Some i"
      "apply_task_update (at_time ids) (MarkCancelPending (ca_actor_user_id cmd) (ca_reason cmd)) (ca_task_id cmd) d = (Inr t', d1)"
      "dget payload ''target_task_id'' = JStr (uuid_str (ca_task_id cmd))"
      "enqueue_command (new_outbox_id ids) (at_time ids) ''instance.cancel'' payload (ca_task_id cmd)
         (new_request_id ids) (hc_outbox_max_attempts cfg) d1 = (Inr m, d')"
      "r = outcome_of t' (at_time ids)"
  | (already) t where "task_at d (ca_task_id cmd) = Some t" "task_stat t \<in> {cancel_pending, canceled}"
      "d' = d" "r = outcome_of t (at_time ids)"
proof -
  obtain t i where t: "task_at d (ca_task_id cmd) = Some t" "inst_at d (task_instance_id t) = Some i"
    using assms by (auto simp: cancel_task_handle_def Let_def)
  have id: "task_id t = ca_task_id cmd" "inst_id i = task_instance_id t"
    using task_at_id [OF t(1)] inst_at_id [OF t(2)] by simp_all
  show thesis
  proof (cases "task_stat t")
    case task_queued
    then show thesis using assms t id queued by (auto simp: cancel_task_handle_def Let_def)
  next
    case task_running
    then show thesis using assms t id
      by (auto simp: cancel_task_handle_def Let_def intro!: running [OF t(1) _ t(2)])
  next
    case cancel_pending
    show thesis by (rule already [OF t(1)])
      (use assms t cancel_pending in \<open>auto simp: cancel_task_handle_def Let_def\<close>)
  next
    case canceled
    show thesis by (rule already [OF t(1)])
      (use assms t canceled in \<open>auto simp: cancel_task_handle_def Let_def\<close>)
  next
    case succeeded
    then show thesis using assms t by (simp add: cancel_task_handle_def Let_def)
  next
    case failed
    then show thesis using assms t by (simp add: cancel_task_handle_def Let_def)
  qed
qed

lemma cancel_follows:
  assumes inv: "vm_inv d" and run: "cancel_task_handle cfg ids cmd d = (Inr r, d')"
  shows "follows d d'"
  using run
proof (cases rule: cancel_cases)
  case (queued t i u d1 t')
  obtain i i' where s: "inst_at d (task_instance_id t) = Some i" "only_instances d d1"
      "inst_at d1 = (inst_at d)(task_instance_id t \<mapsto> i')" "same_place i i'" "inst_ok i'" "\<not> is_pending (inst_status i')"
    by (rule revert_settles [OF inv queued(1,4)]) blast
  show ?thesis by (rule settle_follows [OF inv queued(1) _ s queued(5)]) (simp_all add: queued(2))
next
  case (running t i t' d1 m payload)
  have f: "follows d d1" using progress_follows [OF inv running(4,1)] running(2) by simp
  then have wf: "db_wf d1" by (simp add: follows_def vm_inv_def)
  have "task_at d1 (ca_task_id cmd) \<noteq> None"
    using pg_task.set_status_ok [OF running(4)] by simp
  then show ?thesis using enqueue_wf [OF wf running(6)] f
    by (simp add: follows_def vm_inv_def)
next
  case (already t)
  then show ?thesis using inv by (simp add: follows_refl)
qed


lemma clone_wf:
  assumes "db_wf d" "clone_for_retry src tid rid now d = (Inr t, d')"
  shows "db_wf d'" "task_at d tid = None" "task_at d' = (task_at d)(tid \<mapsto> t)" "inst_at d' = inst_at d"
    "task_id t = tid" "task_instance_id t = task_instance_id src" "task_cmd t = task_cmd src"
    "task_stat t = task_queued" "task_request_payload t = task_request_payload src"
    "task_attempt_count t = 0" "task_max_attempts t = task_max_attempts src" "task_request_id t = rid"
proof -
  let ?row = "\<lparr>task_id = tid, task_instance_id = task_instance_id src, task_cmd = task_cmd src,
        task_stat = task_queued, task_request_id = rid,
        task_request_payload = task_request_payload src, task_result_payload = JNull,
        task_error_code = None, task_error_message = None, task_attempt_count = 0,
        task_max_attempts = task_max_attempts src, task_created_at = now,
        task_started_at = None, task_finished_at = None, task_updated_at = now,
        tm_retry_of_task_id = Some (task_id src), tm_canceled_by = None, tm_cancel_reason = None\<rparr>"
  have ok: "task_violates d ?row = None" and t: "t = to_task ?row"
    and d': "d' = instance_tasks_update (\<lambda>rs. rs @ [?row]) d"
    using assms(2) by (auto simp: clone_for_retry_def sql_insert_def split: option.splits)
  have fresh: "row_of task_id tid (instance_tasks d) = None"
    using ok by (auto simp: task_violates_def exists_row_def split: if_splits)
  then show none: "task_at d tid = None" by (simp add: task_at_def)
  show t': "task_at d' = (task_at d)(tid \<mapsto> t)"
    using fresh by (auto simp: d' t task_at_def row_of_append fun_eq_iff split: option.splits)
  show "inst_at d' = inst_at d" by (simp add: d' inst_at_def fun_eq_iff)
  have "distinct (map task_id (instance_tasks d'))"
    using assms(1) fresh by (simp add: d' db_wf_def row_of_None_iff)
  then show "db_wf d'"
    using assms(1) unfolding db_wf_def t' by (simp add: d' distinct_instances_def outbox_inv_def)
qed (use assms(2) in \<open>auto simp: clone_for_retry_def sql_insert_def split: option.splits\<close>)

definition retry_check :: "instance_task \<Rightarrow> vm_instance \<Rightarrow> resource_spec \<Rightarrow> 'k \<Rightarrow> 'k check_input" where
  "retry_check src i requested scope = \<lparr>chk_scope = scope, chk_current = Some (inst_spec i),
     chk_requested = requested,
     chk_current_profile = profile_for_instance (inst_status i) (inst_reserve_resources i),
     chk_requested_profile = requested_profile (task_cmd src) (task_request_payload src)\<rparr>"

lemma retry_cases:
  assumes "vm_inv d" "retry_task_handle cfg ids tid d = (Inr r, d')"
  obtains src i requested u d1 cloned d2 m message where
    "task_at d tid = Some src" "task_stat src \<in> {failed, canceled}"
    "inst_at d (task_instance_id src) = Some i" "inst_status i \<noteq> deleted" "idle d (task_instance_id src)"
    "spec_of_payload (task_request_payload src) (inst_spec i) = Inr requested"
    "apply_pending_db (hc_inet cfg) (at_time ids) i (task_cmd src) (task_request_payload src)
       (new_task_id ids) d = (Inr u, d1)"
    "clone_for_retry src (new_task_id ids) (new_request_id ids) (at_time ids) d1 = (Inr cloned, d2)"
    "enqueue_command (new_outbox_id ids) (at_time ids) (''instance.'' @ task_command_str (task_cmd src)) message
       (task_id cloned) (new_request_id ids) (hc_outbox_max_attempts cfg) d2 = (Inr m, d')"
    "r = outcome_of cloned (at_time ids)"
    "task_cmd src \<in> {cmd_create, cmd_update, cmd_start} \<longrightarrow>
       require_quota cfg (retry_check src i requested (inst_tenant_id i)) d = (Inr (), d) \<and>
       assert_capacity (retry_check src i requested
         (py_str cfg (py_or (dget (task_request_payload src) ''host_node'') (JStr (inst_host_node i))))) d = (Inr (), d)"
proof -
  obtain src i where t: "task_at d tid = Some src" "task_stat src \<in> {failed, canceled}"
      "inst_at d (task_instance_id src) = Some i" "inst_status i \<noteq> deleted"
    using assms(2) by (auto simp: retry_task_handle_def split: if_splits)
  note idle = require_idle_ok [OF vm_invD(3) [OF assms(1)]]
  have id: "inst_id i = task_instance_id src" using inst_at_id [OF t(3)] .
  let ?takes = "task_cmd src \<in> {cmd_create, cmd_update, cmd_start}"
  let ?host = "py_str cfg (py_or (dget (task_request_payload src) ''host_node'') (JStr (inst_host_node i)))"
  obtain requested v w u d0 d1 d2 d3 cloned m message where
    run: "idle d (task_instance_id src)" "spec_of_payload (task_request_payload src) (inst_spec i) = Inr requested"
    and q: "(if ?takes then require_quota cfg (retry_check src i requested (inst_tenant_id i)) else returnM ()) d = (Inr v, d0)"
    and k: "(if ?takes then assert_capacity (retry_check src i requested ?host) else returnM ()) d0 = (Inr w, d1)"
    and rest: "apply_pending_db (hc_inet cfg) (at_time ids) i (task_cmd src) (task_request_payload src)
       (new_task_id ids) d1 = (Inr u, d2)"
    "clone_for_retry src (new_task_id ids) (new_request_id ids) (at_time ids) d2 = (Inr cloned, d3)"
    "enqueue_command (new_outbox_id ids) (at_time ids) (''instance.'' @ task_command_str (task_cmd src)) message
       (task_id cloned) (new_request_id ids) (hc_outbox_max_attempts cfg) d3 = (Inr m, d')"
    "r = outcome_of cloned (at_time ids)"
    using assms(2) t id
    by (fastforce simp: retry_task_handle_def Let_def idle retry_check_def split: if_splits)
  have "d0 = d" using q by (auto split: if_splits dest: require_quota_ok)
  moreover have "d1 = d0" using k by (auto split: if_splits dest: assert_capacity_ok)
  ultimately show thesis using that t run rest q k by (cases ?takes) simp_all
qed

lemma retry_follows:
  assumes inv: "vm_inv d" and run: "retry_task_handle cfg ids tid d = (Inr r, d')"
  shows "follows d d'"
  using inv run
proof (cases rule: retry_cases)
  case (1 src i requested u d1 cloned d2 m message)
  note w = vm_invD(1,2) [OF inv]
  have id: "inst_id i = task_instance_id src" using inst_at_id [OF 1(3)] .
  obtain i0 i' where p: "inst_at d (inst_id i) = Some i0" "inst_at d1 = (inst_at d)(inst_id i \<mapsto> i')"
    "only_instances d d1" "inst_id i' = inst_id i0" "inst_tenant_id i' = inst_tenant_id i0"
    "inst_host_node i' = inst_host_node i0" "inst_status i' = pending_status (task_cmd src)"
    "inst_last_task_id i' = Some (new_task_id ids)" "inst_reserve_resources i' = (task_cmd src \<noteq> cmd_delete)"
    "inst_deleted_at i' = (if task_cmd src \<in> {cmd_create, cmd_delete} then None else inst_deleted_at i)"
    by (rule pg_inst.apply_pending_ok [OF 1(7) [unfolded apply_pending_db_def]])
  have i0: "i0 = i" using p(1) 1(3) id by simp
  have "inst_deleted_at i = None" using life_invD(2) [OF w(2) 1(3)] 1(4) by (auto simp: inst_ok_def)
  then have ok: "inst_ok i'" using p(7,9,10) by (cases "task_cmd src") (auto simp: inst_ok_def)
  note d1 = only_instances_wf [OF w(1) p(3)]
  note c = clone_wf [OF d1(1) 1(8)]
  have rr: "revert_ready (task_cmd src) (task_request_payload src)" by (rule life_invD(5) [OF w(2) 1(1)])
  have "life_step (inst_at d, task_at d)
      ((inst_at d)(task_instance_id src \<mapsto> i'), (task_at d)(new_task_id ids \<mapsto> cloned))"
    using 1(3-5) c d1(2) ok p rr id i0
    by (intro life_step.open_task) (simp_all add: idle_idle_in same_place_def)
  then have "follows d d2"
    using c d1 p(2) id inv by (intro followsI) (simp_all add: abs_life_def)
  moreover have "task_at d2 (task_id cloned) \<noteq> None" using c by simp
  ultimately show ?thesis using enqueue_wf [OF c(1) 1(9)] by (simp add: follows_def vm_inv_def)
qed


lemma fail_stale_cases:
  assumes "fail_stale inet now limit tid d = (Inr hit, d')"
  obtains (skip) "d' = d" "\<not> hit" "\<And>t. task_at d tid = Some t \<Longrightarrow> task_stat t \<noteq> task_queued"
  | (failed) t u d1 t' where "hit" "task_at d tid = Some t" "task_stat t = task_queued"
      "revert_db inet now (task_instance_id t) (task_cmd t) (task_request_payload t) d = (Inr u, d1)"
      "apply_task_update now (MarkTerminal failed (max (task_attempt_count t) 1) JNull
         (JStr ''TIMEOUT'') (JStr (timeout_text limit))) tid d1 = (Inr t', d')"
proof (cases "task_at d tid")
  case None
  then show thesis using assms skip by (simp add: fail_stale_def bindM_task_get)
next
  case (Some t)
  then have id: "task_id t = tid" by (rule task_at_id)
  show thesis
  proof (cases "task_stat t = task_queued")
    case True
    then show thesis using assms Some id by (auto simp: fail_stale_def bindM_task_get intro: failed)
  next
    case False
    then show thesis using assms Some skip by (simp add: fail_stale_def bindM_task_get)
  qed
qed

lemma fail_stale_follows:
  assumes inv: "vm_inv d" and run: "fail_stale inet now limit tid d = (Inr hit, d')"
  shows "follows d d'"
  using run
proof (cases rule: fail_stale_cases)
  case skip
  then show ?thesis using inv by (simp add: follows_refl)
next
  case (failed t u d1 t')
  obtain i i' where s: "inst_at d (task_instance_id t) = Some i" "only_instances d d1"
      "inst_at d1 = (inst_at d)(task_instance_id t \<mapsto> i')" "same_place i i'" "inst_ok i'" "\<not> is_pending (inst_status i')"
    by (rule revert_settles [OF inv failed(2,4)]) blast
  show ?thesis by (rule settle_follows [OF inv failed(2) _ s failed(5)]) (simp_all add: failed(3))
qed

lemma fail_all_stale_follows:
  "vm_inv d \<Longrightarrow> fail_all_stale inet now limit n tids d = (Inr k, d') \<Longrightarrow> follows d d'"
proof (induction tids arbitrary: n d)
  case (Cons tid tids)
  then obtain hit d1 where d1: "fail_stale inet now limit tid d = (Inr hit, d1)"
      "fail_all_stale inet now limit (if hit then n + 1 else n) tids d1 = (Inr k, d')"
    by auto
  have "follows d d1" by (rule fail_stale_follows [OF Cons.prems(1) d1(1)])
  then show ?case using Cons.IH [OF followsD d1(2)] follows_trans by blast
qed (simp add: follows_refl)

lemma sweep_follows:
  "vm_inv d \<Longrightarrow> sweep_once inet now timeout d = (Inr n, d') \<Longrightarrow> follows d d'"
  by (auto simp: sweep_once_def Let_def follows_refl fail_all_stale_follows
      split: if_splits prod.splits sum.splits)

lemma outbox_only_follows:
  assumes "vm_inv d" "only_outbox d d'" "outbox_inv d'"
    "\<And>m. m \<in> set (command_outbox d') \<Longrightarrow> \<exists>q \<in> set (command_outbox d). ob_task_id q = ob_task_id m"
  shows "follows d d'"
proof -
  note f = only_outbox_frame [OF assms(2)]
  have t: "task_at d' = task_at d" "inst_at d' = inst_at d" using f by (simp_all add: task_at_def inst_at_def fun_eq_iff)
  have "\<forall>q \<in> set (command_outbox d'). task_at d' (ob_task_id q) \<noteq> None"
    using assms(1,4) unfolding t vm_inv_def db_wf_def by metis
  then have "db_wf d'" using assms(1,3) f by (simp add: vm_inv_def db_wf_def distinct_instances_def)
  then show ?thesis using assms(1) t by (intro follows_same) (simp_all add: abs_life_def)
qed


lemma same_messages_follows:
  assumes "vm_inv d" "same_messages d d'" "outbox_inv d'"
  shows "follows d d'"
proof (rule outbox_only_follows [OF assms(1) _ assms(3)])
  show "only_outbox d d'" using assms(2) by (simp add: same_messages_def)
  fix m assume "m \<in> set (command_outbox d')"
  then have "command_key m \<in> set (map command_key (command_outbox d'))" by simp
  also have "map command_key (command_outbox d') = map command_key (command_outbox d)"
    using assms(2) by (simp add: same_messages_def)
  finally have "command_key m \<in> set (map command_key (command_outbox d))" .
  then show "\<exists>q \<in> set (command_outbox d). ob_task_id q = ob_task_id m"
    by (auto simp: command_key_def)
qed

lemma vm_inv_outbox: "vm_inv d \<Longrightarrow> outbox_inv d"
  by (simp add: vm_inv_def db_wf_def)

lemma claim_follows:
  assumes "vm_inv d" "claim rcfg env n d = (Inr ms, d')"
  shows "follows d d'"
proof -
  obtain ms' d1 where "claim rcfg env n d = (Inr ms', d1)" "outbox_inv d1" "same_messages d d1"
    by (rule claim_effect [OF vm_inv_outbox [OF assms(1)]]) blast
  moreover from this have "d1 = d'" using assms(2) by simp
  ultimately show ?thesis using same_messages_follows [OF assms(1)] by blast
qed

lemma dispatch_follows:
  assumes "vm_inv d" "outbox_at d (ob_id m) = Some r" "still_claimed m r" "dispatch rcfg env n m d = (Inr u, d')"
  shows "follows d d'"
proof -
  obtain d1 where "dispatch rcfg env n m d = (Inr (), d1)" "outbox_inv d1" "same_messages d d1"
    by (rule dispatch_effect [OF vm_inv_outbox [OF assms(1)] assms(2,3)])
  moreover from this have "d1 = d'" using assms(4) by simp
  ultimately show ?thesis using same_messages_follows [OF assms(1)] by blast
qed

section \<open>The system\<close>

inductive vm_step :: "db \<Rightarrow> db \<Rightarrow> bool" where
  create: "create_instance_handle cfg ids ccmd d = (Inr r, d') \<Longrightarrow> vm_step d d'"
| delete: "delete_instance_handle cfg ids iid d = (Inr r, d') \<Longrightarrow> vm_step d d'"
| stop: "stop_instance_handle cfg ids iid d = (Inr r, d') \<Longrightarrow> vm_step d d'"
| start: "start_instance_handle cfg ids iid host d = (Inr r, d') \<Longrightarrow> vm_step d d'"
| update: "update_instance_handle cfg ids ucmd d = (Inr r, d') \<Longrightarrow> vm_step d d'"
| cancel: "cancel_task_handle cfg ids kcmd d = (Inr r, d') \<Longrightarrow> vm_step d d'"
| retry: "retry_task_handle cfg ids tid d = (Inr r, d') \<Longrightarrow> vm_step d d'"
| event: "process inet now ev d = (Inr u, d') \<Longrightarrow> reports_settled d ev \<Longrightarrow> vm_step d d'"
| sweep: "sweep_once inet now timeout d = (Inr n, d') \<Longrightarrow> vm_step d d'"
| relay_claim: "claim rcfg env k d = (Inr ms, d') \<Longrightarrow> vm_step d d'"
| relay_dispatch: "outbox_at d (ob_id m) = Some r' \<Longrightarrow> still_claimed m r' \<Longrightarrow>
    dispatch rcfg env k m d = (Inr v, d') \<Longrightarrow> vm_step d d'"

lemma vm_step_follows: "vm_step d d' \<Longrightarrow> vm_inv d \<Longrightarrow> follows d d'"
  by (induction rule: vm_step.induct)
     (rule create_follows delete_follows stop_follows start_follows update_follows cancel_follows
       retry_follows process_follows sweep_follows claim_follows dispatch_follows; assumption)+

definition vm_start :: "db \<Rightarrow> bool" where
  "vm_start d \<longleftrightarrow> instances d = [] \<and> instance_tasks d = [] \<and> command_outbox d = []"

lemma vm_start_inv: "vm_start d \<Longrightarrow> vm_inv d"
  by (simp add: vm_start_def vm_inv_def db_wf_def distinct_instances_def outbox_inv_def abs_life_def
      life_inv_def inst_at_def task_at_def)

interpretation vm: refinement vm_step vm_start vm_inv abs_life life_step
proof
  show "vm_start d \<Longrightarrow> vm_inv d" for d by (rule vm_start_inv)
  show "vm_inv d \<Longrightarrow> vm_step d d' \<Longrightarrow> vm_inv d'" for d d'
    using vm_step_follows followsD by blast
  show "vm_inv d \<Longrightarrow> vm_step d d' \<Longrightarrow> life_step\<^sup>*\<^sup>* (abs_life d) (abs_life d')" for d d'
    using vm_step_follows by (simp add: follows_def)
qed

text \<open>
  C1: from a database without instances, tasks and messages, every run of the control
  plane (commands, cancels, retries, results in any order, sweeps, relay steps) refines a run of
  the task-lifecycle specification and keeps its invariant.  Results are arbitrary, but for one thing:
  that of a successful update reports \<^verbatim>\<open>running\<close>, \<^verbatim>\<open>stopped\<close> or no status.
\<close>

theorem system_refines_lifecycle:
  assumes "vm_start d" "vm_step\<^sup>*\<^sup>* d d'"
  shows "vm_inv d' \<and> life_step\<^sup>*\<^sup>* (Map.empty, Map.empty) (inst_at d', task_at d')"
proof -
  have "abs_life d = (Map.empty, Map.empty)"
    using assms(1) by (simp add: vm_start_def abs_life_def inst_at_def task_at_def fun_eq_iff)
  then show ?thesis
    using vm.steps_simulated [OF assms(2)] vm.reachable_inv [OF assms] vm_start_inv [OF assms(1)]
    by (simp add: abs_life_def)
qed

end
