(* ===== verification/VM_Properties.thy ===== *)
theory VM_Properties
  imports VM_System
begin

text \<open>
  What the runs of the control plane never do, and what the result consumer, the cancel
  handler and the stale-task monitor achieve: the properties over \<open>VM_System\<close>.
\<close>

section \<open>Runs\<close>

definition example_start :: db where
  "example_start = empty_db\<lparr>tenants := [example_tenant], tenant_quotas := [example_quota],
     resource_capacity := [example_host]\<rparr>"

definition example_run :: db where
  "example_run = snd (create_instance_handle example_config example_ids example_create example_start)"

lemma example_start_ok: "vm_start example_start"
  by (simp add: vm_start_def example_start_def empty_db_def)

lemma example_created:
  "create_instance_handle example_config example_ids example_create example_start =
     (Inr (accepted example_ids 10 cmd_create), example_run)"
proof -
  have "fst (create_instance_handle example_config example_ids example_create example_start) =
      Inr (accepted example_ids 10 cmd_create)"
    by code_simp
  then show ?thesis unfolding example_run_def by (rule run_pair)
qed

lemma example_step: "vm_step example_start example_run"
  by (rule vm_step.create [OF example_created])

lemma example_steps: "vm_step\<^sup>*\<^sup>* example_start example_run"
  using example_step by (rule r_into_rtranclp)

lemma example_inv: "vm_inv example_run"
  by (rule vm.step_inv [OF vm_start_inv [OF example_start_ok] example_step])

definition example_pending :: vm_instance where
  "example_pending = \<lparr>inst_id = 10, inst_name = None, inst_spec = \<lparr>cpu = 2, memory_mib = 1024, disk_gib = 10\<rparr>,
     inst_status = creating_pending, inst_ip_address = None, inst_host_node = ''node'',
     inst_reserve_resources = True, inst_last_task_id = Some 11, inst_deleted_at = None,
     inst_created_at = 1000, inst_updated_at = 1000, inst_tenant_id = 1\<rparr>"

lemma example_run_inst: "inst_at example_run 10 = Some example_pending"
  by code_simp

definition example_task :: instance_task where
  "example_task = the (task_at example_run 11)"

lemma example_run_task:
  "task_at example_run 11 = Some example_task" "task_stat example_task = task_queued"
  "task_instance_id example_task = 10" "task_cmd example_task = cmd_create"
proof -
  have "map_option (\<lambda>t. (task_stat t, task_instance_id t, task_cmd t)) (task_at example_run 11) =
      Some (task_queued, 10, cmd_create)"
    by code_simp
  then show "task_at example_run 11 = Some example_task" "task_stat example_task = task_queued"
    "task_instance_id example_task = 10" "task_cmd example_task = cmd_create"
    by (auto simp: example_task_def)
qed

theorem system_refines_lifecycle_witness:
  "vm_inv example_run \<and> life_step\<^sup>*\<^sup>* (Map.empty, Map.empty) (inst_at example_run, task_at example_run)"
  by (rule system_refines_lifecycle [OF example_start_ok example_steps])

text \<open>One active task per instance, and the pending state that goes with it.\<close>

lemma one_active_of_inv:
  assumes "vm_inv d"
  shows "(\<forall>a b t u. task_at d a = Some t \<longrightarrow> task_at d b = Some u \<longrightarrow> task_instance_id t = task_instance_id u \<longrightarrow>
        task_active (task_stat t) \<longrightarrow> task_active (task_stat u) \<longrightarrow> a = b) \<and>
    (\<forall>iid i. inst_at d iid = Some i \<longrightarrow>
        (is_pending (inst_status i) \<longleftrightarrow> (\<exists>tid t. task_at d tid = Some t \<and> task_instance_id t = iid \<and>
           task_active (task_stat t) \<and> inst_status i = pending_status (task_cmd t))))"
proof -
  have inv: "life_inv (inst_at d, task_at d)" by (rule vm_invD(2) [OF assms])
  show ?thesis
  proof (intro conjI allI impI iffI)
    fix a b t u
    assume "task_at d a = Some t" "task_at d b = Some u" "task_instance_id t = task_instance_id u"
      "task_active (task_stat t)" "task_active (task_stat u)"
    then show "a = b" using one_active_task [OF inv] by blast
  next
    fix iid i assume i: "inst_at d iid = Some i" "is_pending (inst_status i)"
    obtain tid t where t: "task_at d tid = Some t" "task_active (task_stat t)" "task_instance_id t = iid"
      using life_invD(7) [OF inv i] by blast
    have "inst_status i = pending_status (task_cmd t)" using life_invD(6) [OF inv t(1,2)] t(3) i(1) by auto
    with t show "\<exists>tid t. task_at d tid = Some t \<and> task_instance_id t = iid \<and>
           task_active (task_stat t) \<and> inst_status i = pending_status (task_cmd t)" by blast
  next
    fix iid i assume "inst_at d iid = Some i" and "\<exists>tid t. task_at d tid = Some t \<and> task_instance_id t = iid \<and>
           task_active (task_stat t) \<and> inst_status i = pending_status (task_cmd t)"
    then show "is_pending (inst_status i)" by auto
  qed
qed

definition finished_kept :: "db \<Rightarrow> db \<Rightarrow> bool" where
  "finished_kept d d' \<longleftrightarrow>
     (\<forall>k i. inst_at d k = Some i \<longrightarrow> inst_status i = deleted \<longrightarrow> inst_at d' k = Some i) \<and>
     (\<forall>k t. task_at d k = Some t \<longrightarrow> task_terminal (task_stat t) \<longrightarrow> task_at d' k = Some t) \<and>
     (\<forall>k i. inst_at d k = Some i \<longrightarrow> (\<exists>i'. inst_at d' k = Some i' \<and> same_place i i'))"

lemma life_steps_kept:
  assumes "life_step\<^sup>*\<^sup>* (is, ts) (is', ts')" "life_inv (is, ts)"
  shows "(\<forall>k i. is k = Some i \<longrightarrow> inst_status i = deleted \<longrightarrow> is' k = Some i) \<and>
     (\<forall>k t. ts k = Some t \<longrightarrow> task_terminal (task_stat t) \<longrightarrow> ts' k = Some t) \<and>
     (\<forall>k i. is k = Some i \<longrightarrow> (\<exists>i'. is' k = Some i' \<and> same_place i i'))"
  using assms
proof (induction "(is', ts')" arbitrary: is' ts' rule: rtranclp_induct)
  case base
  then show ?case by (auto simp: same_place_def)
next
  case (step y)
  obtain is1 ts1 where y: "y = (is1, ts1)" by (cases y)
  note ih = step(3) [OF y step(4)]
  have inv: "life_inv (is1, ts1)" using life.steps_inv [OF step(1,4)] y by simp
  note s = step(2) [unfolded y]
  show ?case
  proof (intro conjI allI impI)
    fix k i assume "is k = Some i" "inst_status i = deleted"
    then show "is' k = Some i" using ih life_step_deleted [OF inv s] by blast
  next
    fix k t assume "ts k = Some t" "task_terminal (task_stat t)"
    then show "ts' k = Some t" using ih life_step_terminal [OF s] by blast
  next
    fix k i assume "is k = Some i"
    then obtain i1 where "is1 k = Some i1" "same_place i i1" using ih by blast
    then show "\<exists>i'. is' k = Some i' \<and> same_place i i'"
      using life_step_place [OF s] by (fastforce simp: same_place_def)
  qed
qed

section \<open>Results\<close>

lemma hashable_statuses: "ev_status ev \<in> set event_statuses \<Longrightarrow> hashable (ev_status ev)"
  by (auto simp: event_statuses_def hashable_def)

lemma process_terminal:
  assumes "ev_status ev \<in> set event_statuses" "task_at d (ev_task_id ev) = Some t" "task_terminal (task_stat t)"
  shows "process inet now ev d = (Inr (), d)"
  using assms hashable_statuses [OF assms(1)]
  by (auto simp: process_def bindM_run bindM_task_get task_terminal_def)

lemma process_unknown:
  assumes "ev_status ev \<in> set event_statuses" "task_at d (ev_task_id ev) = None" "ev_timestamp ev = Aware a"
  shows "process inet now ev d =
    (if now - a < seconds 60
     then (Inl (RetryableResultEventError (''task '' @ uuid_str (ev_task_id ev) @ '' not yet visible'')), d)
     else (Inr (), d))"
  using assms hashable_statuses [OF assms(1)]
  by (simp add: process_def bindM_run bindM_task_get recent_def)

lemma process_status: "process inet now ev d = (Inr u, d') \<Longrightarrow> ev_status ev \<in> set event_statuses"
  by (auto simp: process_def split: if_splits)

lemma process_finishes:
  assumes "process inet now ev d = (Inr u, d')" "task_at d (ev_task_id ev) = Some t"
    "task_active (task_stat t)" "ev_status ev \<noteq> JStr ''running''" "vm_inv d" "reports_settled d ev"
  shows "\<exists>t'. task_at d' (ev_task_id ev) = Some t' \<and> task_terminal (task_stat t') \<and> same_request t t' \<and>
    JStr (task_status_str (task_stat t')) = ev_status ev"
  using assms(1-3)
proof (cases rule: process_found)
  case (succeeded v d1 t')
  obtain i' where "only_instances d d1" by (rule handle_success_ok [OF succeeded(2) reports_settledD [OF assms(6,2) succeeded(1)]]) blast
  then have "task_at d1 = task_at d" by (rule only_instances_wf(2) [OF vm_invD(1) [OF assms(5)]])
  with pg_task.set_status_ok [OF succeeded(3)] assms(2) succeeded(1) show ?thesis by auto
next
  case (canceled v d1 t')
  obtain i' where "only_instances d d1" by (rule revert_settles [OF assms(5,2) canceled(2)]) blast
  then have "task_at d1 = task_at d" by (rule only_instances_wf(2) [OF vm_invD(1) [OF assms(5)]])
  with pg_task.set_status_ok [OF canceled(3)] assms(2) canceled(1) show ?thesis by auto
next
  case (failed v d1 t')
  obtain i' where "only_instances d d1" by (rule revert_settles [OF assms(5,2) failed(2)]) blast
  then have "task_at d1 = task_at d" by (rule only_instances_wf(2) [OF vm_invD(1) [OF assms(5)]])
  with pg_task.set_status_ok [OF failed(3)] assms(2) failed(1) show ?thesis by auto
qed (use assms(4) in auto)

text \<open>
  Delivering a final result twice is delivering it once: the second processing
  succeeds and changes nothing.
\<close>

theorem result_delivered_twice:
  assumes "vm_inv d" "process inet now ev d = (Inr (), d')" "reports_settled d ev"
    "ev_status ev \<noteq> JStr ''running''" "ev_timestamp ev = Aware a" "now \<le> now'"
  shows "process inet now' ev d' = (Inr (), d')"
proof (cases "task_at d (ev_task_id ev)")
  case None
  have "d' = d" by (rule process_idle [OF assms(2)]) (simp add: None)
  moreover have "\<not> now - a < seconds 60"
    using process_unknown [OF process_status [OF assms(2)] None assms(5), of inet now] assms(2)
    by (auto split: if_splits)
  ultimately show ?thesis
    using process_unknown [OF process_status [OF assms(2)] None assms(5), of inet now'] assms(6) by simp
next
  case (Some t)
  show ?thesis
  proof (cases "task_active (task_stat t)")
    case True
    from process_finishes [OF assms(2) Some True assms(4,1,3)] show ?thesis
      using process_terminal [OF process_status [OF assms(2)]] by blast
  next
    case False
    have "d' = d" by (rule process_idle [OF assms(2)]) (use Some False in \<open>simp add: task_terminal_not_active\<close>)
    then show ?thesis
      using process_terminal [OF process_status [OF assms(2)] Some] False by (simp add: task_terminal_not_active)
  qed
qed

definition example_event :: "string \<Rightarrow> vm_result_event" where
  "example_event st = \<lparr>ev_task_id = 11, ev_request_id = 12, ev_instance_id = 10, ev_command = JStr ''create'',
     ev_status = JStr st, ev_attempt_count = 1, ev_result = JObj [(''ip_address'', JStr ''10.0.0.5'')],
     ev_error_code = JNull, ev_error_message = JNull, ev_timestamp = Aware 2000\<rparr>"

definition example_running :: db where
  "example_running = snd (process Some 3000 (example_event ''succeeded'') example_run)"

lemma example_processed: "process Some 3000 (example_event ''succeeded'') example_run = (Inr (), example_running)"
proof -
  have "fst (process Some 3000 (example_event ''succeeded'') example_run) = Inr ()" by code_simp
  then show ?thesis unfolding example_running_def by (rule run_pair)
qed

lemma example_settled: "reports_settled d (example_event st)"
  by (simp add: example_event_def reports_settled_def settled_result_def result_dict_def py_or_def reported_status_def)

theorem result_delivered_twice_witness:
  "process Some 9000 (example_event ''succeeded'') example_running = (Inr (), example_running)"
  by (rule result_delivered_twice [OF example_inv example_processed example_settled])
     (simp_all add: example_event_def)

text \<open>
  C8: a success settles the instance as its command says, under the task that did it:
  created and started instances run, stopped ones are stopped, a deleted one is marked deleted
  and gives its resources back, whatever their results report; an updated one has the status the VM
  manager reports, which is running, stopped or none (\<open>reports_settled\<close>).
\<close>

theorem success_settles_instance:
  assumes "vm_inv d" "process inet now ev d = (Inr (), d')" "reports_settled d ev"
    "ev_status ev = JStr ''succeeded''" "task_at d (ev_task_id ev) = Some t" "task_active (task_stat t)"
  shows "\<exists>i i' t' res. inst_at d (task_instance_id t) = Some i \<and>
    inst_at d' = (inst_at d)(task_instance_id t \<mapsto> i') \<and> inst_spec i' = inst_spec i \<and> same_place i i' \<and>
    JStr (instance_status_str (inst_status i')) = success_status (task_cmd t) res \<and>
    (task_cmd t \<noteq> cmd_delete \<longrightarrow> result_dict ev = Inr res) \<and>
    inst_reserve_resources i' = (task_cmd t \<noteq> cmd_delete) \<and> inst_last_task_id i' = Some (ev_task_id ev) \<and>
    task_at d' = (task_at d)(ev_task_id ev \<mapsto> t') \<and> task_stat t' = succeeded \<and> same_request t t'"
  using assms(2,5,6)
proof (cases rule: process_found)
  case (succeeded v d1 t')
  obtain i i' res where i: "inst_at d (task_instance_id t) = Some i" "only_instances d d1"
    "inst_at d1 = (inst_at d)(task_instance_id t \<mapsto> i')" "same_place i i'" "inst_ok i'"
    "\<not> is_pending (inst_status i')" "inst_last_task_id i' = Some (ev_task_id ev)" "inst_spec i' = inst_spec i"
    "JStr (instance_status_str (inst_status i')) = success_status (task_cmd t) res"
    "task_cmd t \<noteq> cmd_delete \<longrightarrow> result_dict ev = Inr res"
    by (rule handle_success_ok [OF succeeded(2) reports_settledD [OF assms(3,5) succeeded(1)]])
  note w = only_instances_wf [OF vm_invD(1) [OF assms(1)] i(2)]
  obtain u where u: "task_at d1 (ev_task_id ev) = Some u" "same_request u t'" "task_stat t' = task_status.succeeded"
    "task_at d' = (task_at d1)(ev_task_id ev \<mapsto> t')" "inst_at d' = inst_at d1"
    by (rule task_update_effect [OF w(1) succeeded(3)]) simp
  have "inst_reserve_resources i' = (task_cmd t \<noteq> cmd_delete)"
  proof -
    have "reported_status res \<in> {JStr ''running'', JStr ''stopped''}" if "task_cmd t = cmd_update"
      using i(10) that reports_settledD [OF assms(3,5) succeeded(1)] by (simp add: settled_result_def)
    then show ?thesis using i(5,9) by (cases "task_cmd t") (auto simp: success_status_def inst_ok_def)
  qed
  then show ?thesis using i u w(2) assms(5)
    by (intro exI [of _ i] exI [of _ i'] exI [of _ t'] exI [of _ res]) simp
qed (use assms(4) in auto)

theorem success_settles_instance_witness:
  "\<exists>i'. inst_at example_running 10 = Some i' \<and> inst_status i' = running \<and> inst_reserve_resources i'"
proof -
  have "ev_status (example_event ''succeeded'') = JStr ''succeeded''"
    "task_at example_run (ev_task_id (example_event ''succeeded'')) = Some example_task"
    using example_run_task by (simp_all add: example_event_def)
  from success_settles_instance [OF example_inv example_processed example_settled this]
  show ?thesis using example_run_task by (auto simp: success_status_def)
qed


section \<open>Canceling\<close>

text \<open>
  C18: canceling a queued task finishes it at once and settles its instance under
  no task; but the message that asks the VM manager to run it stays in the outbox as it was, so
  the relay still publishes it.
\<close>

theorem cancel_queued_keeps_message:
  assumes "vm_inv d" "cancel_task_handle cfg ids cmd d = (Inr r, d')"
    "task_at d (ca_task_id cmd) = Some t" "task_stat t = task_queued"
  shows "\<exists>i' t'. inst_at d' = (inst_at d)(task_instance_id t \<mapsto> i') \<and> \<not> is_pending (inst_status i') \<and>
    inst_last_task_id i' = None \<and> task_at d' = (task_at d)(ca_task_id cmd \<mapsto> t') \<and> task_stat t' = canceled \<and>
    same_request t t' \<and> idle d' (task_instance_id t) \<and> command_outbox d' = command_outbox d"
  using assms(2)
proof (cases rule: cancel_cases)
  case (queued t0 i u d1 t')
  then have t0: "t0 = t" using assms(3) by simp
  obtain i i' where i: "only_instances d d1" "inst_at d1 = (inst_at d)(task_instance_id t \<mapsto> i')"
      "\<not> is_pending (inst_status i')" "inst_last_task_id i' = None"
    by (rule revert_settles [OF assms(1) queued(1,4)]) (use t0 in blast)
  note w = only_instances_wf [OF vm_invD(1) [OF assms(1)] i(1)]
  note m = pg_task.set_status_ok [OF queued(5)]
  obtain u' where u: "task_at d1 (ca_task_id cmd) = Some u'" "same_request u' t'" "task_stat t' = canceled"
    "task_at d' = (task_at d1)(ca_task_id cmd \<mapsto> t')" "inst_at d' = inst_at d1"
    by (rule task_update_effect [OF w(1) queued(5)]) simp
  have "command_outbox d' = command_outbox d"
    using m only_tasks_frame only_instances_frame [OF i(1)] by metis
  moreover have inv': "vm_inv d'" by (rule followsD [OF cancel_follows [OF assms(1,2)]])
  have "idle d' (task_instance_id t)"
    unfolding idle_def using life_invD(6) [OF vm_invD(2) [OF inv']] i u by fastforce
  ultimately show ?thesis using i u w(2) t0 queued(1) by (intro exI [of _ i'] exI [of _ t']) simp
qed (use assms(3,4) in auto)

definition example_cancel :: cancel_task_command where
  "example_cancel = \<lparr>ca_task_id = 11, ca_actor_user_id = None, ca_reason = None\<rparr>"

definition more_ids :: fresh_ids where
  "more_ids = \<lparr>new_instance_id = 20, new_task_id = 21, new_request_id = 22, new_outbox_id = 23, at_time = 5000\<rparr>"

theorem cancel_queued_keeps_message_witness:
  "map ob_status (command_outbox (snd (cancel_task_handle example_config more_ids example_cancel example_run))) =
     [ob_queued]"
proof -
  have "map_sum (\<lambda>_. ()) acc_status (fst (cancel_task_handle example_config more_ids example_cancel example_run)) =
      Inr canceled"
    by code_simp
  then obtain r where "fst (cancel_task_handle example_config more_ids example_cancel example_run) = Inr r"
    by (cases "fst (cancel_task_handle example_config more_ids example_cancel example_run)") auto
  note run = run_pair [OF this]
  have "task_at example_run (ca_task_id example_cancel) = Some example_task"
    by (simp add: example_cancel_def example_run_task)
  from cancel_queued_keeps_message [OF example_inv run this example_run_task(2)]
  have "command_outbox (snd (cancel_task_handle example_config more_ids example_cancel example_run)) =
      command_outbox example_run" by blast
  moreover have "map ob_status (command_outbox example_run) = [ob_queued]" by code_simp
  ultimately show ?thesis by simp
qed

text \<open>
  C19: canceling a running task marks it and asks the VM manager to cancel it,
  once per accepted cancel; the instance stays as it is, and a late \<^verbatim>\<open>running\<close> event does not
  bring the task back.
\<close>

theorem cancel_running_requests_cancel:
  assumes "vm_inv d" "cancel_task_handle cfg ids cmd d = (Inr r, d')"
    "task_at d (ca_task_id cmd) = Some t" "task_stat t = task_running"
  shows "inst_at d' = inst_at d \<and>
    (\<exists>t' m. task_at d' = (task_at d)(ca_task_id cmd \<mapsto> t') \<and> task_stat t' = cancel_pending \<and> same_request t t' \<and>
      row_of command_key (ca_task_id cmd, ''instance.cancel'', new_request_id ids) (command_outbox d') = Some m) \<and>
    (\<forall>inet now ev. ev_task_id ev = ca_task_id cmd \<longrightarrow> ev_status ev = JStr ''running'' \<longrightarrow>
       process inet now ev d' = (Inr (), d'))"
  using assms(2)
proof (cases rule: cancel_cases)
  case (running t0 i t' d1 m payload)
  then have t0: "t0 = t" using assms(3) by simp
  have f: "follows d d1" using progress_follows [OF assms(1) running(4,1)] running(2) by simp
  have wf: "db_wf d1" using f by (simp add: follows_def vm_inv_def)
  obtain u where u: "task_at d (ca_task_id cmd) = Some u" "same_request u t'" "task_stat t' = cancel_pending"
    "task_at d1 = (task_at d)(ca_task_id cmd \<mapsto> t')" "inst_at d1 = inst_at d"
    by (rule task_update_effect [OF vm_invD(1) [OF assms(1)] running(4)]) simp
  have abs: "task_at d' = task_at d1" "inst_at d' = inst_at d1"
    using enqueue_wf(2) [OF wf running(6)] u(4) by (simp_all add: abs_life_def)
  have row: "row_of command_key (ca_task_id cmd, ''instance.cancel'', new_request_id ids) (command_outbox d') = Some m"
    by (rule enqueued_row [OF _ running(6)]) (use wf in \<open>simp add: db_wf_def\<close>)
  have i: "inst_at d' (task_instance_id t') = Some i"
    using running(3) u t0 abs assms(3) by (simp add: same_request_def)
  have "process inet now ev d' = (Inr (), d')"
    if "ev_task_id ev = ca_task_id cmd" "ev_status ev = JStr ''running''" for inet now ev
    using that i abs u
    by (simp add: process_def bindM_run bindM_task_get hashable_def event_statuses_def
        require_instance_def bindM_instance_get)
  then show ?thesis using abs u row t0 assms(3) by (auto simp: fun_eq_iff)
qed (use assms(3,4) in auto)


definition example_started :: db where
  "example_started = snd (process Some 3000 (example_event ''running'') example_run)"

lemma example_started_inv: "vm_inv example_started"
proof -
  have "fst (process Some 3000 (example_event ''running'') example_run) = Inr ()" by code_simp
  from process_follows [OF example_inv run_pair [OF this] example_settled] show ?thesis
    unfolding example_started_def by (rule followsD)
qed

theorem cancel_running_requests_cancel_witness:
  "process Some 9000 (example_event ''running'')
     (snd (cancel_task_handle example_config more_ids example_cancel example_started)) =
   (Inr (), snd (cancel_task_handle example_config more_ids example_cancel example_started))"
proof -
  have "map_sum (\<lambda>_. ()) acc_status (fst (cancel_task_handle example_config more_ids example_cancel example_started)) =
      Inr cancel_pending"
    by code_simp
  then obtain r where "fst (cancel_task_handle example_config more_ids example_cancel example_started) = Inr r"
    by (cases "fst (cancel_task_handle example_config more_ids example_cancel example_started)") auto
  note run = run_pair [OF this]
  have "map_option task_stat (task_at example_started 11) = Some task_running" by code_simp
  then obtain t where t: "task_at example_started (ca_task_id example_cancel) = Some t" "task_stat t = task_running"
    by (auto simp: example_cancel_def)
  from cancel_running_requests_cancel [OF example_started_inv run t] show ?thesis
    by (simp add: example_event_def example_cancel_def)
qed

section \<open>Failures restore\<close>

lemma process_failed_reverts:
  assumes "vm_inv d" "process inet now ev d = (Inr (), d')" "ev_status ev = JStr ''failed''"
    "task_at d (ev_task_id ev) = Some t" "task_active (task_stat t)"
  obtains i i' t' where "inst_at d (task_instance_id t) = Some i"
    "inst_at d' = (inst_at d)(task_instance_id t \<mapsto> i')" "same_place i i'" "inst_last_task_id i' = None"
    "reverted_status (task_cmd t) (task_request_payload t) = JStr (instance_status_str (inst_status i'))"
    "inst_reserve_resources i' = reverted_reserve (task_cmd t) (task_request_payload t)"
    "task_cmd t \<notin> {cmd_update, cmd_delete} \<longrightarrow> inst_spec i' = inst_spec i"
    "task_cmd t \<in> {cmd_update, cmd_delete} \<longrightarrow> reverted_spec (task_request_payload t) = Inr (inst_spec i')"
    "task_at d' (ev_task_id ev) = Some t'" "task_stat t' = failed"
    "map im_id (instances d') = map im_id (instances d)"
  using assms(2,4,5)
proof (cases rule: process_found)
  case (failed v d1 t')
  obtain i i' where i: "inst_at d (task_instance_id t) = Some i"
    "inst_at d1 = (inst_at d)(task_instance_id t \<mapsto> i')" "only_instances d d1"
    "inst_id i' = inst_id i" "inst_tenant_id i' = inst_tenant_id i" "inst_host_node i' = inst_host_node i"
    "inst_last_task_id i' = None"
    "reverted_status (task_cmd t) (task_request_payload t) = JStr (instance_status_str (inst_status i'))"
    "inst_reserve_resources i' = reverted_reserve (task_cmd t) (task_request_payload t)"
    "task_cmd t \<notin> {cmd_update, cmd_delete} \<longrightarrow> inst_spec i' = inst_spec i"
    "task_cmd t \<in> {cmd_update, cmd_delete} \<longrightarrow> reverted_spec (task_request_payload t) = Inr (inst_spec i')"
    by (rule pg_inst.revert_ok [OF failed(2) [unfolded revert_db_def]]) blast
  note w = only_instances_wf [OF vm_invD(1) [OF assms(1)] i(3)]
  obtain u where u: "task_stat t' = task_status.failed" "task_at d' = (task_at d1)(ev_task_id ev \<mapsto> t')"
    "inst_at d' = inst_at d1"
    by (rule task_update_effect [OF w(1) failed(3)]) simp
  have "instances d' = instances d1"
    using pg_task.set_status_ok [OF failed(3)] only_tasks_frame by blast
  then have "map im_id (instances d') = map im_id (instances d)"
    using only_instances_frame [OF i(3)] by simp
  then show thesis using that [of i i' t'] i u by (simp add: same_place_def)
qed (use assms(3) in auto)

text \<open>
  C9: a stop or a start that fails leaves the instance as the command found it: status,
  specification and reservation, and the usage of its tenant.
\<close>

theorem failed_start_stop_restores:
  assumes "vm_inv d" "stop_instance_handle cfg ids iid d = (Inr r, d1) \<or>
      start_instance_handle cfg ids iid host d = (Inr r, d1)"
    "process inet now ev d1 = (Inr (), d2)" "ev_status ev = JStr ''failed''" "ev_task_id ev = new_task_id ids"
  shows "\<exists>i i2. inst_at d iid = Some i \<and> inst_at d2 iid = Some i2 \<and> inst_status i2 = inst_status i \<and>
    inst_spec i2 = inst_spec i \<and> inst_reserve_resources i2 = inst_reserve_resources i \<and> same_place i i2 \<and>
    tenant_used d2 (inst_tenant_id i) = tenant_used d (inst_tenant_id i)"
proof -
  obtain c i i1 rp payload where c: "c \<in> {cmd_start, cmd_stop}" and i: "inst_at d iid = Some i"
    and e: "enters_pending c (new_task_id ids) i i1" and acc: "accepts cfg ids iid c rp payload i1 d r d1"
    and rp: "reverted_status c rp = JStr (instance_status_str (inst_status i))"
      "reverted_reserve c rp = inst_reserve_resources i"
    using assms(2)
  proof
    assume "stop_instance_handle cfg ids iid d = (Inr r, d1)"
    from stop_instance_effect [OF vm_invD(1) [OF assms(1)] this] show thesis
      by (elim exE conjE) (rule that [of cmd_stop], simp_all)
  next
    assume "start_instance_handle cfg ids iid host d = (Inr r, d1)"
    from start_instance_effect [OF vm_invD(1) [OF assms(1)] this] show thesis
      by (elim exE conjE) (rule that [of cmd_start], simp_all)
  qed
  have inv1: "vm_inv d1"
    using assms(2) stop_follows [OF assms(1)] start_follows [OF assms(1)] followsD by blast
  let ?t = "queued_task ids iid c rp"
  have t: "task_at d1 (ev_task_id ev) = Some ?t" using acc assms(5) by (simp add: accepts_def)
  have t_sel: "task_instance_id ?t = iid" "task_cmd ?t = c" "task_request_payload ?t = rp" "task_active (task_stat ?t)"
    by (simp_all add: queued_task_def)
  obtain j i2 t' where r: "inst_at d1 iid = Some j" "inst_at d2 = (inst_at d1)(iid \<mapsto> i2)" "same_place j i2"
    "reverted_status c rp = JStr (instance_status_str (inst_status i2))"
    "inst_reserve_resources i2 = reverted_reserve c rp"
    "c \<notin> {cmd_update, cmd_delete} \<longrightarrow> inst_spec i2 = inst_spec j"
    "map im_id (instances d2) = map im_id (instances d1)"
    by (rule process_failed_reverts [OF inv1 assms(3,4) t t_sel(4)]) (simp only: t_sel)
  have at1: "inst_at d1 = (inst_at d)(iid \<mapsto> i1)" "map im_id (instances d1) = map im_id (instances d)"
    using acc i by (simp_all add: accepts_def writes_instance_def)
  then have j: "j = i1" using r(1) by simp
  have "c \<noteq> cmd_update" "c \<noteq> cmd_delete" using c by auto
  then have i2: "inst_status i2 = inst_status i" "inst_spec i2 = inst_spec i"
      "inst_reserve_resources i2 = inst_reserve_resources i" "same_place i i2"
    using r(3-6) rp j e by (auto simp: enters_pending_def same_place_def)
  have "writes_instance d iid i2 d2" using r(2,7) at1 i by (simp add: writes_instance_def)
  from usage_after_write(2) [OF _ this] have "tenant_used d2 (inst_tenant_id i) = tenant_used d (inst_tenant_id i)"
    using vm_invD(1) [OF assms(1)] i i2 by (simp add: db_wf_def amount_at_def inst_amount_def same_place_def)
  then show ?thesis using i i2 r(2) by auto
qed


lemma example_running_inv: "vm_inv example_running"
  by (rule followsD [OF process_follows [OF example_inv example_processed example_settled]])

definition example_stopping :: db where
  "example_stopping = snd (stop_instance_handle example_config more_ids 10 example_running)"

definition example_failure :: vm_result_event where
  "example_failure = (example_event ''failed'')\<lparr>ev_task_id := 21\<rparr>"

theorem failed_start_stop_restores_witness:
  "\<exists>i2. inst_at (snd (process Some 9000 example_failure example_stopping)) 10 = Some i2 \<and> inst_status i2 = running"
proof -
  have "fst (stop_instance_handle example_config more_ids 10 example_running) = Inr (accepted more_ids 10 cmd_stop)"
    by code_simp
  then have stop: "stop_instance_handle example_config more_ids 10 example_running =
      (Inr (accepted more_ids 10 cmd_stop), example_stopping)"
    unfolding example_stopping_def by (rule run_pair)
  have "fst (process Some 9000 example_failure example_stopping) = Inr ()" by code_simp
  note fail = run_pair [OF this]
  have "map_option inst_status (inst_at example_running 10) = Some running" by code_simp
  moreover from failed_start_stop_restores [OF example_running_inv disjI1 [OF stop] fail]
  obtain i i2 where "inst_at example_running 10 = Some i"
      "inst_at (snd (process Some 9000 example_failure example_stopping)) 10 = Some i2" "inst_status i2 = inst_status i"
    by (auto simp: example_failure_def example_event_def more_ids_def)
  ultimately show ?thesis by auto
qed

section \<open>Stale tasks\<close>

definition timed_out :: "int \<Rightarrow> instance_task \<Rightarrow> bool" where
  "timed_out limit t \<longleftrightarrow> task_stat t = failed \<and> task_error_code t = Some ''TIMEOUT'' \<and>
     task_error_message t = Some (timeout_text limit)"

lemma mark_terminal_row:
  assumes "mark_terminal now tid st n res (JStr code) (JStr msg) d = (Inr t, d')"
  shows "task_stat t = st \<and> task_error_code t = Some code \<and> task_error_message t = Some msg"
  using assms by (auto simp: mark_terminal_def update_task_def task_t.update_one_run split: if_splits option.splits)

lemma fail_stale_effect:
  assumes "vm_inv d" "fail_stale inet now limit tid d = (Inr hit, d')" "task_at d tid = Some t" "task_stat t = task_queued"
  shows "hit \<and> (\<exists>t' i'. task_at d' = (task_at d)(tid \<mapsto> t') \<and> timed_out limit t' \<and>
    task_instance_id t' = task_instance_id t \<and>
    inst_at d' = (inst_at d)(task_instance_id t \<mapsto> i') \<and> \<not> is_pending (inst_status i') \<and> inst_last_task_id i' = None)"
  using assms(2)
proof (cases rule: fail_stale_cases)
  case (failed t0 u d1 t')
  then have t0: "t0 = t" using assms(3) by simp
  obtain i i' where i: "only_instances d d1" "inst_at d1 = (inst_at d)(task_instance_id t \<mapsto> i')"
      "\<not> is_pending (inst_status i')" "inst_last_task_id i' = None"
    by (rule revert_settles [OF assms(1) failed(2,4)]) (use t0 in blast)
  note w = only_instances_wf [OF vm_invD(1) [OF assms(1)] i(1)]
  obtain v where v: "task_at d1 tid = Some v" "same_request v t'" "task_at d' = (task_at d1)(tid \<mapsto> t')" "inst_at d' = inst_at d1"
    by (rule task_update_effect [OF w(1) failed(5)]) simp
  have "timed_out limit t'"
    using mark_terminal_row failed(5) by (fastforce simp: timed_out_def)
  then show ?thesis using failed(1) v i w(2) assms(3) by (auto simp: same_request_def)
qed (use assms(3,4) in blast)

lemma fail_all_stale_effect:
  assumes "vm_inv d" "fail_all_stale inet now limit n tids d = (Inr k, d')" "distinct tids"
    "\<And>tid. tid \<in> set tids \<Longrightarrow> \<exists>t. task_at d tid = Some t \<and> task_stat t = task_queued"
  shows "k = n + int (length tids) \<and>
    (\<forall>tid \<in> set tids. \<exists>t'. task_at d' tid = Some t' \<and> timed_out limit t') \<and>
    (\<forall>tid. tid \<notin> set tids \<longrightarrow> task_at d' tid = task_at d tid)"
  using assms
proof (induction tids arbitrary: n d)
  case (Cons tid tids)
  obtain hit d1 where d1: "fail_stale inet now limit tid d = (Inr hit, d1)"
      "fail_all_stale inet now limit (if hit then n + 1 else n) tids d1 = (Inr k, d')"
    using Cons.prems(2) by auto
  obtain t where t: "task_at d tid = Some t" "task_stat t = task_queued" using Cons.prems(4) by auto
  note e = fail_stale_effect [OF Cons.prems(1) d1(1) t]
  then obtain t' where t': "task_at d1 = (task_at d)(tid \<mapsto> t')" "timed_out limit t'" and hit: "hit" by blast
  have inv1: "vm_inv d1" by (rule followsD [OF fail_stale_follows [OF Cons.prems(1) d1(1)]])
  have "\<exists>u. task_at d1 x = Some u \<and> task_stat u = task_queued" if "x \<in> set tids" for x
    using Cons.prems(3,4) that t'(1) by auto
  from Cons.IH [OF inv1 d1(2) _ this] Cons.prems(3) hit t' show ?case by auto
qed simp

lemma sweep_effect:
  assumes "vm_inv d" "sweep_once inet now timeout d = (Inr n, d')"
  shows "let limit = max 1 timeout; tids = stale_ids (now - seconds limit) d in
    n = int (length tids) \<and> n \<le> 100 \<and> vm_inv d' \<and>
    (\<forall>tid \<in> set tids. \<exists>t t'. task_at d tid = Some t \<and> task_stat t = task_queued \<and>
       task_created_at t < now - seconds limit \<and> task_at d' tid = Some t' \<and> timed_out limit t') \<and>
    (\<forall>tid. tid \<notin> set tids \<longrightarrow> task_at d' tid = task_at d tid)"
proof -
  define limit where "limit = max 1 timeout"
  define tids where "tids = stale_ids (now - seconds limit) d"
  let ?stale = "sort_key task_created_at (filter (stale_task (now - seconds limit) d) (instance_tasks d))"
  have dist: "distinct (map task_id (instance_tasks d))" by (rule vm_invD(3) [OF assms(1)])
  have sub: "set (take 100 ?stale) \<subseteq> {r \<in> set (instance_tasks d). stale_task (now - seconds limit) d r}"
    using set_take_subset [of 100 ?stale] by auto
  have stale: "\<exists>t. task_at d tid = Some t \<and> task_stat t = task_queued \<and> task_created_at t < now - seconds limit"
    if tid: "tid \<in> set tids" for tid
  proof -
    obtain r where r: "r \<in> set (take 100 ?stale)" "task_id r = tid"
      using tid by (auto simp: tids_def stale_ids_def)
    then have r': "r \<in> set (instance_tasks d)" "stale_task (now - seconds limit) d r" using sub by auto
    then have "task_at d tid = Some (to_task r)"
      using row_of_unique [OF dist r'(1)] r(2) by (simp add: task_at_def)
    then show ?thesis using r'(2) by (simp add: stale_task_def)
  qed
  have "inj_on task_id (set (instance_tasks d))" using dist by (simp add: distinct_map)
  moreover have "distinct (take 100 ?stale)" using dist by (simp add: distinct_map)
  ultimately have dist': "distinct tids"
    unfolding tids_def stale_ids_def distinct_map using sub by (blast intro: inj_on_subset)
  have len: "length tids \<le> 100" by (simp add: tids_def stale_ids_def)
  have inv': "vm_inv d'" by (rule followsD [OF sweep_follows [OF assms]])
  have "n = int (length tids) \<and> (\<forall>tid \<in> set tids. \<exists>t'. task_at d' tid = Some t' \<and> timed_out limit t') \<and>
      (\<forall>tid. tid \<notin> set tids \<longrightarrow> task_at d' tid = task_at d tid)"
  proof (cases "tids = []")
    case True
    then show ?thesis using assms(2) by (simp add: sweep_once_def Let_def tids_def limit_def)
  next
    case False
    then have "fail_all_stale inet now limit 0 tids d = (Inr n, d')"
      using assms(2) by (auto simp: sweep_once_def Let_def tids_def limit_def split: prod.splits sum.splits)
    from fail_all_stale_effect [OF assms(1) this dist'] stale show ?thesis by fastforce
  qed
  then show ?thesis
    unfolding Let_def limit_def [symmetric] tids_def [symmetric] using len inv' stale by fastforce
qed

text \<open>
  C15: a sweep fails exactly the stale tasks it picked, at most a hundred, oldest first,
  as timed out, and counts them; every other task keeps its row.
\<close>

theorem sweep_fails_stale_tasks:
  assumes "vm_inv d" "sweep_once inet now timeout d = (Inr n, d')"
  shows "let limit = max 1 timeout; tids = stale_ids (now - seconds limit) d in
    n = int (length tids) \<and> n \<le> 100 \<and> vm_inv d' \<and>
    (\<forall>tid \<in> set tids. \<exists>t t'. task_at d tid = Some t \<and> task_stat t = task_queued \<and>
       task_created_at t < now - seconds limit \<and> task_at d' tid = Some t' \<and> timed_out limit t') \<and>
    (\<forall>tid. tid \<notin> set tids \<longrightarrow> task_at d' tid = task_at d tid)"
  by (rule sweep_effect [OF assms])


definition example_lost :: db where
  "example_lost = example_run\<lparr>command_outbox := []\<rparr>"

lemma example_lost_inv: "vm_inv example_lost"
proof -
  have "task_at example_lost = task_at example_run" "inst_at example_lost = inst_at example_run"
    by (simp_all add: example_lost_def task_at_def inst_at_def fun_eq_iff)
  then show ?thesis using example_inv
    by (simp add: vm_inv_def abs_life_def db_wf_def)
       (simp add: example_lost_def distinct_instances_def outbox_inv_def)
qed

theorem sweep_fails_stale_tasks_witness:
  "\<exists>t. task_at (snd (sweep_once Some 700000000 300 example_lost)) 11 = Some t \<and> timed_out 300 t"
proof -
  have "fst (sweep_once Some 700000000 300 example_lost) = Inr 1" by code_simp
  note sweep = sweep_fails_stale_tasks [OF example_lost_inv run_pair [OF this]]
  have "stale_ids (700000000 - seconds 300) example_lost = [11]" by code_simp
  with sweep show ?thesis by (auto simp: Let_def)
qed

end
