(* ===== verification/Monitor_Loop.thy ===== *)
theory Monitor_Loop
  imports VM_Properties
begin

text \<open>
  The loop of \<^verbatim>\<open>runtime/workers/stale_task_monitor.py\<close> (\<open>_run\<close>): one sweep after another
  until the stop event, each at a later clock reading; what a sweep raises is logged and the loop
  goes on.  \<open>monitor_loop\<close> takes the clock readings of its rounds and returns what each sweep
  logged.  The lemmas count the stale tasks: each sweep removes the hundred oldest, so enough sweeps
  reach every one of them.
\<close>

primrec monitor_loop ::
  "(string \<Rightarrow> string option) \<Rightarrow> int \<Rightarrow> timestamp list \<Rightarrow> db \<Rightarrow> (error + int) list \<times> db" where
  "monitor_loop inet timeout [] d = ([], d)"
| "monitor_loop inet timeout (now # clocks) d =
     (let (recovered, d1) = sweep_once inet now timeout d;
          (logged, d2) = monitor_loop inet timeout clocks d1
      in (recovered # logged, d2))"

lemma sweep_error_keeps: "sweep_once inet now timeout d = (Inl e, d') \<Longrightarrow> d' = d"
  by (auto simp: sweep_once_def Let_def split: if_splits prod.splits sum.splits)

lemma sweep_follows_always:
  assumes "vm_inv d" "sweep_once inet now timeout d = (res, d')"
  shows "follows d d'"
proof (cases res)
  case (Inl e)
  then show ?thesis using sweep_error_keeps assms follows_refl by blast
next
  case (Inr n)
  then show ?thesis using sweep_follows assms by blast
qed

lemma monitor_loop_follows:
  "vm_inv d \<Longrightarrow> follows d (snd (monitor_loop inet timeout clocks d))"
proof (induction clocks arbitrary: d)
  case (Cons now clocks)
  obtain res d1 where s: "sweep_once inet now timeout d = (res, d1)" by (cases "sweep_once inet now timeout d")
  have f: "follows d d1" by (rule sweep_follows_always [OF Cons.prems s])
  have "follows d1 (snd (monitor_loop inet timeout clocks d1))" by (rule Cons.IH [OF followsD [OF f]])
  then show ?case using f s
    by (auto simp: follows_def split: prod.splits intro: rtranclp_trans)
qed (simp add: follows_refl)

section \<open>Counting the stale tasks\<close>

definition stale_now :: "timestamp \<Rightarrow> db \<Rightarrow> uuid set" where
  "stale_now cutoff d = task_id ` {r \<in> set (instance_tasks d). stale_task cutoff d r}"

definition count_stale :: "timestamp \<Rightarrow> db \<Rightarrow> nat" where
  "count_stale cutoff d = length (filter (stale_task cutoff d) (instance_tasks d))"

lemma finite_stale_now [simp]: "finite (stale_now cutoff d)"
  by (simp add: stale_now_def)

lemma count_stale_card:
  assumes "vm_inv d" shows "count_stale cutoff d = card (stale_now cutoff d)"
proof -
  have "distinct (map task_id (instance_tasks d))" by (rule vm_invD(3) [OF assms])
  then have "distinct (map task_id (filter (stale_task cutoff d) (instance_tasks d)))"
    by (rule distinct_map_filter)
  from distinct_card [OF this] show ?thesis by (simp add: count_stale_def stale_now_def)
qed

lemma stale_task_mono: "stale_task c d r \<Longrightarrow> c \<le> c' \<Longrightarrow> stale_task c' d r"
  by (fastforce simp: stale_task_def stale_message_def split: option.splits)

lemma stale_now_mono: "c \<le> c' \<Longrightarrow> stale_now c d \<subseteq> stale_now c' d"
  by (auto simp: stale_now_def dest: stale_task_mono)

lemma stale_task_row:
  assumes "command_outbox d' = command_outbox d" "to_task r' = to_task r"
  shows "stale_task c d' r' = stale_task c d r"
proof -
  have "task_id r' = task_id r" "task_cmd r' = task_cmd r" "task_stat r' = task_stat r"
      "task_created_at r' = task_created_at r"
    by (metis to_task_sel assms(2))+
  then show ?thesis by (simp add: stale_task_def message_of_task_def assms(1))
qed

lemma stale_now_iff:
  assumes "vm_inv d"
  shows "tid \<in> stale_now c d \<longleftrightarrow> (\<exists>r. row_of task_id tid (instance_tasks d) = Some r \<and> stale_task c d r)"
  using row_of_unique [OF vm_invD(3) [OF assms]] by (fastforce simp: stale_now_def dest: row_of_SomeD)

lemma stale_now_same:
  assumes "vm_inv d" "vm_inv d'" "command_outbox d' = command_outbox d" "task_at d' tid = task_at d tid"
  shows "tid \<in> stale_now c d' \<longleftrightarrow> tid \<in> stale_now c d"
proof -
  have "stale_task c d' r' = stale_task c d r"
    if "row_of task_id tid (instance_tasks d) = Some r" "row_of task_id tid (instance_tasks d') = Some r'" for r r'
    by (rule stale_task_row [OF assms(3)]) (use assms(4) that in \<open>simp add: task_at_def\<close>)
  then show ?thesis using assms(4)
    by (cases "row_of task_id tid (instance_tasks d)"; cases "row_of task_id tid (instance_tasks d')")
       (auto simp: stale_now_iff assms(1,2) task_at_def)
qed

lemma stale_now_queued:
  assumes "vm_inv d" "tid \<in> stale_now c d"
  obtains t where "task_at d tid = Some t" "task_stat t = task_queued"
  using assms(2) by (auto simp: stale_now_iff [OF assms(1)] stale_task_def task_at_def)

lemma stale_ids_subset: "set (stale_ids c d) \<subseteq> stale_now c d"
  using set_take_subset [of 100 "sort_key task_created_at (filter (stale_task c d) (instance_tasks d))"]
  by (auto simp: stale_ids_def stale_now_def)

lemma stale_ids_all:
  assumes "tid \<in> stale_now c d" "tid \<notin> set (stale_ids c d)"
  shows "length (stale_ids c d) = 100"
proof (rule ccontr)
  let ?s = "sort_key task_created_at (filter (stale_task c d) (instance_tasks d))"
  assume "length (stale_ids c d) \<noteq> 100"
  then have "length ?s \<le> 100" by (simp add: stale_ids_def)
  then have "stale_ids c d = map task_id ?s" by (simp only: stale_ids_def take_all)
  then show False using assms by (auto simp: stale_now_def)
qed

lemma distinct_stale_ids:
  assumes "vm_inv d" shows "distinct (stale_ids c d)"
proof -
  let ?s = "sort_key task_created_at (filter (stale_task c d) (instance_tasks d))"
  have "distinct (map task_id (filter (stale_task c d) (instance_tasks d)))"
    by (rule distinct_map_filter [OF vm_invD(3) [OF assms]])
  then have "distinct (map task_id ?s)"
    by (simp add: distinct_map)
  then show ?thesis by (simp only: stale_ids_def take_map [symmetric] distinct_take)
qed

section \<open>What a sweep does to the count\<close>

lemma fail_stale_outbox:
  assumes "vm_inv d" "fail_stale inet now limit tid d = (Inr hit, d')"
  shows "command_outbox d' = command_outbox d"
  using assms(2)
proof (cases rule: fail_stale_cases)
  case (failed t0 u d1 t')
  obtain i i' where i: "only_instances d d1"
    by (rule revert_settles [OF assms(1) failed(2,4)]) blast
  have "only_tasks d1 d'" using pg_task.set_status_ok [OF failed(5)] by blast
  then show ?thesis using only_tasks_frame only_instances_frame [OF i] by metis
qed simp_all

lemma fail_all_stale_outbox:
  "vm_inv d \<Longrightarrow> fail_all_stale inet now limit n tids d = (Inr k, d') \<Longrightarrow>
     command_outbox d' = command_outbox d"
proof (induction tids arbitrary: n d)
  case (Cons tid tids)
  obtain hit d1 where d1: "fail_stale inet now limit tid d = (Inr hit, d1)"
      "fail_all_stale inet now limit (if hit then n + 1 else n) tids d1 = (Inr k, d')"
    using Cons.prems(2) by auto
  have "vm_inv d1" by (rule followsD [OF fail_stale_follows [OF Cons.prems(1) d1(1)]])
  from Cons.IH [OF this d1(2)] show ?case using fail_stale_outbox [OF Cons.prems(1) d1(1)] by simp
qed simp

lemma sweep_outbox:
  "vm_inv d \<Longrightarrow> sweep_once inet now timeout d = (res, d') \<Longrightarrow> command_outbox d' = command_outbox d"
  using fail_all_stale_outbox
  by (fastforce simp: sweep_once_def Let_def split: if_splits prod.splits sum.splits)

lemma sweep_stale_now:
  assumes "vm_inv d" "sweep_once inet now timeout d = (Inr n, d')"
  shows "stale_now c d' = stale_now c d - set (stale_ids (now - seconds (max 1 timeout)) d)"
proof (intro set_eqI)
  fix tid
  let ?ids = "stale_ids (now - seconds (max 1 timeout)) d"
  note e = sweep_effect [OF assms, unfolded Let_def]
  have inv': "vm_inv d'" using e by blast
  show "tid \<in> stale_now c d' \<longleftrightarrow> tid \<in> stale_now c d - set ?ids"
  proof (cases "tid \<in> set ?ids")
    case True
    then obtain t where "task_at d' tid = Some t" "timed_out (max 1 timeout) t" using e by blast
    then have "tid \<notin> stale_now c d'"
      using stale_now_queued [OF inv', of tid c] by (force simp: timed_out_def)
    then show ?thesis using True by simp
  next
    case False
    then have "task_at d' tid = task_at d tid" using e by blast
    from stale_now_same [OF assms(1) inv' sweep_outbox [OF assms] this] False show ?thesis by simp
  qed
qed

lemma sweep_progress:
  assumes "vm_inv d" "sweep_once inet now timeout d = (Inr n, d')"
    "tid \<in> stale_now (now - seconds (max 1 timeout)) d" "now \<le> later"
  obtains t where "task_at d' tid = Some t" "timed_out (max 1 timeout) t"
  | "tid \<in> stale_now (now - seconds (max 1 timeout)) d'"
    "count_stale (later - seconds (max 1 timeout)) d' + 100 = count_stale (later - seconds (max 1 timeout)) d"
proof (cases "tid \<in> set (stale_ids (now - seconds (max 1 timeout)) d)")
  case True
  then show thesis using sweep_effect [OF assms(1,2), unfolded Let_def] that(1) by blast
next
  case False
  let ?now = "now - seconds (max 1 timeout)" and ?later = "later - seconds (max 1 timeout)"
  have inv': "vm_inv d'" by (rule followsD [OF sweep_follows [OF assms(1,2)]])
  have "card (set (stale_ids ?now d)) = 100"
    using distinct_card [OF distinct_stale_ids [OF assms(1)]] stale_ids_all [OF assms(3) False] by simp
  moreover have sub: "set (stale_ids ?now d) \<subseteq> stale_now ?later d"
    using stale_ids_subset stale_now_mono [of ?now ?later d] assms(4) by (meson diff_right_mono subset_trans)
  ultimately have "card (stale_now ?later d') + 100 = card (stale_now ?later d)"
    using sweep_stale_now [OF assms(1,2)] card_Diff_subset [OF _ sub] card_mono [OF _ sub] by simp
  then have "count_stale ?later d' + 100 = count_stale ?later d"
    by (simp only: count_stale_card [OF assms(1)] count_stale_card [OF inv'])
  moreover have "tid \<in> stale_now ?now d'"
    using assms(3) False by (simp add: sweep_stale_now [OF assms(1,2)])
  ultimately show thesis by (rule that(2) [rotated])
qed

lemma follows_timed_out:
  assumes "vm_inv d" "follows d d'" "task_at d tid = Some t" "timed_out limit t"
  shows "task_at d' tid = Some t"
proof -
  have "life_step\<^sup>*\<^sup>* (inst_at d, task_at d) (inst_at d', task_at d')" "life_inv (inst_at d, task_at d)"
    using assms(1,2) vm_invD(2) [OF assms(1)] by (simp_all add: follows_def abs_life_def)
  from life_steps_kept [OF this] show ?thesis using assms(3,4) by (auto simp: timed_out_def task_terminal_def)
qed

abbreviation succeeded_sweeps :: "(error + int) list \<Rightarrow> nat" where
  "succeeded_sweeps logged \<equiv> length (filter (\<lambda>r. \<not> isl r) logged)"

lemma monitor_loop_reaches:
  assumes "vm_inv d" "monitor_loop inet timeout clocks d = (logged, d')" "sorted clocks"
    "\<And>now. now \<in> set clocks \<Longrightarrow> first \<le> now \<and> now \<le> later" "first \<le> later"
    "count_stale (later - seconds (max 1 timeout)) d \<le> 100 * succeeded_sweeps logged"
    "tid \<in> stale_now (first - seconds (max 1 timeout)) d"
  shows "\<exists>t. task_at d' tid = Some t \<and> timed_out (max 1 timeout) t"
  using assms
proof (induction clocks arbitrary: d logged)
  case Nil
  have "tid \<in> stale_now (later - seconds (max 1 timeout)) d"
    using Nil.prems(7) stale_now_mono [OF diff_right_mono [OF Nil.prems(5)]] by blast
  then show ?case using Nil.prems(2,6) count_stale_card [OF Nil.prems(1)] by auto
next
  case (Cons now clocks)
  obtain res d1 where s: "sweep_once inet now timeout d = (res, d1)" by (cases "sweep_once inet now timeout d")
  obtain rest where rest: "monitor_loop inet timeout clocks d1 = (rest, d')" "logged = res # rest"
    using Cons.prems(2) s by (auto split: prod.splits)
  have inv1: "vm_inv d1" by (rule followsD [OF sweep_follows_always [OF Cons.prems(1) s]])
  have clocks: "sorted clocks" "\<And>x. x \<in> set clocks \<Longrightarrow> first \<le> x \<and> x \<le> later"
    using Cons.prems(3,4) by auto
  note ih = Cons.IH [OF inv1 rest(1) clocks Cons.prems(5)]
  show ?case
  proof (cases res)
    case (Inl e)
    then have "d1 = d" using sweep_error_keeps s by blast
    then show ?thesis using ih Cons.prems(6,7) rest(2) Inl by simp
  next
    case (Inr n)
    have "tid \<in> stale_now (now - seconds (max 1 timeout)) d"
      using Cons.prems(4) [of now] Cons.prems(7) stale_now_mono [OF diff_right_mono, of first now] by auto
    then show ?thesis
    proof (cases rule: sweep_progress [OF Cons.prems(1) s [unfolded Inr]])
      show "now \<le> later" using Cons.prems(4) by simp
    next
      fix t assume t: "task_at d1 tid = Some t" "timed_out (max 1 timeout) t"
      have "follows d1 d'" using monitor_loop_follows [OF inv1] rest(1) by (metis snd_conv)
      from follows_timed_out [OF inv1 this t] t(2) show ?thesis by blast
    next
      assume still: "tid \<in> stale_now (now - seconds (max 1 timeout)) d1"
        and "count_stale (later - seconds (max 1 timeout)) d1 + 100 =
          count_stale (later - seconds (max 1 timeout)) d"
      then have fewer: "count_stale (later - seconds (max 1 timeout)) d1 \<le> 100 * succeeded_sweeps rest"
        using Cons.prems(6) rest(2) Inr by simp
      have "tid \<in> stale_now (first - seconds (max 1 timeout)) d1"
        using still Cons.prems(7) by (simp add: sweep_stale_now [OF Cons.prems(1) s [unfolded Inr]])
      then show ?thesis using ih fewer by blast
    qed
  qed
qed

text \<open>
  C16: the monitor gets to every stale task.  When its rounds read a clock that does not
  go back and its successful sweeps, a hundred tasks each, are enough for the tasks stale by the last
  round, every task that was stale at the first ends failed as timed out, though some
  sweeps raise and though older tasks come first.
\<close>

theorem monitor_reaches_stale_tasks:
  assumes "vm_inv d" "monitor_loop inet timeout clocks d = (logged, d')" "clocks \<noteq> []" "sorted clocks"
    "count_stale (last clocks - seconds (max 1 timeout)) d \<le> 100 * succeeded_sweeps logged"
    "r \<in> set (instance_tasks d)" "stale_task (hd clocks - seconds (max 1 timeout)) d r"
  shows "\<exists>t. task_at d' (task_id r) = Some t \<and> timed_out (max 1 timeout) t"
proof (rule monitor_loop_reaches [OF assms(1,2,4) _ _ assms(5)])
  show "hd clocks \<le> now \<and> now \<le> last clocks" if "now \<in> set clocks" for now
    using assms(3,4) that by (induction clocks) (auto split: if_splits)
  then show "hd clocks \<le> last clocks" using assms(3) by (meson hd_in_set)
qed (use assms(6,7) in \<open>auto simp: stale_now_def\<close>)

theorem monitor_reaches_stale_tasks_witness:
  "\<exists>t. task_at (snd (monitor_loop Some 300 [700000000, 700000001] example_lost)) 11 = Some t \<and> timed_out 300 t"
proof -
  have log: "fst (monitor_loop Some 300 [700000000, 700000001] example_lost) = [Inr 1, Inr 0]" by code_simp
  have count: "count_stale (700000001 - seconds 300) example_lost = 1" by code_simp
  have "map task_id (filter (stale_task (700000000 - seconds 300) example_lost)
      (instance_tasks example_lost)) = [11]" by code_simp
  from Cons_eq_map_D [OF this [symmetric]] obtain r
    where r: "[r] = filter (stale_task (700000000 - seconds 300) example_lost) (instance_tasks example_lost)"
      "task_id r = 11"
    by auto
  then have "r \<in> set (filter (stale_task (700000000 - seconds 300) example_lost) (instance_tasks example_lost))"
    by (metis list.set_intros(1))
  then have "r \<in> set (instance_tasks example_lost)" "stale_task (700000000 - seconds 300) example_lost r" by simp_all
  with monitor_reaches_stale_tasks [OF example_lost_inv, where inet = Some and timeout = 300 and
      clocks = "[700000000, 700000001]" and r = r, OF prod.collapse [symmetric]]
  show ?thesis by (simp add: log count r(2) del: monitor_loop.simps)
qed

end
