(* ===== verification/Session.thy ===== *)
theory Session
  imports Store
begin

text \<open>
  A database session (\<^verbatim>\<open>infra/uow.py\<close>, \<^verbatim>\<open>get_session\<close>): statements act on the work
  of the transaction, \<open>commit\<close> makes it durable, and what is not committed when the request
  ends is lost.  A request therefore takes the durable database to the durable database of the
  session it ran.  The advisory lock only orders requests, which the model runs one at a time.

  Two judgements carry the proofs about sessions: \<open>keeps\<close> (an invariant survives an action,
  also when it raises) and \<open>commits_last\<close> (nothing is durable when it raises), each with one
  rule per construct of the action language.
\<close>

section \<open>Sessions and requests\<close>

record session =
  work :: db
  durable :: db

type_synonym 'a sess_act = "(error, session, 'a) act"

definition db_op :: "'a db_act \<Rightarrow> 'a sess_act" where
  "db_op m s = (case m (work s) of (r, d) \<Rightarrow> (r, s\<lparr>work := d\<rparr>))"

definition commit :: "unit sess_act" where
  "commit s = (Inr (), s\<lparr>durable := work s\<rparr>)"

definition rollback :: "unit sess_act" where
  "rollback s = (Inr (), s\<lparr>work := durable s\<rparr>)"

definition advisory_lock :: "int \<Rightarrow> unit sess_act" where
  "advisory_lock k = returnM ()"

definition open_session :: "db \<Rightarrow> session" where
  "open_session d = \<lparr>work = d, durable = d\<rparr>"

definition request :: "'a sess_act \<Rightarrow> db \<Rightarrow> (error + 'a) \<times> db" where
  "request m d = (case m (open_session d) of (r, s) \<Rightarrow> (r, durable s))"

definition catchM :: "('e, 's, 'a) act \<Rightarrow> ('e \<Rightarrow> ('e, 's, 'a) act) \<Rightarrow> ('e, 's, 'a) act" where
  "catchM m h s = (case m s of (Inl e, s') \<Rightarrow> h e s' | (Inr a, s') \<Rightarrow> (Inr a, s'))"

text \<open>\<^verbatim>\<open>try ... except\<close> that turns an exception into another one.\<close>

definition mapErrM :: "('e \<Rightarrow> 'e) \<Rightarrow> ('e, 's, 'a) act \<Rightarrow> ('e, 's, 'a) act" where
  "mapErrM f m = catchM m (\<lambda>e. raiseM (f e))"

lemma db_op_run [act_simps]: "m (work s) = (r, d) \<Longrightarrow> db_op m s = (r, s\<lparr>work := d\<rparr>)"
  by (simp add: db_op_def)

lemma db_op_iff: "db_op m s = (r, s') \<longleftrightarrow> (\<exists>d. m (work s) = (r, d) \<and> s' = s\<lparr>work := d\<rparr>)"
  by (auto simp: db_op_def split: prod.splits)

lemma commit_run [simp, act_simps]: "commit s = (Inr (), s\<lparr>durable := work s\<rparr>)"
  by (simp add: commit_def)

lemma advisory_lock_run [simp, act_simps]: "advisory_lock k = returnM ()"
  by (simp add: advisory_lock_def)

lemma open_session_sel [simp]: "work (open_session d) = d" "durable (open_session d) = d"
  by (simp_all add: open_session_def)

lemma request_iff: "request m d = (r, d') \<longleftrightarrow> (\<exists>s. m (open_session d) = (r, s) \<and> d' = durable s)"
  by (auto simp: request_def split: prod.splits)

lemma mapErrM_Inr_iff [simp]: "mapErrM f m s = (Inr a, s') \<longleftrightarrow> m s = (Inr a, s')"
  by (auto simp: mapErrM_def catchM_def split: prod.splits sum.splits)

lemma mapErrM_Inl_iff: "mapErrM f m s = (Inl e, s') \<longleftrightarrow> (\<exists>e'. m s = (Inl e', s') \<and> e = f e')"
  by (auto simp: mapErrM_def catchM_def split: prod.splits sum.splits)

section \<open>Invariants of actions\<close>

definition keeps :: "('s \<Rightarrow> bool) \<Rightarrow> ('e, 's, 'a) act \<Rightarrow> bool" where
  "keeps P m \<longleftrightarrow> (\<forall>s. P s \<longrightarrow> P (snd (m s)))"

named_theorems keeps_intros \<open>an action keeps an invariant\<close>

lemma keepsD: "keeps P m \<Longrightarrow> P s \<Longrightarrow> m s = (r, s') \<Longrightarrow> P s'"
  unfolding keeps_def by (metis snd_conv)

lemma keepsI: "(\<And>s r s'. P s \<Longrightarrow> m s = (r, s') \<Longrightarrow> P s') \<Longrightarrow> keeps P m"
  unfolding keeps_def by (metis prod.collapse)

lemma keeps_readonly: "readonly m \<Longrightarrow> keeps P m"
  by (simp add: keeps_def readonly_def)

lemma keeps_basic [keeps_intros]:
  "keeps P (returnM a)" "keeps P (raiseM e)" "keeps P (getsM f)" "keeps P (liftM r)" "keeps P (guardM c e)"
  by (auto intro: keeps_readonly)

lemma keeps_sql_read [keeps_intros]: "keeps P (sql_scalar rows p)" "keeps P (sql_select rows p)"
  by (auto simp: sql_scalar_def sql_select_def intro: keeps_readonly)

lemma keeps_bindM [keeps_intros]: "keeps P m \<Longrightarrow> (\<And>a. keeps P (f a)) \<Longrightarrow> keeps P (bindM m f)"
  by (intro keepsI) (auto simp: bindM_def split: prod.splits sum.splits dest: keepsD)

lemma keeps_catchM [keeps_intros]: "keeps P m \<Longrightarrow> (\<And>e. keeps P (h e)) \<Longrightarrow> keeps P (catchM m h)"
  by (intro keepsI) (auto simp: catchM_def split: prod.splits sum.splits dest: keepsD)

lemma keeps_mapErrM [keeps_intros]: "keeps P m \<Longrightarrow> keeps P (mapErrM f m)"
  by (simp add: mapErrM_def keeps_intros)

lemma keeps_if [keeps_intros]: "(c \<Longrightarrow> keeps P m) \<Longrightarrow> (\<not> c \<Longrightarrow> keeps P n) \<Longrightarrow> keeps P (if c then m else n)"
  by simp

lemma keeps_case_option [keeps_intros]:
  "(x = None \<Longrightarrow> keeps P m) \<Longrightarrow> (\<And>a. x = Some a \<Longrightarrow> keeps P (f a)) \<Longrightarrow>
     keeps P (case x of None \<Rightarrow> m | Some a \<Rightarrow> f a)"
  by (cases x) auto

lemma keeps_eachM [keeps_intros]: "(\<And>x. keeps P (f x)) \<Longrightarrow> keeps P (eachM f xs)"
  by (induction xs) (auto intro: keeps_intros)

lemma keeps_conj: "keeps P m \<Longrightarrow> keeps Q m \<Longrightarrow> keeps (\<lambda>s. P s \<and> Q s) m"
  by (auto simp: keeps_def)

lemma keeps_const: "keeps (\<lambda>_. c) m"
  by (simp add: keeps_def)

text \<open>An invariant of the tables, held by the work and by what is durable.\<close>

definition both :: "(db \<Rightarrow> bool) \<Rightarrow> session \<Rightarrow> bool" where
  "both P s \<longleftrightarrow> P (work s) \<and> P (durable s)"

lemma keeps_db_op [keeps_intros]: "keeps P m \<Longrightarrow> keeps (both P) (db_op m)"
  by (intro keepsI) (auto simp: both_def db_op_iff dest: keepsD)

lemma keeps_commit [keeps_intros]: "keeps (both P) commit"
  by (auto simp: keeps_def both_def)

lemma keeps_advisory [keeps_intros]: "keeps P (advisory_lock k)"
  by (simp add: keeps_intros)

lemma keeps_request: "keeps (both P) m \<Longrightarrow> P d \<Longrightarrow> request m d = (r, d') \<Longrightarrow> P d'"
  using keepsD [of "both P" m "open_session d"] by (auto simp: request_iff both_def)

section \<open>Requests that raise\<close>

text \<open>
  Most handlers commit last: whatever they raise before leaves the database as it was.
\<close>

definition uncommitted :: "'a sess_act \<Rightarrow> bool" where
  "uncommitted m \<longleftrightarrow> (\<forall>s. durable (snd (m s)) = durable s)"

definition commits_last :: "'a sess_act \<Rightarrow> bool" where
  "commits_last m \<longleftrightarrow> (\<forall>s e s'. m s = (Inl e, s') \<longrightarrow> durable s' = durable s)"

named_theorems commit_intros \<open>where an action commits\<close>

lemma uncommittedD: "uncommitted m \<Longrightarrow> m s = (r, s') \<Longrightarrow> durable s' = durable s"
  unfolding uncommitted_def by (metis snd_conv)

lemma uncommitted_intros [commit_intros]:
  "uncommitted (returnM a)" "uncommitted (raiseM e)" "uncommitted (getsM f)" "uncommitted (liftM r)"
  "uncommitted (guardM c e)" "uncommitted (db_op q)" "uncommitted (advisory_lock k)"
  by (auto simp: uncommitted_def db_op_def split: prod.splits)

lemma uncommitted_bindM [commit_intros]:
  "uncommitted m \<Longrightarrow> (\<And>a. uncommitted (f a)) \<Longrightarrow> uncommitted (bindM m f)"
  by (auto simp: uncommitted_def bindM_def split: prod.splits sum.splits) (metis snd_conv)+

lemma uncommitted_branches [commit_intros]:
  "(c \<Longrightarrow> uncommitted m) \<Longrightarrow> (\<not> c \<Longrightarrow> uncommitted n) \<Longrightarrow> uncommitted (if c then m else n)"
  "(x = None \<Longrightarrow> uncommitted m) \<Longrightarrow> (\<And>a. x = Some a \<Longrightarrow> uncommitted (g a)) \<Longrightarrow>
     uncommitted (case x of None \<Rightarrow> m | Some a \<Rightarrow> g a)"
  by (auto split: option.splits)

lemma uncommitted_last: "uncommitted m \<Longrightarrow> commits_last m"
  unfolding commits_last_def by (blast dest: uncommittedD)

lemma commits_last_bindM [commit_intros]:
  "uncommitted m \<Longrightarrow> (\<And>a. commits_last (f a)) \<Longrightarrow> commits_last (bindM m f)"
  unfolding commits_last_def bindM_Inl_iff by (metis uncommittedD)

lemma commits_last_commit [commit_intros]:
  "commits_last commit" "commits_last (bindM commit (\<lambda>_. returnM a))"
  by (auto simp: commits_last_def bindM_def)

lemma commits_last_mapErrM [commit_intros]: "commits_last m \<Longrightarrow> commits_last (mapErrM f m)"
  by (auto simp: commits_last_def mapErrM_Inl_iff)

lemma commits_last_branches [commit_intros]:
  "(c \<Longrightarrow> commits_last m) \<Longrightarrow> (\<not> c \<Longrightarrow> commits_last n) \<Longrightarrow> commits_last (if c then m else n)"
  "(x = None \<Longrightarrow> commits_last m) \<Longrightarrow> (\<And>a. x = Some a \<Longrightarrow> commits_last (g a)) \<Longrightarrow>
     commits_last (case x of None \<Rightarrow> m | Some a \<Rightarrow> g a)"
  by (auto split: option.splits)

lemma commits_last_intros [commit_intros]: "commits_last (raiseM e)" "commits_last (returnM a)"
  by (simp_all add: commits_last_def)

lemma failed_request:
  "commits_last m \<Longrightarrow> request m d = (Inl e, d') \<Longrightarrow> d' = d"
  unfolding request_iff commits_last_def by (metis open_session_sel(2))

section \<open>One transaction\<close>

text \<open>
  A handler that commits once, at its end, is an action on the database: its effect is durable when
  it returns and lost when it raises.
\<close>

definition transact :: "'a db_act \<Rightarrow> 'a sess_act" where
  "transact m = bindM (db_op m) (\<lambda>r. bindM commit (\<lambda>_. returnM r))"

lemma request_transact:
  "request (transact m) d = (case m d of (Inr r, d') \<Rightarrow> (Inr r, d') | (Inl e, _) \<Rightarrow> (Inl e, d))"
  by (auto simp: request_def transact_def bindM_def db_op_def open_session_def split: prod.splits sum.splits)

lemma request_transact_Inr [simp]: "request (transact m) d = (Inr r, d') \<longleftrightarrow> m d = (Inr r, d')"
  by (auto simp: request_transact split: prod.splits sum.splits)

lemma request_transact_Inl: "request (transact m) d = (Inl e, d') \<longleftrightarrow> d' = d \<and> (\<exists>x. m d = (Inl e, x))"
  by (auto simp: request_transact split: prod.splits sum.splits)

lemma request_transact_keeps:
  assumes "request (transact m) d = (r, d')" "P d" "\<And>a. m d = (Inr a, d') \<Longrightarrow> P d'"
  shows "P d'"
  using assms by (cases r) (auto simp: request_transact_Inl)

lemma commits_last_transact [commit_intros]: "commits_last (transact m)"
  unfolding transact_def by (intro commit_intros)

lemma request_mapErr_transact:
  "request (mapErrM f (transact m)) d =
     (case m d of (Inr r, d') \<Rightarrow> (Inr r, d') | (Inl e, _) \<Rightarrow> (Inl (f e), d))"
  by (auto simp: request_def transact_def mapErrM_def catchM_def bindM_def db_op_def open_session_def
      split: prod.splits sum.splits)

end
