(* ===== verification/Tenant_Repo.thy ===== *)
theory Tenant_Repo
  imports Session Accounting
begin

text \<open>
  \<^verbatim>\<open>adapters/postgres_repositories/tenant.py\<close>: tenants, their quotas and the read of
  their usage.  \<^verbatim>\<open>session.delete\<close> of the ORM is the parameter \<open>orm_delete\<close>: what
  SQLAlchemy emits for the rows that refer to the tenant is not in the sources; the code relies on
  the tenant's row being gone when it returns.
\<close>

definition tenant_create :: "uuid \<Rightarrow> timestamp \<Rightarrow> string \<Rightarrow> string \<Rightarrow> bool \<Rightarrow> tenant db_act" where
  "tenant_create tid now key name active =
     bindM (sql_scalar tenants (\<lambda>t. ten_key t = key)) (\<lambda>conflict.
     case conflict of
       Some _ \<Rightarrow> raiseM (ConflictError (''tenant key '' @ key @ '' already exists''))
     | None \<Rightarrow> sql_insert tenants_update tenant_violates
         \<lparr>ten_id = tid, ten_key = key, ten_name = name, ten_is_active = active,
          ten_created_at = now, ten_updated_at = now\<rparr>)"

definition tenant_get :: "uuid \<Rightarrow> tenant option db_act" where
  "tenant_get tid = sql_scalar tenants (\<lambda>t. ten_id t = tid)"

definition tenant_is_active :: "uuid \<Rightarrow> bool option db_act" where
  "tenant_is_active tid =
     bindM (sql_scalar tenants (\<lambda>t. ten_id t = tid)) (\<lambda>m. returnM (map_option ten_is_active m))"

definition tenant_get_by_key :: "string \<Rightarrow> tenant option db_act" where
  "tenant_get_by_key key = sql_scalar tenants (\<lambda>t. ten_key t = key)"

definition tenant_missing :: "uuid \<Rightarrow> error" where
  "tenant_missing tid = NotFoundError (''tenant '' @ uuid_str tid @ '' not found'')"

definition set_tenant :: "timestamp \<Rightarrow> string option \<Rightarrow> bool option \<Rightarrow> tenant \<Rightarrow> tenant" where
  "set_tenant now name active t =
     t\<lparr>ten_name := (case name of Some n \<Rightarrow> n | None \<Rightarrow> ten_name t),
       ten_is_active := (case active of Some b \<Rightarrow> b | None \<Rightarrow> ten_is_active t),
       ten_updated_at := now\<rparr>"

definition tenant_update :: "timestamp \<Rightarrow> uuid \<Rightarrow> string option \<Rightarrow> bool option \<Rightarrow> tenant db_act" where
  "tenant_update now tid name active =
     sql_update_one tenants tenants_update (\<lambda>t. ten_id t = tid)
       (set_tenant now name active)
       id (tenant_missing tid)"

definition tenant_delete :: "(uuid \<Rightarrow> unit db_act) \<Rightarrow> uuid \<Rightarrow> unit db_act" where
  "tenant_delete orm_delete tid =
     bindM (sql_scalar tenants (\<lambda>t. ten_id t = tid)) (\<lambda>m.
     case m of
       None \<Rightarrow> raiseM (tenant_missing tid)
     | Some _ \<Rightarrow> orm_delete tid)"

definition count_active_users :: "uuid \<Rightarrow> int db_act" where
  "count_active_users tid =
     getsM (\<lambda>d. int (length (filter (\<lambda>u. usr_tenant_id u = Some tid \<and> usr_is_active u) (users d))))"

definition count_active_instances :: "uuid \<Rightarrow> int db_act" where
  "count_active_instances tid =
     getsM (\<lambda>d. int (length (filter (\<lambda>m. im_tenant_id m = tid \<and> im_status m \<noteq> deleted) (instances d))))"

definition quota_get :: "uuid \<Rightarrow> tenant_quota option db_act" where
  "quota_get tid = sql_scalar tenant_quotas (\<lambda>q. quo_tenant_id q = tid)"

text \<open>
  \<^verbatim>\<open>INSERT ... ON CONFLICT (tenant_id) DO UPDATE\<close>: the columns are INTEGER, the key refers
  to a tenant.
\<close>

definition quota_upsert :: "timestamp \<Rightarrow> uuid \<Rightarrow> int \<Rightarrow> int \<Rightarrow> int \<Rightarrow> int \<Rightarrow> tenant_quota db_act" where
  "quota_upsert now tid n c m g =
     bindM (guardM (int4 n \<and> int4 c \<and> int4 m \<and> int4 g) (DataError ''integer out of range'')) (\<lambda>_.
     let q = \<lparr>quo_tenant_id = tid, max_instances = n, max_cpu = c, max_memory_mib = m,
              max_disk_gib = g, quo_updated_at = now\<rparr> in
     bindM (sql_scalar tenant_quotas (\<lambda>r. quo_tenant_id r = tid)) (\<lambda>conflict.
     case conflict of
       Some _ \<Rightarrow> sql_update_one tenant_quotas tenant_quotas_update (\<lambda>r. quo_tenant_id r = tid) (\<lambda>_. q) id
                   (IntegrityError ''tenant_quotas_pkey'')
     | None \<Rightarrow>
         bindM (sql_scalar tenants (\<lambda>t. ten_id t = tid)) (\<lambda>t.
         if t = None then raiseM (IntegrityError ''tenant_quotas_tenant_id_fkey'')
         else bindM (sql_insert tenant_quotas_update (\<lambda>_ _. None) q) returnM)))"

text \<open>
  The outer join of the tenant with the usage view: a tenant without instances has no row there,
  which \<^verbatim>\<open>coalesce\<close> reads as zeros.
\<close>

definition get_usage :: "uuid \<Rightarrow> tenant_usage db_act" where
  "get_usage tid =
     bindM (sql_scalar tenants (\<lambda>t. ten_id t = tid)) (\<lambda>t.
     bindM (getsM (\<lambda>d. tenant_resource_usage_view d tid)) (\<lambda>usage.
     case t of
       None \<Rightarrow> raiseM (tenant_missing tid)
     | Some _ \<Rightarrow> returnM (case usage of
         Some u \<Rightarrow> u
       | None \<Rightarrow> \<lparr>usage_tenant_id = tid, used_instances = 0, used_cpu = 0, used_memory_mib = 0,
                  used_disk_gib = 0\<rparr>)))"

section \<open>Effects\<close>

definition tenants_ok :: "db \<Rightarrow> bool" where
  "tenants_ok d \<longleftrightarrow> distinct (map ten_id (tenants d)) \<and> distinct (map ten_key (tenants d)) \<and>
     distinct (map quo_tenant_id (tenant_quotas d)) \<and>
     quo_tenant_id ` set (tenant_quotas d) \<subseteq> ten_id ` set (tenants d)"

definition tenant_at :: "db \<Rightarrow> uuid \<Rightarrow> tenant option" where
  "tenant_at d k = row_of ten_id k (tenants d)"

definition quota_at :: "db \<Rightarrow> uuid \<Rightarrow> tenant_quota option" where
  "quota_at d k = row_of quo_tenant_id k (tenant_quotas d)"

lemma tenant_get_run [act_simps]: "tenant_get k d = (Inr (tenant_at d k), d)"
  by (simp add: tenant_get_def sql_run find_key tenant_at_def)

lemma bindM_tenant_get [act_simps]: "bindM (tenant_get k) f d = f (tenant_at d k) d"
  by (simp add: bindM_def tenant_get_run)

lemma bindM_tenant_is_active [act_simps]:
  "bindM (tenant_is_active k) f d = f (map_option ten_is_active (tenant_at d k)) d"
  by (simp add: tenant_is_active_def bindM_assoc bindM_sql_run find_key tenant_at_def)

lemma quota_get_run [act_simps]: "quota_get k d = (Inr (quota_at d k), d)"
  by (simp add: quota_get_def sql_run find_key quota_at_def)

lemma count_run [act_simps]:
  "bindM (count_active_users k) f d =
     f (int (length (filter (\<lambda>u. usr_tenant_id u = Some k \<and> usr_is_active u) (users d)))) d"
  "bindM (count_active_instances k) g d =
     g (int (length (filter (\<lambda>m. im_tenant_id m = k \<and> im_status m \<noteq> deleted) (instances d)))) d"
  by (simp_all add: count_active_users_def count_active_instances_def bindM_run)

definition usage_amount :: "tenant_usage \<Rightarrow> amount" where
  "usage_amount u = Amount (used_instances u) (used_cpu u) (used_memory_mib u) (used_disk_gib u)"

definition quota_amount :: "tenant_quota \<Rightarrow> amount" where
  "quota_amount q = Amount (max_instances q) (max_cpu q) (max_memory_mib q) (max_disk_gib q)"

lemma get_usage_run:
  "get_usage tid d =
     (if tenant_at d tid = None then (Inl (tenant_missing tid), d)
      else (Inr (case tenant_resource_usage_view d tid of Some u \<Rightarrow> u
        | None \<Rightarrow> \<lparr>usage_tenant_id = tid, used_instances = 0, used_cpu = 0, used_memory_mib = 0,
                   used_disk_gib = 0\<rparr>), d))"
  by (simp add: get_usage_def bindM_sql_run find_key bindM_run tenant_at_def split: option.splits)

lemma get_usage_amount:
  "get_usage tid d = (Inr u, d') \<Longrightarrow> usage_amount u = tenant_used d tid \<and> d' = d \<and> tenant_at d tid \<noteq> None"
  using quota_used [of d tid]
  by (auto simp: get_usage_run usage_amount_def amount.expand split: if_splits option.splits)

lemma quota_upsert_ok:
  assumes "quota_upsert now tid n c m g d = (Inr q, d')"
  shows "q = \<lparr>quo_tenant_id = tid, max_instances = n, max_cpu = c, max_memory_mib = m,
      max_disk_gib = g, quo_updated_at = now\<rparr>" "quota_at d' = (quota_at d)(tid \<mapsto> q)"
    "\<exists>f. d' = tenant_quotas_update f d"
proof -
  let ?q = "\<lparr>quo_tenant_id = tid, max_instances = n, max_cpu = c, max_memory_mib = m,
      max_disk_gib = g, quo_updated_at = now\<rparr>"
  have "q = ?q \<and> quota_at d' = (quota_at d)(tid \<mapsto> q) \<and> (\<exists>f. d' = tenant_quotas_update f d)"
  proof (cases "quota_at d tid")
    case None
    then have "q = ?q" "d' = tenant_quotas_update (\<lambda>qs. qs @ [?q]) d"
      using assms by (auto simp: quota_upsert_def Let_def bindM_run bindM_sql_run find_key quota_at_def
          split: if_splits option.splits)
    with None show ?thesis
      by (auto simp: quota_at_def row_of_append fun_eq_iff split: option.splits)
  next
    case (Some r)
    have upd: "row_of quo_tenant_id k (update_where (\<lambda>r. quo_tenant_id r = tid) (\<lambda>_. ?q) qs) =
        (if k = tid then map_option (\<lambda>_. ?q) (row_of quo_tenant_id k qs) else row_of quo_tenant_id k qs)"
      for k qs by (induction qs) auto
    from Some assms have "sql_update_one tenant_quotas tenant_quotas_update (\<lambda>r. quo_tenant_id r = tid)
        (\<lambda>_. ?q) id (IntegrityError ''tenant_quotas_pkey'') d = (Inr q, d')"
      by (auto simp: quota_upsert_def Let_def bindM_run bindM_sql_run find_key quota_at_def split: if_splits)
    then have "q = ?q" "d' = tenant_quotas_update (update_where (\<lambda>r. quo_tenant_id r = tid) (\<lambda>_. ?q)) d"
      using Some by (auto simp: quo_t.update_one_run quota_at_def split: option.splits)
    with Some upd show ?thesis by (auto simp: quota_at_def fun_eq_iff)
  qed
  then show "q = ?q" "quota_at d' = (quota_at d)(tid \<mapsto> q)" "\<exists>f. d' = tenant_quotas_update f d" by blast+
qed

lemma set_tenant_sel [simp]:
  "ten_id (set_tenant now name active t) = ten_id t" "ten_key (set_tenant now name active t) = ten_key t"
  "ten_is_active (set_tenant now name active t) = (case active of Some b \<Rightarrow> b | None \<Rightarrow> ten_is_active t)"
  by (simp_all add: set_tenant_def)

lemma tenant_update_run:
  "tenant_update now tid name active d =
     (case tenant_at d tid of
        None \<Rightarrow> (Inl (tenant_missing tid), d)
      | Some t \<Rightarrow> (Inr (set_tenant now name active t),
          tenants_update (update_where (\<lambda>t. ten_id t = tid) (set_tenant now name active)) d))"
  by (simp add: tenant_update_def ten_t.update_one_run tenant_at_def split: option.splits)

end
