(* ===== verification/Access_Control.thy ===== *)
theory Access_Control
  imports Tenant_Repo Task_Repo
begin

text \<open>
  \<^verbatim>\<open>application/services/access_control.py\<close>: which tenant a user may see and act for.
  An administrator has no tenant and may name any; everybody else is confined to his own.
\<close>

definition resolve_tenant_scope_for_list :: "user \<Rightarrow> uuid option \<Rightarrow> error + uuid option" where
  "resolve_tenant_scope_for_list u requested =
     (if usr_role u = admin then Inr requested
      else case usr_tenant_id u of
        None \<Rightarrow> Inl (ForbiddenError ''tenant scope required'')
      | Some own \<Rightarrow>
          if requested \<noteq> None \<and> requested \<noteq> Some own then Inl (TenantNotFoundError ''tenant not found'')
          else Inr (Some own))"

definition resolve_tenant_for_create :: "user \<Rightarrow> uuid option \<Rightarrow> error + uuid" where
  "resolve_tenant_for_create u requested =
     (if usr_role u = admin then
        (case requested of
           None \<Rightarrow> Inl (ValidationError ''tenant_id is required for admin'')
         | Some t \<Rightarrow> Inr t)
      else case usr_tenant_id u of
        None \<Rightarrow> Inl (ForbiddenError ''tenant scope required'')
      | Some own \<Rightarrow>
          if requested \<noteq> None \<and> requested \<noteq> Some own then Inl (TenantNotFoundError ''tenant not found'')
          else Inr own)"

definition ensure_instance_access :: "user \<Rightarrow> uuid \<Rightarrow> error + unit" where
  "ensure_instance_access u tid =
     (if usr_role u \<noteq> admin \<and> usr_tenant_id u \<noteq> Some tid
      then Inl (InstanceNotFoundError ''instance not found'') else Inr ())"

definition ensure_task_access :: "user \<Rightarrow> uuid \<Rightarrow> error + unit" where
  "ensure_task_access u tid =
     (if usr_role u \<noteq> admin \<and> usr_tenant_id u \<noteq> Some tid
      then Inl (TaskNotFoundError ''task not found'') else Inr ())"

definition ensure_mutation_allowed_for_user_tenant :: "user \<Rightarrow> unit db_act" where
  "ensure_mutation_allowed_for_user_tenant u =
     (if usr_role u = admin then returnM ()
      else case usr_tenant_id u of
        None \<Rightarrow> raiseM (ForbiddenError ''tenant scope required'')
      | Some own \<Rightarrow>
          bindM (tenant_is_active own) (\<lambda>active.
          if active = None \<or> active = Some False then raiseM (TenantInactiveError ''tenant is inactive'')
          else returnM ()))"

definition get_task_tenant_id_or_raise :: "uuid \<Rightarrow> uuid db_act" where
  "get_task_tenant_id_or_raise tid =
     bindM (task_get_tenant_id tid) (\<lambda>t.
     case t of
       None \<Rightarrow> raiseM (TaskNotFoundError ''task not found'')
     | Some x \<Rightarrow> returnM x)"

section \<open>What the checks grant\<close>

text \<open>The specification: a user may touch what belongs to a tenant.\<close>

definition may_touch :: "user \<Rightarrow> uuid \<Rightarrow> bool" where
  "may_touch u tid \<longleftrightarrow> usr_role u = admin \<or> usr_tenant_id u = Some tid"

definition tenant_may_act :: "db \<Rightarrow> user \<Rightarrow> bool" where
  "tenant_may_act d u \<longleftrightarrow> usr_role u = admin \<or>
     (\<exists>own t. usr_tenant_id u = Some own \<and> tenant_at d own = Some t \<and> ten_is_active t)"

lemma instance_access_iff [simp]: "ensure_instance_access u tid = Inr v \<longleftrightarrow> may_touch u tid"
  by (auto simp: ensure_instance_access_def may_touch_def)

lemma task_access_iff [simp]: "ensure_task_access u tid = Inr v \<longleftrightarrow> may_touch u tid"
  by (auto simp: ensure_task_access_def may_touch_def)

lemma create_scope: "resolve_tenant_for_create u req = Inr tid \<Longrightarrow> may_touch u tid \<and> (req = None \<or> req = Some tid)"
  by (auto simp: resolve_tenant_for_create_def may_touch_def split: if_splits option.splits)

lemma list_scope:
  assumes "resolve_tenant_scope_for_list u req = Inr scope"
  shows "scope = None \<Longrightarrow> usr_role u = admin" "scope = Some tid \<Longrightarrow> may_touch u tid"
proof -
  show "usr_role u = admin" if "scope = None"
    using assms that by (simp add: resolve_tenant_scope_for_list_def split: if_splits option.splits)
  show "may_touch u tid" if "scope = Some tid"
    using assms that
    by (simp add: resolve_tenant_scope_for_list_def may_touch_def split: if_splits option.splits)
qed

lemma mutation_allowed_run:
  "ensure_mutation_allowed_for_user_tenant u d = (r, d') \<Longrightarrow> d' = d \<and> (r = Inr () \<longleftrightarrow> tenant_may_act d u)"
  by (auto simp: ensure_mutation_allowed_for_user_tenant_def bindM_tenant_is_active tenant_may_act_def
      split: if_splits option.splits)

lemma task_tenant_readonly: "get_task_tenant_id_or_raise tid d = (r, d') \<Longrightarrow> d' = d"
  by (auto simp: get_task_tenant_id_or_raise_def task_get_tenant_id_def bindM_run split: option.splits)

end
