(* ===== verification/Security.thy ===== *)
theory Security
  imports "HOL-Library.Sublist" Domain Uuid_Text
begin

text \<open>
  \<^verbatim>\<open>security.py\<close>: password hashes and signed tokens.

  PBKDF2 and SHA-256 come from OpenSSL and are arguments (\<open>kdf\<close>, \<open>sha256\<close>); so is PyJWT
  (\<open>jwt_encode\<close>, \<open>jwt_decode\<close>), with \<open>jwt_reads_back\<close> as what it promises of the tokens of this code.  Base64, the text
  form of a hash and its parser are modelled.  A character is a code point below 256.
\<close>

type_synonym bytes = "8 word list"

section \<open>Base64\<close>

definition b64_alphabet :: string where
  "b64_alphabet = ''ABCDEFGHIJKLMNOPQRSTUVWXYZabcdefghijklmnopqrstuvwxyz0123456789+/''"

definition b64_char :: "nat \<Rightarrow> char" where
  "b64_char n = b64_alphabet ! n"

definition b64_val :: "char \<Rightarrow> nat option" where
  "b64_val c = (let n = of_char c :: nat in
     if 65 \<le> n \<and> n \<le> 90 then Some (n - 65)
     else if 97 \<le> n \<and> n \<le> 122 then Some (n - 71)
     else if 48 \<le> n \<and> n \<le> 57 then Some (n + 4)
     else if n = 43 then Some 62 else if n = 47 then Some 63 else None)"

definition b64_pad :: char where
  "b64_pad = CHR ''=''"

fun b64encode :: "bytes \<Rightarrow> string" where
  "b64encode [] = []"
| "b64encode [a] =
     (let x = unat a in [b64_char (x div 4), b64_char ((x mod 4) * 16), b64_pad, b64_pad])"
| "b64encode [a, b] =
     (let x = unat a; y = unat b in
      [b64_char (x div 4), b64_char ((x mod 4) * 16 + y div 16), b64_char ((y mod 16) * 4), b64_pad])"
| "b64encode (a # b # c # bs) =
     (let x = unat a; y = unat b; z = unat c in
      b64_char (x div 4) # b64_char ((x mod 4) * 16 + y div 16) #
      b64_char ((y mod 16) * 4 + z div 64) # b64_char (z mod 64) # b64encode bs)"

text \<open>
  The lenient decoder of \<^verbatim>\<open>binascii\<close>: characters outside the alphabet are skipped, padding
  that completes a group ends the input, and the input may only end on a whole group.
\<close>

fun a2b_base64 :: "nat \<Rightarrow> nat \<Rightarrow> nat \<Rightarrow> string \<Rightarrow> error + bytes" where
  "a2b_base64 quad pads left [] = (if quad = 0 then Inr [] else Inl (ValueError ''Incorrect padding''))"
| "a2b_base64 quad pads left (c # cs) =
     (if c = b64_pad then
        (if 2 \<le> quad then (if 4 \<le> quad + (pads + 1) then Inr [] else a2b_base64 quad (pads + 1) left cs)
         else a2b_base64 quad pads left cs)
      else case b64_val c of
        None \<Rightarrow> a2b_base64 quad pads left cs
      | Some v \<Rightarrow>
          (let emit = (\<lambda>b q l. case a2b_base64 q 0 l cs of
                 Inl e \<Rightarrow> Inl e | Inr bs \<Rightarrow> Inr (of_nat b # bs)) in
           if quad = 0 then a2b_base64 1 0 v cs
           else if quad = 1 then emit (left * 4 + v div 16) 2 (v mod 16)
           else if quad = 2 then emit (left * 16 + v div 4) 3 (v mod 4)
           else emit (left * 64 + v) 0 0))"

definition b64decode :: "string \<Rightarrow> error + bytes" where
  "b64decode s = a2b_base64 0 0 0 s"

section \<open>Passwords\<close>

definition ascii_ok :: "string \<Rightarrow> bool" where
  "ascii_ok s \<longleftrightarrow> (\<forall>c \<in> set s. (of_char c :: nat) < 128)"

definition utf8 :: "string \<Rightarrow> bytes" where
  "utf8 s = concat (map (\<lambda>c. let n = of_char c :: nat in
     if n < 128 then [of_nat n] else [of_nat (192 + n div 64), of_nat (128 + n mod 64)]) s)"

fun split_max :: "nat \<Rightarrow> char \<Rightarrow> string \<Rightarrow> string list" where
  "split_max 0 sep s = [s]"
| "split_max (Suc k) sep s =
     (if sep \<in> set s
      then takeWhile (\<lambda>c. c \<noteq> sep) s # split_max k sep (tl (dropWhile (\<lambda>c. c \<noteq> sep) s))
      else [s])"

fun nat_str :: "nat \<Rightarrow> string" where
  "nat_str n = (if n < 10 then [dec_digit (int n)] else nat_str (n div 10) @ [dec_digit (int (n mod 10))])"

declare nat_str.simps [simp del]

definition int_str :: "int \<Rightarrow> string" where
  "int_str n = (if n < 0 then ''-'' @ nat_str (nat (- n)) else nat_str (nat n))"

type_synonym kdf = "bytes \<Rightarrow> bytes \<Rightarrow> int \<Rightarrow> bytes"

definition pbkdf2_hmac :: "kdf \<Rightarrow> bytes \<Rightarrow> bytes \<Rightarrow> int \<Rightarrow> error + bytes" where
  "pbkdf2_hmac kdf password salt iterations =
     (if iterations < 1 then Inl (ValueError ''iteration value must be greater than 0.'')
      else Inr (kdf password salt iterations))"

definition default_iterations :: int where
  "default_iterations = 390000"

definition hash_password :: "kdf \<Rightarrow> bytes \<Rightarrow> int \<Rightarrow> string \<Rightarrow> error + string" where
  "hash_password kdf salt iterations password =
     (case pbkdf2_hmac kdf (utf8 password) salt iterations of
        Inl e \<Rightarrow> Inl e
      | Inr digest \<Rightarrow> Inr (''pbkdf2_sha256$'' @ int_str iterations @ ''$'' @ b64encode salt @ ''$'' @
          b64encode digest))"

text \<open>What the \<^verbatim>\<open>try\<close> block reads; a \<^verbatim>\<open>ValueError\<close> in it, like another scheme, is \<open>None\<close>.\<close>

definition parse_hash :: "string \<Rightarrow> (int \<times> bytes \<times> bytes) option" where
  "parse_hash encoded =
     (case split_max 3 (CHR ''$'') encoded of
        [scheme, iterations_text, salt_text, digest_text] \<Rightarrow>
          (if scheme \<noteq> ''pbkdf2_sha256'' then None
           else case py_int_of_string iterations_text of
             None \<Rightarrow> None
           | Some iterations \<Rightarrow>
               (if \<not> ascii_ok salt_text then None
                else case b64decode salt_text of
                  Inl _ \<Rightarrow> None
                | Inr salt \<Rightarrow>
                    (if \<not> ascii_ok digest_text then None
                     else case b64decode digest_text of
                       Inl _ \<Rightarrow> None
                     | Inr digest \<Rightarrow> Some (iterations, salt, digest))))
      | _ \<Rightarrow> None)"

definition verify_password :: "kdf \<Rightarrow> string \<Rightarrow> string \<Rightarrow> error + bool" where
  "verify_password kdf password encoded_hash =
     (case parse_hash encoded_hash of
        None \<Rightarrow> Inr False
      | Some (iterations, salt, expected_digest) \<Rightarrow>
          (case pbkdf2_hmac kdf (utf8 password) salt iterations of
             Inl e \<Rightarrow> Inl e
           | Inr candidate \<Rightarrow> Inr (candidate = expected_digest)))"

section \<open>Tokens\<close>

datatype claim = Value json | Moment timestamp

type_synonym claims = "(string \<times> claim) list"

record jwt_lib =
  jwt_encode :: "claims \<Rightarrow> string \<Rightarrow> string \<Rightarrow> string"
  jwt_decode :: "timestamp \<Rightarrow> string \<Rightarrow> string \<Rightarrow> string list \<Rightarrow> dict option"

definition create_access_token ::
  "jwt_lib \<Rightarrow> uuid \<Rightarrow> string \<Rightarrow> string \<Rightarrow> string \<Rightarrow> string \<Rightarrow> int \<Rightarrow> timestamp \<Rightarrow> string \<times> timestamp" where
  "create_access_token jwt user_id username role secret algorithm expire_minutes issued_at =
     (let expires_at = issued_at + seconds (60 * expire_minutes) in
      (jwt_encode jwt [(''sub'', Value (JStr (uuid_str user_id))), (''username'', Value (JStr username)),
         (''role'', Value (JStr role)), (''type'', Value (JStr ''access'')),
         (''iat'', Moment issued_at), (''exp'', Moment expires_at)] secret algorithm,
       expires_at))"

definition create_refresh_token ::
  "jwt_lib \<Rightarrow> uuid \<Rightarrow> uuid \<Rightarrow> string \<Rightarrow> string \<Rightarrow> string \<Rightarrow> string \<Rightarrow> int \<Rightarrow> timestamp \<Rightarrow> string \<times> timestamp" where
  "create_refresh_token jwt jti user_id username role secret algorithm expire_days issued_at =
     (let expires_at = issued_at + seconds (86400 * expire_days) in
      (jwt_encode jwt [(''sub'', Value (JStr (uuid_str user_id))), (''username'', Value (JStr username)),
         (''role'', Value (JStr role)), (''type'', Value (JStr ''refresh'')), (''jti'', Value (JStr (uuid_str jti))),
         (''iat'', Moment issued_at), (''exp'', Moment expires_at)] secret algorithm,
       expires_at))"

definition decode_access_token :: "jwt_lib \<Rightarrow> timestamp \<Rightarrow> string \<Rightarrow> string \<Rightarrow> string list \<Rightarrow> error + dict" where
  "decode_access_token jwt now token secret algorithms =
     (case jwt_decode jwt now token secret algorithms of
        None \<Rightarrow> Inl (InvalidTokenError ''invalid access token'')
      | Some payload \<Rightarrow>
          (if dget payload ''type'' \<noteq> JStr ''access'' then Inl (InvalidTokenError ''invalid token type'')
           else Inr payload))"

definition decode_refresh_token :: "jwt_lib \<Rightarrow> timestamp \<Rightarrow> string \<Rightarrow> string \<Rightarrow> string list \<Rightarrow> error + dict" where
  "decode_refresh_token jwt now token secret algorithms =
     (case jwt_decode jwt now token secret algorithms of
        None \<Rightarrow> Inl (InvalidTokenError ''invalid refresh token'')
      | Some payload \<Rightarrow>
          (if dget payload ''type'' \<noteq> JStr ''refresh'' then Inl (InvalidTokenError ''invalid token type'')
           else if \<not> truthy (dget payload ''jti'') then Inl (InvalidTokenError ''invalid refresh token'')
           else Inr payload))"

definition hash_token :: "(bytes \<Rightarrow> bytes) \<Rightarrow> string \<Rightarrow> string" where
  "hash_token sha256 token = concat (map (\<lambda>b. [hex_digit (unat b div 16), hex_digit (unat b mod 16)]) (sha256 (utf8 token)))"

section \<open>Base64 reads back\<close>

lemma b64_table: "list_all (\<lambda>n. b64_val (b64_char n) = Some n \<and> b64_char n \<noteq> b64_pad \<and>
    (of_char (b64_char n) :: nat) < 128 \<and> b64_char n \<noteq> CHR ''$'') [0..<64]"
  by (simp add: b64_char_def b64_alphabet_def b64_val_def b64_pad_def upt_rec_numeral upt_conv_Cons)

lemma b64_char_val [simp]:
  assumes "n < 64"
  shows "b64_val (b64_char n) = Some n" "b64_char n \<noteq> b64_pad" "(of_char (b64_char n) :: nat) < 128"
    "b64_char n \<noteq> CHR ''$''"
proof -
  have "n \<in> set [0..<64]" using assms unfolding set_upt by simp
  then show "b64_val (b64_char n) = Some n" "b64_char n \<noteq> b64_pad" "(of_char (b64_char n) :: nat) < 128"
    "b64_char n \<noteq> CHR ''$''"
    using b64_table unfolding list_all_iff by blast+
qed

lemma a2b_group:
  assumes "v1 < 64" "v2 < 64"
  shows "v3 < 64 \<Longrightarrow> v4 < 64 \<Longrightarrow> a2b_base64 0 p l (b64_char v1 # b64_char v2 # b64_char v3 # b64_char v4 # cs) =
     (case a2b_base64 0 0 0 cs of Inl e \<Rightarrow> Inl e
      | Inr bs \<Rightarrow> Inr (of_nat (v1 * 4 + v2 div 16) # of_nat (v2 mod 16 * 16 + v3 div 4) #
          of_nat (v3 mod 4 * 64 + v4) # bs))"
    "v3 < 64 \<Longrightarrow> a2b_base64 0 p l [b64_char v1, b64_char v2, b64_char v3, b64_pad] =
       Inr [of_nat (v1 * 4 + v2 div 16), of_nat (v2 mod 16 * 16 + v3 div 4)]"
    "a2b_base64 0 p l [b64_char v1, b64_char v2, b64_pad, b64_pad] = Inr [of_nat (v1 * 4 + v2 div 16)]"
  using assms by (simp_all split: sum.splits)

lemma byte_bound [simp]: "unat (a :: 8 word) < 256"
  using unsigned_less [of a] by simp

lemma quad_arith:
  fixes x y z :: nat
  assumes "x < 256" "y < 256" "z < 256"
  shows "x div 4 < 64" "(x mod 4) * 16 + y div 16 < 64" "(y mod 16) * 4 + z div 64 < 64" "z mod 64 < 64"
    "x div 4 * 4 + ((x mod 4) * 16 + y div 16) div 16 = x"
    "((x mod 4) * 16 + y div 16) mod 16 * 16 + ((y mod 16) * 4 + z div 64) div 4 = y"
    "((y mod 16) * 4 + z div 64) mod 4 * 64 + z mod 64 = z"
proof -
  have "y div 16 < 16" "z div 64 < 4" "x div 4 < 64" using assms by linarith+
  moreover have "x mod 4 < 4" "y mod 16 < 16" "z mod 64 < 64" by simp_all
  ultimately show "x div 4 < 64" "(x mod 4) * 16 + y div 16 < 64" "(y mod 16) * 4 + z div 64 < 64" "z mod 64 < 64"
    "x div 4 * 4 + ((x mod 4) * 16 + y div 16) div 16 = x"
    "((x mod 4) * 16 + y div 16) mod 16 * 16 + ((y mod 16) * 4 + z div 64) div 4 = y"
    "((y mod 16) * 4 + z div 64) mod 4 * 64 + z mod 64 = z"
    by (simp_all add: div_mult_mod_eq)
qed

lemma byte_six [simp]:
  "unat (a :: 8 word) div 4 < 64" "(unat a mod 4) * 16 < 64" "(unat a mod 4) * 16 + unat (b :: 8 word) div 16 < 64"
  "(unat a mod 16) * 4 < 64" "(unat a mod 16) * 4 + unat b div 64 < 64" "unat a mod 64 < 64"
  using quad_arith(1,2) [OF byte_bound [of a] byte_bound [of b], of 0]
    quad_arith(3) [OF byte_bound [of a] byte_bound [of a] byte_bound [of b]] by simp_all

lemma b64_reads_back: "b64decode (b64encode bs) = Inr bs"
proof -
  have "a2b_base64 0 p l (b64encode bs) = Inr bs" for p l
  proof (induction bs arbitrary: p l rule: b64encode.induct)
    case (2 a)
    show ?case using quad_arith(1,2,5) [of "unat a" 0 0] by (simp add: Let_def a2b_group del: a2b_base64.simps)
  next
    case (3 a b)
    show ?case using quad_arith [of "unat a" "unat b" 0]
      by (simp add: Let_def a2b_group del: a2b_base64.simps)
  next
    case (4 a b c bs)
    have 1: "a2b_base64 0 p l (b64encode (a # b # c # bs)) =
      (case a2b_base64 0 0 0 (b64encode bs) of Inl e \<Rightarrow> Inl e
      | Inr r \<Rightarrow> Inr (of_nat (unat a) # of_nat (unat b) # of_nat (unat c) # r))"
      unfolding b64encode.simps Let_def
      by (simp only: a2b_group(1) byte_six quad_arith(5-7) [OF byte_bound byte_bound byte_bound])
    have 2: "a2b_base64 0 0 0 (b64encode bs) = Inr bs" by (rule 4) (rule refl)+
    show ?case unfolding 1 2 by simp
  qed simp
  then show ?thesis by (simp add: b64decode_def)
qed

lemma b64_chars: "c \<in> set (b64encode bs) \<Longrightarrow> (of_char c :: nat) < 128 \<and> c \<noteq> CHR ''$''"
  by (induction bs rule: b64encode.induct) (auto simp: Let_def b64_pad_def)

section \<open>Decimal numbers read back\<close>

lemma dec_digit_table: "list_all (\<lambda>n. digit_val (dec_digit n) = Some n \<and> \<not> py_space (dec_digit n) \<and>
    dec_digit n \<noteq> CHR ''-'' \<and> dec_digit n \<noteq> CHR ''+'' \<and> dec_digit n \<noteq> CHR ''$'') [0, 1, 2, 3, 4, 5, 6, 7, 8, 9]"
  by code_simp

lemma dec_digit_facts:
  assumes "0 \<le> n" "n < 10"
  shows "digit_val (dec_digit n) = Some n" "\<not> py_space (dec_digit n)" "dec_digit n \<noteq> CHR ''-''"
    "dec_digit n \<noteq> CHR ''+''" "dec_digit n \<noteq> CHR ''$''"
proof -
  have "n = 0 \<or> n = 1 \<or> n = 2 \<or> n = 3 \<or> n = 4 \<or> n = 5 \<or> n = 6 \<or> n = 7 \<or> n = 8 \<or> n = 9"
    using assms by presburger
  then have "n \<in> set [0, 1, 2, 3, 4, 5, 6, 7, 8, 9]" by simp
  then show "digit_val (dec_digit n) = Some n" "\<not> py_space (dec_digit n)" "dec_digit n \<noteq> CHR ''-''"
    "dec_digit n \<noteq> CHR ''+''" "dec_digit n \<noteq> CHR ''$''"
    using dec_digit_table unfolding list_all_iff by blast+
qed

definition decimal_char :: "char \<Rightarrow> bool" where
  "decimal_char c \<longleftrightarrow> (\<exists>n. 0 \<le> n \<and> n < 10 \<and> c = dec_digit n)"

lemma decimal_char_facts:
  assumes "decimal_char c"
  shows "\<not> py_space c" "c \<noteq> CHR ''-''" "c \<noteq> CHR ''+''" "c \<noteq> CHR ''$''" "\<exists>n. digit_val c = Some n"
  using assms by (auto simp: decimal_char_def dec_digit_facts)

lemma nat_str_chars: "c \<in> set (nat_str n) \<Longrightarrow> decimal_char c"
proof (induction n rule: nat_str.induct)
  case (1 n)
  have "decimal_char (dec_digit (int (n mod 10)))" unfolding decimal_char_def
    by (intro exI [of _ "int (n mod 10)"]) simp
  moreover have "n < 10 \<Longrightarrow> n mod 10 = n" by simp
  ultimately show ?case using 1 by (subst (asm) (2) nat_str.simps) (auto split: if_splits)
qed

lemma nat_str_ne: "nat_str n \<noteq> []"
  by (subst nat_str.simps) simp

lemma digits_val_append:
  assumes "\<forall>c \<in> set xs. decimal_char c" "digits_val acc xs = Some v"
  shows "digits_val acc (xs @ ys) = digits_val v ys"
  using assms
proof (induction xs arbitrary: acc)
  case (Cons c xs)
  then have "decimal_char c" by simp
  then obtain k where "digit_val c = Some k" using decimal_char_facts(5) by blast
  with Cons show ?case by simp
qed simp

lemma digits_val_nat_str: "digits_val 0 (nat_str n) = Some (int n)"
proof (induction n rule: nat_str.induct)
  case (1 n)
  show ?case
  proof (cases "n < 10")
    case True
    then show ?thesis by (subst nat_str.simps) (simp add: dec_digit_facts)
  next
    case False
    have "digits_val 0 (nat_str (n div 10) @ [dec_digit (int (n mod 10))]) =
        digits_val (int (n div 10)) [dec_digit (int (n mod 10))]"
      using 1 False nat_str_chars by (intro digits_val_append) auto
    also have "\<dots> = Some (10 * int (n div 10) + int (n mod 10))" by (simp add: dec_digit_facts)
    also have "10 * int (n div 10) + int (n mod 10) = int n" by presburger
    finally show ?thesis using False by (subst nat_str.simps) simp
  qed
qed

lemma py_strip_id:
  assumes "\<forall>c \<in> set s. \<not> py_space c"
  shows "py_strip s = s"
proof -
  have *: "dropWhile py_space t = t" if "\<forall>c \<in> set t. \<not> py_space c" for t
    using that by (cases t) auto
  show ?thesis using * [of s] * [of "rev s"] assms by (simp add: py_strip_def)
qed

lemma int_str_reads_back: "0 \<le> n \<Longrightarrow> py_int_of_string (int_str n) = Some n"
proof -
  assume n: "0 \<le> n"
  obtain c cs where s: "nat_str (nat n) = c # cs" using nat_str_ne by (cases "nat_str (nat n)") auto
  have c: "decimal_char c" using nat_str_chars [of c "nat n"] s by simp
  then obtain k where k: "digit_val c = Some k" using decimal_char_facts(5) by blast
  have "digits_val 0 (c # cs) = Some n" using digits_val_nat_str [of "nat n"] s n by simp
  then have "unsigned_val (c # cs) = Some n" using k by (simp add: unsigned_val_def)
  moreover have "py_strip (c # cs) = c # cs"
    using nat_str_chars [of _ "nat n"] s decimal_char_facts(1) by (intro py_strip_id) auto
  ultimately show ?thesis
    using s n c decimal_char_facts(2,3) [OF c] by (simp add: py_int_of_string_def int_str_def)
qed

section \<open>Hashes read back\<close>

lemma split_max_sep:
  "sep \<notin> set xs \<Longrightarrow> split_max (Suc k) sep (xs @ sep # ys) = xs # split_max k sep ys"
  by (induction xs) auto

definition hash_text :: "int \<Rightarrow> bytes \<Rightarrow> bytes \<Rightarrow> string" where
  "hash_text iterations salt digest =
     ''pbkdf2_sha256$'' @ int_str iterations @ ''$'' @ b64encode salt @ ''$'' @ b64encode digest"

lemma parse_hash_text:
  assumes "0 \<le> n"
  shows "parse_hash (hash_text n salt digest) = Some (n, salt, digest)"
proof -
  have free: "CHR ''$'' \<notin> set (int_str n)" "CHR ''$'' \<notin> set (b64encode salt)"
    using nat_str_chars [of "CHR ''$''"] decimal_char_facts(4) b64_chars [of "CHR ''$''"] assms
    by (auto simp: int_str_def)
  have "hash_text n salt digest = ''pbkdf2_sha256'' @ CHR ''$'' # int_str n @ CHR ''$'' # b64encode salt @
      CHR ''$'' # b64encode digest"
    by (simp add: hash_text_def)
  then have "split_max 3 (CHR ''$'') (hash_text n salt digest) =
      [''pbkdf2_sha256'', int_str n, b64encode salt, b64encode digest]"
    using free by (simp only: numeral_3_eq_3) (simp add: split_max_sep del: split_max.simps(2) append_Cons; simp)
  moreover have "ascii_ok (b64encode bs)" for bs using b64_chars by (auto simp: ascii_ok_def)
  ultimately show ?thesis
    by (simp add: parse_hash_def int_str_reads_back assms b64_reads_back)
qed

lemma hash_password_text:
  "1 \<le> n \<Longrightarrow> hash_password kdf salt n p = Inr (hash_text n salt (kdf (utf8 p) salt n))"
  by (simp add: hash_password_def pbkdf2_hmac_def hash_text_def)

text \<open>C27: a password checked against a stored hash is accepted exactly when PBKDF2 maps it to
  the digest of the password that was stored, for every salt, iteration count and password: the text
  form of the hash (scheme, count, Base64 salt and digest) loses nothing.\<close>

theorem verify_hashed_password:
  assumes "1 \<le> iterations" "hash_password kdf salt iterations stored = Inr h"
  shows "verify_password kdf tried h =
    Inr (kdf (utf8 tried) salt iterations = kdf (utf8 stored) salt iterations)"
  using assms parse_hash_text [of iterations salt "kdf (utf8 stored) salt iterations"]
  by (simp add: hash_password_text verify_password_def pbkdf2_hmac_def)

theorem verify_hashed_password_witness:
  "verify_password (\<lambda>p s n. p @ s) ''secret'' ''pbkdf2_sha256$2$AQ==$c2VjcmV0AQ=='' = Inr True \<and>
   verify_password (\<lambda>p s n. p @ s) ''Secret'' ''pbkdf2_sha256$2$AQ==$c2VjcmV0AQ=='' = Inr False"
proof -
  have h: "hash_password (\<lambda>p s n. p @ s) [1] 2 ''secret'' = Inr ''pbkdf2_sha256$2$AQ==$c2VjcmV0AQ==''"
    by code_simp
  have "verify_password (\<lambda>p s n. p @ s) t ''pbkdf2_sha256$2$AQ==$c2VjcmV0AQ=='' =
      Inr (utf8 t @ [1] = utf8 ''secret'' @ [1])" for t
    by (rule verify_hashed_password [OF _ h]) simp
  moreover have "utf8 ''Secret'' \<noteq> utf8 ''secret''" by code_simp
  ultimately show ?thesis by (simp only: append_same_eq simp_thms)
qed

section \<open>The contract of PyJWT\<close>

text \<open>
  A token signed with one of the HMAC algorithms is read with the same secret and algorithm
  (PyJWT 2.10.1): its claims come back unless it is issued in the future or has expired, both times
  kept in whole seconds, and then nothing does.  The contract is for the claims this code signs
  (no audience, issuer or not-before claim; strings, but for the two times) and for secrets the library
  takes for HMAC: not empty, and nothing that might pass for a PEM or an SSH key.
\<close>

definition whole_seconds :: "timestamp \<Rightarrow> timestamp" where
  "whole_seconds t = seconds (t div 1000000)"

definition in_force :: "timestamp \<Rightarrow> claims \<Rightarrow> bool" where
  "in_force now cs \<longleftrightarrow>
     (case map_of cs ''iat'' of Some (Moment t) \<Rightarrow> whole_seconds t \<le> now | _ \<Rightarrow> True) \<and>
     (case map_of cs ''exp'' of Some (Moment t) \<Rightarrow> now < whole_seconds t | _ \<Rightarrow> True)"

definition signed_claims :: "claims \<Rightarrow> bool" where
  "signed_claims cs \<longleftrightarrow> distinct (map fst cs) \<and>
     (\<forall>(k, c) \<in> set cs. case c of
        Moment _ \<Rightarrow> k \<in> {''iat'', ''exp''}
      | Value v \<Rightarrow> k \<in> {''sub'', ''username'', ''role'', ''type'', ''jti''} \<and> (\<exists>s. v = JStr s))"

definition hmac_key :: "string \<Rightarrow> string \<Rightarrow> bool" where
  "hmac_key alg secret \<longleftrightarrow> alg \<in> {''HS256'', ''HS384'', ''HS512''} \<and> secret \<noteq> [] \<and>
     (\<forall>mark \<in> {''BEGIN'', ''ssh'', ''ecdsa''}. \<not> sublist mark secret)"

definition jwt_reads_back :: "jwt_lib \<Rightarrow> bool" where
  "jwt_reads_back jwt \<longleftrightarrow>
     (\<forall>now cs secret alg. hmac_key alg secret \<longrightarrow> signed_claims cs \<longrightarrow>
        (if in_force now cs
         then \<exists>d. jwt_decode jwt now (jwt_encode jwt cs secret alg) secret [alg] = Some d \<and>
             (\<forall>k s. map_of cs k = Some (Value (JStr s)) \<longrightarrow> dget d k = JStr s)
         else jwt_decode jwt now (jwt_encode jwt cs secret alg) secret [alg] = None))"

lemma default_hmac_key: "hmac_key ''HS256'' ''dev-change-me''"
  by code_simp

lemma in_force_issued:
  assumes "map_of cs ''iat'' = Some (Moment issued)" "map_of cs ''exp'' = Some (Moment expires)" "issued \<le> now"
  shows "in_force now cs \<longleftrightarrow> now < whole_seconds expires"
proof -
  have "whole_seconds issued \<le> issued" by (simp add: whole_seconds_def seconds_def)
  then show ?thesis using assms by (simp add: in_force_def)
qed

lemma decode_access_created:
  fixes k n r minutes
  assumes "jwt_reads_back jwt" "hmac_key alg secret" "issued \<le> now"
  defines "token \<equiv> fst (create_access_token jwt k n r secret alg minutes issued)"
  shows "if now < whole_seconds (issued + seconds (60 * minutes))
    then \<exists>d. decode_access_token jwt now token secret [alg] = Inr d \<and> dget d ''sub'' = JStr (uuid_str k)
    else \<exists>e. decode_access_token jwt now token secret [alg] = Inl e"
proof -
  let ?cs = "[(''sub'', Value (JStr (uuid_str k))), (''username'', Value (JStr n)),
         (''role'', Value (JStr r)), (''type'', Value (JStr ''access'')),
         (''iat'', Moment issued), (''exp'', Moment (issued + seconds (60 * minutes)))]"
  have token: "token = jwt_encode jwt ?cs secret alg" by (simp add: token_def create_access_token_def Let_def)
  have "signed_claims ?cs" by (simp add: signed_claims_def)
  note law = assms(1) [unfolded jwt_reads_back_def, rule_format, OF assms(2) this, of now]
  have force: "in_force now ?cs \<longleftrightarrow> now < whole_seconds (issued + seconds (60 * minutes))"
    by (rule in_force_issued [OF _ _ assms(3)]) simp_all
  show ?thesis
  proof (cases "in_force now ?cs")
    case True
    with law obtain d where d: "jwt_decode jwt now token secret [alg] = Some d"
      "\<And>k s. map_of ?cs k = Some (Value (JStr s)) \<Longrightarrow> dget d k = JStr s"
      unfolding token by (auto simp only: if_True)
    from d(2) [of "''sub''"] d(2) [of "''type''"]
    have "dget d ''sub'' = JStr (uuid_str k)" "dget d ''type'' = JStr ''access''" by simp_all
    then show ?thesis using True d(1) unfolding force by (simp add: decode_access_token_def)
  next
    case False
    with law have "jwt_decode jwt now token secret [alg] = None" unfolding token by (simp only: if_False)
    then show ?thesis using False unfolding force by (simp add: decode_access_token_def)
  qed
qed

text \<open>Live or expired, a refresh token is no access token.\<close>

lemma decode_refresh_created:
  assumes "jwt_reads_back jwt" "hmac_key alg secret"
  shows "\<exists>e. decode_access_token jwt now (fst (create_refresh_token jwt jti k n r secret alg days issued)) secret [alg] = Inl e"
proof -
  let ?cs = "[(''sub'', Value (JStr (uuid_str k))), (''username'', Value (JStr n)),
         (''role'', Value (JStr r)), (''type'', Value (JStr ''refresh'')), (''jti'', Value (JStr (uuid_str jti))),
         (''iat'', Moment issued), (''exp'', Moment (issued + seconds (86400 * days)))]"
  let ?token = "jwt_encode jwt ?cs secret alg"
  have "signed_claims ?cs" by (simp add: signed_claims_def)
  note law = assms(1) [unfolded jwt_reads_back_def, rule_format, OF assms(2) this, of now]
  have "jwt_decode jwt now ?token secret [alg] = None \<or>
      (\<exists>d. jwt_decode jwt now ?token secret [alg] = Some d \<and> dget d ''type'' = JStr ''refresh'')"
  proof (cases "in_force now ?cs")
    case True
    with law obtain d where d: "jwt_decode jwt now ?token secret [alg] = Some d"
      "\<And>k s. map_of ?cs k = Some (Value (JStr s)) \<Longrightarrow> dget d k = JStr s"
      by (auto simp only: if_True)
    with d(2) [of "''type''"] show ?thesis by simp
  next
    case False
    with law show ?thesis by (simp only: if_False simp_thms)
  qed
  then show ?thesis by (auto simp: create_refresh_token_def decode_access_token_def Let_def)
qed

end
