(* ===== verification/User_Repo.thy ===== *)
theory User_Repo
  imports Session
begin

text \<open>
  \<^verbatim>\<open>adapters/postgres_repositories/auth.py\<close>: the user and refresh-token repositories,
  one definition per method (the listing is in \<open>Queries\<close>).  PostgreSQL checks a row's CHECK
  constraints before it looks for a conflicting key, and foreign keys last.
\<close>

section \<open>Users\<close>

definition bind_role :: "string \<Rightarrow> error + role" where
  "bind_role s = (case role_of s of
     Some r \<Rightarrow> Inr r | None \<Rightarrow> Inl (StatementError ''not among the defined enum values''))"

definition create_user ::
  "uuid \<Rightarrow> timestamp \<Rightarrow> string \<Rightarrow> string \<Rightarrow> string \<Rightarrow> bool \<Rightarrow> uuid option \<Rightarrow> user db_act" where
  "create_user uid now username password_hash r active tid =
     bindM (liftM (bind_role r)) (\<lambda>rl.
     let u = \<lparr>usr_id = uid, usr_username = username, usr_password_hash = password_hash,
          usr_role = rl, usr_is_active = active, usr_created_at = now, usr_updated_at = now,
          usr_tenant_id = tid\<rparr> in
     bindM (guardM (user_role_check u) (IntegrityError ''users_tenant_role_check'')) (\<lambda>_.
     bindM (sql_scalar users (\<lambda>m. usr_username m = username)) (\<lambda>conflict.
     case conflict of
       Some _ \<Rightarrow> raiseM (ConflictError (''username '' @ username @ '' already exists''))
     | None \<Rightarrow> sql_insert users_update user_violates u)))"

definition user_get_by_id :: "uuid \<Rightarrow> user option db_act" where
  "user_get_by_id uid = sql_scalar users (\<lambda>m. usr_id m = uid)"

definition user_get_by_username :: "string \<Rightarrow> user option db_act" where
  "user_get_by_username n = sql_scalar users (\<lambda>m. usr_username m = n)"

definition ensure_user ::
  "uuid \<Rightarrow> timestamp \<Rightarrow> string \<Rightarrow> string \<Rightarrow> string \<Rightarrow> uuid option \<Rightarrow> user db_act" where
  "ensure_user uid now username password_hash r tid =
     catchM (create_user uid now username password_hash r True tid) (\<lambda>e.
       case e of
         ConflictError _ \<Rightarrow>
           bindM (user_get_by_username username) (\<lambda>existing.
           case existing of
             None \<Rightarrow> raiseM (NotFoundError (''user '' @ username @ '' not found''))
           | Some u \<Rightarrow> returnM u)
       | _ \<Rightarrow> raiseM e)"

text \<open>
  \<^verbatim>\<open>update_user\<close>: a missing argument keeps the column; an administrator loses his
  tenant whatever was passed.
\<close>

definition set_user ::
  "timestamp \<Rightarrow> role option \<Rightarrow> bool option \<Rightarrow> string option \<Rightarrow> uuid option \<Rightarrow> user \<Rightarrow> user" where
  "set_user now r active password_hash tid u =
     (let next_role = (case r of Some x \<Rightarrow> x | None \<Rightarrow> usr_role u) in
      u\<lparr>usr_role := next_role,
        usr_tenant_id := (if next_role = admin then None
                          else case tid of Some t \<Rightarrow> Some t | None \<Rightarrow> usr_tenant_id u),
        usr_is_active := (case active of Some b \<Rightarrow> b | None \<Rightarrow> usr_is_active u),
        usr_password_hash := (case password_hash of Some h \<Rightarrow> h | None \<Rightarrow> usr_password_hash u),
        usr_updated_at := now\<rparr>)"

definition user_update_violates :: "db \<Rightarrow> user \<Rightarrow> error option" where
  "user_update_violates d u = first_violation [
     (user_role_check u, IntegrityError ''users_tenant_role_check''),
     (case usr_tenant_id u of None \<Rightarrow> True | Some t \<Rightarrow> exists_row ten_id t (tenants d),
        IntegrityError ''users_tenant_id_fkey'')]"

definition user_missing :: "uuid \<Rightarrow> error" where
  "user_missing uid = NotFoundError (''user '' @ uuid_str uid @ '' not found'')"

definition update_user ::
  "timestamp \<Rightarrow> uuid \<Rightarrow> string option \<Rightarrow> bool option \<Rightarrow> string option \<Rightarrow> uuid option \<Rightarrow> user db_act" where
  "update_user now uid r active password_hash tid =
     bindM (sql_scalar users (\<lambda>m. usr_id m = uid)) (\<lambda>found.
     case found of
       None \<Rightarrow> raiseM (user_missing uid)
     | Some u0 \<Rightarrow>
       bindM (guardM (r = None \<or> role_of (the r) \<noteq> None) (IntegrityError ''users_role_check'')) (\<lambda>_.
       let f = set_user now (case r of None \<Rightarrow> None | Some s \<Rightarrow> role_of s) active password_hash tid in
       bindM (getsM (\<lambda>d. user_update_violates d (f u0))) (\<lambda>bad.
       case bad of
         Some e \<Rightarrow> raiseM e
       | None \<Rightarrow> sql_update_one users users_update (\<lambda>m. usr_id m = uid) f id
           (user_missing uid))))"

definition active_admin :: "user \<Rightarrow> bool" where
  "active_admin u \<longleftrightarrow> usr_role u = admin \<and> usr_is_active u"

definition count_active_admins :: "int db_act" where
  "count_active_admins = getsM (\<lambda>d. int (length (filter active_admin (users d))))"

section \<open>Refresh tokens\<close>

definition refresh_token_create :: "uuid \<Rightarrow> timestamp \<Rightarrow> uuid \<Rightarrow> string \<Rightarrow> timestamp \<Rightarrow> refresh_token db_act" where
  "refresh_token_create rid now uid h expires =
     sql_insert refresh_tokens_update refresh_token_violates
       \<lparr>rt_id = rid, rt_user_id = uid, rt_token_hash = h, rt_expires_at = expires, rt_revoked_at = None,
        rt_created_at = now, rt_updated_at = now\<rparr>"

definition token_active :: "timestamp \<Rightarrow> refresh_token \<Rightarrow> bool" where
  "token_active now t \<longleftrightarrow> rt_revoked_at t = None \<and> rt_expires_at t > now"

definition get_active_by_hash :: "timestamp \<Rightarrow> string \<Rightarrow> refresh_token option db_act" where
  "get_active_by_hash now h = sql_scalar refresh_tokens (\<lambda>t. rt_token_hash t = h \<and> token_active now t)"

definition revoked_row :: "timestamp \<Rightarrow> refresh_token \<Rightarrow> refresh_token" where
  "revoked_row now t =
     t\<lparr>rt_revoked_at := (case rt_revoked_at t of Some x \<Rightarrow> Some x | None \<Rightarrow> Some now), rt_updated_at := now\<rparr>"

definition revoke_by_hash :: "timestamp \<Rightarrow> string \<Rightarrow> refresh_token option db_act" where
  "revoke_by_hash now h =
     bindM (sql_update refresh_tokens refresh_tokens_update (\<lambda>t. rt_token_hash t = h) (revoked_row now))
       (\<lambda>rs. returnM (case rs of [] \<Rightarrow> None | t # _ \<Rightarrow> Some t))"

definition revoke_all_for_user :: "timestamp \<Rightarrow> uuid \<Rightarrow> int db_act" where
  "revoke_all_for_user now uid =
     bindM (sql_update refresh_tokens refresh_tokens_update
              (\<lambda>t. rt_user_id t = uid \<and> rt_revoked_at t = None) (revoked_row now))
       (\<lambda>rs. returnM (int (length rs)))"

section \<open>The user table\<close>

text \<open>Keys are unique, names are unique, roles and tenants agree.\<close>

definition users_ok :: "db \<Rightarrow> bool" where
  "users_ok d \<longleftrightarrow> distinct (map usr_id (users d)) \<and> distinct (map usr_username (users d)) \<and>
     (\<forall>u \<in> set (users d). user_role_check u)"

definition user_at :: "db \<Rightarrow> uuid \<Rightarrow> user option" where
  "user_at d k = row_of usr_id k (users d)"

lemma user_at_get [act_simps]: "user_get_by_id k d = (Inr (user_at d k), d)"
  by (simp add: user_get_by_id_def sql_run find_key user_at_def)

lemma bindM_user_get [act_simps]: "bindM (user_get_by_id k) f d = f (user_at d k) d"
  by (simp add: bindM_def user_at_get)

lemma bindM_username_get [act_simps]:
  "bindM (user_get_by_username n) f d = f (row_of usr_username n (users d)) d"
  by (simp add: user_get_by_username_def bindM_sql_run find_key)

lemma set_user_keys [simp]:
  "usr_id (set_user now r a h t u) = usr_id u"
  "usr_username (set_user now r a h t u) = usr_username u"
  by (simp_all add: set_user_def Let_def)

lemma user_violates_None:
  "user_violates d u = None \<longleftrightarrow> user_role_check u \<and> row_of usr_id (usr_id u) (users d) = None \<and>
     row_of usr_username (usr_username u) (users d) = None \<and>
     (\<forall>t. usr_tenant_id u = Some t \<longrightarrow> exists_row ten_id t (tenants d))"
  by (auto simp: user_violates_def exists_row_def split: option.splits)

lemma create_user_ok:
  assumes "create_user uid now n h r act tid d = (Inr u, d')"
  shows "bind_role r = Inr (usr_role u) \<and> usr_id u = uid \<and> usr_username u = n \<and> usr_password_hash u = h \<and>
    usr_is_active u = act \<and> usr_tenant_id u = tid \<and> user_violates d u = None \<and>
    d' = users_update (\<lambda>us. us @ [u]) d"
  using assms by (auto simp: create_user_def sql_insert_def Let_def sql_run split: option.splits if_splits)

lemma create_user_fail: "create_user uid now n h r act tid d = (Inl e, d') \<Longrightarrow> d' = d"
  by (auto simp: create_user_def sql_insert_def Let_def sql_run bindM_Inl_iff split: option.splits if_splits)

lemma update_user_ok:
  assumes "update_user now uid r act h tid d = (Inr u', d')"
  obtains u rl where "user_at d uid = Some u" "(case r of None \<Rightarrow> rl = None | Some s \<Rightarrow> rl = role_of s \<and> rl \<noteq> None)"
    "u' = set_user now rl act h tid u" "user_update_violates d u' = None"
    "d' = users_update (update_where (\<lambda>m. usr_id m = uid) (set_user now rl act h tid)) d"
proof -
  let ?rl = "case r of None \<Rightarrow> None | Some s \<Rightarrow> role_of s"
  obtain u where u: "user_at d uid = Some u"
    using assms by (auto simp: update_user_def bindM_sql_run find_key user_at_def split: option.splits)
  have ok: "r = None \<or> role_of (the r) \<noteq> None"
    using assms u by (auto simp: update_user_def bindM_sql_run find_key user_at_def bindM_run split: if_splits)
  have run: "(case user_update_violates d (set_user now ?rl act h tid u) of
       Some e \<Rightarrow> raiseM e
     | None \<Rightarrow> sql_update_one users users_update (\<lambda>m. usr_id m = uid) (set_user now ?rl act h tid) id
           (user_missing uid)) d = (Inr u', d')"
    using assms u ok by (simp add: update_user_def bindM_sql_run find_key user_at_def bindM_run Let_def)
  then have v: "user_update_violates d (set_user now ?rl act h tid u) = None"
    by (cases "user_update_violates d (set_user now ?rl act h tid u)") simp_all
  with run u have "u' = set_user now ?rl act h tid u"
      "d' = users_update (update_where (\<lambda>m. usr_id m = uid) (set_user now ?rl act h tid)) d"
    by (simp_all add: usr_t.update_one_run user_at_def)
  with u v ok show ?thesis by (intro that [of u ?rl]) (auto split: option.splits)
qed

lemma update_user_fail: "update_user now uid r act h tid d = (Inl e, d') \<Longrightarrow> d' = d"
  by (auto simp: update_user_def bindM_sql_run find_key bindM_run Let_def usr_t.update_one_run
      split: option.splits if_splits)

lemma keeps_users_create [keeps_intros]: "keeps users_ok (create_user uid now n h r act tid)"
proof (rule keepsI)
  fix d res d' assume ok: "users_ok d" and run: "create_user uid now n h r act tid d = (res, d')"
  show "users_ok d'"
  proof (cases res)
    case (Inl e)
    then show ?thesis using ok create_user_fail run by blast
  next
    case (Inr u)
    from create_user_ok [OF run [unfolded Inr]] ok show ?thesis
      by (auto simp: users_ok_def user_violates_None row_of_None_iff)
  qed
qed

lemma keeps_users_update [keeps_intros]: "keeps users_ok (update_user now uid r act h tid)"
proof (rule keepsI)
  fix d res d' assume ok: "users_ok d" and run: "update_user now uid r act h tid d = (res, d')"
  show "users_ok d'"
  proof (cases res)
    case (Inl e)
    then show ?thesis using ok update_user_fail run by blast
  next
    case (Inr u')
    from run [unfolded Inr] show ?thesis
    proof (rule update_user_ok)
      fix u rl assume u: "user_at d uid = Some u" "u' = set_user now rl act h tid u"
        "user_update_violates d u' = None"
        and d': "d' = users_update (update_where (\<lambda>m. usr_id m = uid) (set_user now rl act h tid)) d"
      have only: "m = u" if "m \<in> set (users d)" "usr_id m = uid" for m
        using that row_of_unique [of usr_id "users d" m] ok u(1) by (simp add: users_ok_def user_at_def)
      have "user_role_check u'" using u(3) by (simp add: user_update_violates_def split: if_splits)
      then have "\<forall>m \<in> set (users d'). user_role_check m"
        using ok only u(2) d' by (auto simp: users_ok_def set_update_where)
      then show ?thesis using ok d' by (simp add: users_ok_def map_update_where_key)
    qed
  qed
qed

lemma keeps_tokens [keeps_intros]:
  "(\<And>d f. P (refresh_tokens_update f d) = P d) \<Longrightarrow> keeps P (refresh_token_create rid now uid h x)"
  "(\<And>d f. P (refresh_tokens_update f d) = P d) \<Longrightarrow> keeps P (revoke_by_hash now h)"
  "(\<And>d f. P (refresh_tokens_update f d) = P d) \<Longrightarrow> keeps P (revoke_all_for_user now uid)"
  by (auto simp: keeps_def refresh_token_create_def sql_insert_def revoke_by_hash_def
      revoke_all_for_user_def bindM_sql_run split: option.splits)

lemma users_ok_frame [simp]: "users_ok (refresh_tokens_update f d) = users_ok d"
  "users_ok (audit_logs_update g d) = users_ok d"
  by (simp_all add: users_ok_def)

section \<open>The token table\<close>

definition tokens_ok :: "db \<Rightarrow> bool" where
  "tokens_ok d \<longleftrightarrow> distinct (map rt_token_hash (refresh_tokens d))"

definition token_at :: "db \<Rightarrow> string \<Rightarrow> refresh_token option" where
  "token_at d h = row_of rt_token_hash h (refresh_tokens d)"

lemma revoked_row_sel [simp]:
  "rt_token_hash (revoked_row now t) = rt_token_hash t" "rt_user_id (revoked_row now t) = rt_user_id t"
  "rt_id (revoked_row now t) = rt_id t" "\<not> token_active now' (revoked_row now t)"
  by (auto simp: revoked_row_def token_active_def split: option.splits)

lemma get_active_run:
  assumes "tokens_ok d"
  shows "get_active_by_hash now h d =
    (Inr (case token_at d h of None \<Rightarrow> None | Some t \<Rightarrow> if token_active now t then Some t else None), d)"
proof -
  have "find (\<lambda>t. rt_token_hash t = h \<and> token_active now t) ts =
      (case row_of rt_token_hash h ts of None \<Rightarrow> None | Some t \<Rightarrow> if token_active now t then Some t else None)"
    if "distinct (map rt_token_hash ts)" for ts
    using that
    by (induction ts) (auto split: option.splits dest!: row_of_SomeD simp: rev_image_eqI find_None_iff)
  then show ?thesis using assms by (simp add: get_active_by_hash_def sql_run tokens_ok_def token_at_def)
qed

lemma token_at_revoke:
  "token_at (refresh_tokens_update (update_where (\<lambda>t. rt_token_hash t = h) (revoked_row now)) d) k =
     (if k = h then map_option (revoked_row now) (token_at d h) else token_at d k)"
  by (simp add: token_at_def row_of_update_where)

lemma tokens_ok_update [simp]:
  "tokens_ok (refresh_tokens_update (update_where p (revoked_row now)) d) = tokens_ok d"
  by (simp add: tokens_ok_def map_update_where_key)

lemma revoke_by_hash_run:
  "\<exists>r. revoke_by_hash now h d =
     (Inr r, refresh_tokens_update (update_where (\<lambda>t. rt_token_hash t = h) (revoked_row now)) d)"
  by (simp add: revoke_by_hash_def bindM_sql_run)

lemma revoke_all_run:
  "\<exists>n. revoke_all_for_user now uid d = (Inr n, refresh_tokens_update
     (update_where (\<lambda>t. rt_user_id t = uid \<and> rt_revoked_at t = None) (revoked_row now)) d)"
  by (simp add: revoke_all_for_user_def bindM_sql_run)

lemma refresh_token_create_ok:
  assumes "refresh_token_create rid now uid h x d = (Inr t, d')"
  shows "token_at d h = None \<and> user_at d uid \<noteq> None \<and> rt_token_hash t = h \<and> rt_user_id t = uid \<and>
    rt_expires_at t = x \<and> rt_revoked_at t = None \<and> d' = refresh_tokens_update (\<lambda>ts. ts @ [t]) d"
  using assms
  by (auto simp: refresh_token_create_def sql_insert_def refresh_token_violates_def exists_row_def
      token_at_def user_at_def split: option.splits if_splits)

lemma refresh_token_create_fail: "refresh_token_create rid now uid h x d = (Inl e, d') \<Longrightarrow> d' = d"
  by (auto simp: refresh_token_create_def sql_insert_def split: option.splits)

end
