(* ===== verification/Audit_Trail.thy ===== *)
theory Audit_Trail
  imports Session Uuid_Text
begin

text \<open>
  The audit trail: \<^verbatim>\<open>services/audit_logger.py\<close> and the insert of
  \<^verbatim>\<open>adapters/postgres_repositories/audit.py\<close>.  What a request says of itself (its
  identifier header, the address of its client, its user agent) is a record; the identifiers drawn
  with \<^verbatim>\<open>uuid4\<close>, the clock and the text of a parsed address
  (\<^verbatim>\<open>str(ipaddress.ip_address(raw))\<close>) are arguments.
\<close>

record http_request =
  hr_request_id :: "string option"
  hr_client_host :: "string option"
  hr_user_agent :: "string option"

record audit_context =
  ctx_request_id :: uuid
  ctx_ip_address :: "string option"
  ctx_user_agent :: "string option"

record audit_env =
  ae_inet :: "string \<Rightarrow> string option"
  ae_now :: timestamp
  ae_ctx :: audit_context
  ae_log_id :: uuid
  ae_next_log_id :: uuid

definition parse_request_id :: "uuid \<Rightarrow> http_request option \<Rightarrow> uuid" where
  "parse_request_id fresh req =
     (case req of
        None \<Rightarrow> fresh
      | Some q \<Rightarrow> (case hr_request_id q of
            None \<Rightarrow> fresh
          | Some raw \<Rightarrow> if raw = [] then fresh
                        else (case uuid_of_string raw of Inr u \<Rightarrow> u | Inl _ \<Rightarrow> fresh)))"

definition parse_ip_address :: "(string \<Rightarrow> string option) \<Rightarrow> http_request option \<Rightarrow> string option" where
  "parse_ip_address ip_text req =
     (case (case req of None \<Rightarrow> None | Some q \<Rightarrow> hr_client_host q) of
        None \<Rightarrow> None
      | Some raw \<Rightarrow> if raw = [] then None else ip_text raw)"

definition audit_context_of ::
  "uuid \<Rightarrow> (string \<Rightarrow> string option) \<Rightarrow> http_request option \<Rightarrow> audit_context" where
  "audit_context_of fresh ip_text req =
     \<lparr>ctx_request_id = parse_request_id fresh req, ctx_ip_address = parse_ip_address ip_text req,
      ctx_user_agent = (case req of None \<Rightarrow> None | Some q \<Rightarrow> hr_user_agent q)\<rparr>"

definition audit_create :: "(string \<Rightarrow> string option) \<Rightarrow> audit_log \<Rightarrow> audit_log db_act" where
  "audit_create inet l =
     bindM (liftM (bind_inet inet (json_opt_str (aud_ip_address l)))) (\<lambda>ip.
     sql_insert audit_logs_update audit_violates (l\<lparr>aud_ip_address := ip\<rparr>))"

definition audit_get :: "uuid \<Rightarrow> audit_log option db_act" where
  "audit_get k = sql_scalar audit_logs (\<lambda>r. aud_id r = k)"

text \<open>\<^verbatim>\<open>AuditLogger.write\<close> with its keyword arguments.\<close>

record audit_entry =
  en_action :: string
  en_target_type :: string
  en_target_id :: "string option"
  en_actor_user :: "user option"
  en_actor_username :: "string option"
  en_tenant_id :: "uuid option"
  en_metadata :: dict

definition entry :: "string \<Rightarrow> string \<Rightarrow> string option \<Rightarrow> audit_entry" where
  "entry action target_type target_id =
     \<lparr>en_action = action, en_target_type = target_type, en_target_id = target_id,
      en_actor_user = None, en_actor_username = None, en_tenant_id = None, en_metadata = []\<rparr>"

definition entry_row :: "audit_env \<Rightarrow> audit_entry \<Rightarrow> audit_log" where
  "entry_row env e =
     \<lparr>aud_id = ae_log_id env,
      aud_actor_user_id = map_option usr_id (en_actor_user e),
      aud_actor_username = (case en_actor_username e of
          Some n \<Rightarrow> if n \<noteq> [] then Some n else map_option usr_username (en_actor_user e)
        | None \<Rightarrow> map_option usr_username (en_actor_user e)),
      aud_action = en_action e, aud_target_type = en_target_type e, aud_target_id = en_target_id e,
      aud_request_id = Some (ctx_request_id (ae_ctx env)), aud_ip_address = ctx_ip_address (ae_ctx env),
      aud_user_agent = ctx_user_agent (ae_ctx env), aud_metadata = en_metadata e,
      aud_created_at = ae_now env,
      aud_tenant_id = (case en_tenant_id e of
          Some t \<Rightarrow> Some t
        | None \<Rightarrow> (case en_actor_user e of None \<Rightarrow> None | Some u \<Rightarrow> usr_tenant_id u))\<rparr>"

definition audit_write :: "audit_env \<Rightarrow> audit_entry \<Rightarrow> unit db_act" where
  "audit_write env e = bindM (audit_create (ae_inet env) (entry_row env e)) (\<lambda>_. returnM ())"

text \<open>The second entry of a request draws another identifier.\<close>

definition next_entry :: "audit_env \<Rightarrow> audit_env" where
  "next_entry env = env\<lparr>ae_log_id := ae_next_log_id env\<rparr>"

section \<open>What an entry does\<close>

definition only_audit :: "db \<Rightarrow> db \<Rightarrow> bool" where
  "only_audit d d' \<longleftrightarrow> (\<exists>f. d' = audit_logs_update f d)"

lemma only_audit_refl [simp]: "only_audit d d"
  unfolding only_audit_def by (rule exI [of _ "\<lambda>ls. ls"]) (cases d; simp)

lemma only_audit_update [simp]: "only_audit d (audit_logs_update f d)"
  unfolding only_audit_def by blast

lemma only_audit_trans: "only_audit d d1 \<Longrightarrow> only_audit d1 d2 \<Longrightarrow> only_audit d d2"
  unfolding only_audit_def by (elim exE, rule_tac x = "\<lambda>ls. fa (f ls)" in exI) (cases d; simp)

lemma only_audit_sel:
  assumes "only_audit d d'"
  shows "tenants d' = tenants d" "tenant_quotas d' = tenant_quotas d" "instances d' = instances d"
    "resource_capacity d' = resource_capacity d" "instance_tasks d' = instance_tasks d"
    "command_outbox d' = command_outbox d" "users d' = users d" "refresh_tokens d' = refresh_tokens d"
  using assms by (auto simp: only_audit_def)

lemma audit_violates_ip [simp]: "audit_violates d (l\<lparr>aud_ip_address := ip\<rparr>) = audit_violates d l"
  by (simp add: audit_violates_def cong: option.case_cong)

lemma audit_create_run:
  "audit_create inet l d = (r, d') \<Longrightarrow> only_audit d d' \<and> (case r of
     Inl _ \<Rightarrow> d' = d
   | Inr _ \<Rightarrow> \<exists>ip. bind_inet inet (json_opt_str (aud_ip_address l)) = Inr ip \<and> audit_violates d l = None \<and>
       d' = audit_logs_update (\<lambda>ls. ls @ [l\<lparr>aud_ip_address := ip\<rparr>]) d)"
  by (auto simp: audit_create_def bindM_run sql_insert_def
      split: sum.splits option.splits)

lemma audit_write_run:
  assumes "audit_write env e d = (r, d')"
  shows "only_audit d d' \<and> (case r of
       Inl _ \<Rightarrow> d' = d
     | Inr _ \<Rightarrow> \<exists>ip. bind_inet (ae_inet env) (json_opt_str (ctx_ip_address (ae_ctx env))) = Inr ip \<and>
         audit_violates d (entry_row env e) = None \<and>
         d' = audit_logs_update (\<lambda>ls. ls @ [(entry_row env e)\<lparr>aud_ip_address := ip\<rparr>]) d)"
proof -
  obtain r0 where r0: "audit_create (ae_inet env) (entry_row env e) d = (r0, d')"
    and r: "r = (case r0 of Inl x \<Rightarrow> Inl x | Inr _ \<Rightarrow> Inr ())"
    using assms by (auto simp: audit_write_def bindM_def split: prod.splits sum.splits)
  have "aud_ip_address (entry_row env e) = ctx_ip_address (ae_ctx env)" by (simp add: entry_row_def)
  with audit_create_run [OF r0] r show ?thesis by (cases r0) simp_all
qed

lemma audit_write_only: "audit_write env e d = (r, d') \<Longrightarrow> only_audit d d'"
  by (drule audit_write_run) simp

lemma keeps_audit [keeps_intros]:
  "(\<And>d d'. only_audit d d' \<Longrightarrow> P d \<Longrightarrow> P d') \<Longrightarrow> keeps P (audit_write env e)"
  by (rule keepsI) (blast dest: audit_write_only)

lemma keeps_audit_frame:
  "(\<And>d f. P (audit_logs_update f d) = P d) \<Longrightarrow> keeps P (audit_write env e)"
  by (rule keeps_audit) (auto simp: only_audit_def)

end
