(* ===== verification/Samples.thy ===== *)
theory Samples
  imports Audit_Trail
begin

text \<open>
  Concrete tables, users and requests on which the witnesses of the properties run: two tenants, an
  administrator, an operator of the second tenant and one refresh token of his.
\<close>

definition sample_tenant :: "uuid \<Rightarrow> string \<Rightarrow> tenant" where
  "sample_tenant k key = \<lparr>ten_id = k, ten_key = key, ten_name = key, ten_is_active = True,
     ten_created_at = 0, ten_updated_at = 0\<rparr>"

definition sample_admin :: user where
  "sample_admin = \<lparr>usr_id = 100, usr_username = ''admin'', usr_password_hash = ''h'', usr_role = admin,
     usr_is_active = True, usr_created_at = 0, usr_updated_at = 0, usr_tenant_id = None\<rparr>"

definition sample_operator :: user where
  "sample_operator = \<lparr>usr_id = 101, usr_username = ''op'', usr_password_hash = ''pbkdf2_sha256$2$AQ==$c2VjcmV0AQ=='', usr_role = operator,
     usr_is_active = True, usr_created_at = 0, usr_updated_at = 0, usr_tenant_id = Some 2\<rparr>"

definition sample_token :: refresh_token where
  "sample_token = \<lparr>rt_id = 300, rt_user_id = 101, rt_token_hash = ''old'', rt_expires_at = 9000,
     rt_revoked_at = None, rt_created_at = 0, rt_updated_at = 0\<rparr>"

definition sample_db :: db where
  "sample_db = empty_db\<lparr>tenants := [sample_tenant 1 ''default'', sample_tenant 2 ''acme''],
     users := [sample_admin]\<rparr>"

definition sample_users_db :: db where
  "sample_users_db = sample_db\<lparr>users := [sample_admin, sample_operator], refresh_tokens := [sample_token]\<rparr>"

definition sample_env :: audit_env where
  "sample_env = \<lparr>ae_inet = Some, ae_now = 5000, ae_ctx = audit_context_of 70 Some None, ae_log_id = 71,
     ae_next_log_id = 72\<rparr>"

definition sample_vm :: "uuid \<Rightarrow> uuid \<Rightarrow> instance_model" where
  "sample_vm k tid = \<lparr>im_id = k, im_tenant_id = tid, im_name = None, im_cpu = 2, im_memory_mib = 2048, im_disk_gib = 20,
     im_status = running, im_ip_address = None, im_host_node = ''node'', im_reserve_resources = True,
     im_last_task_id = None, im_deleted_at = None, im_created_at = 0, im_updated_at = 0\<rparr>"

definition sample_vms_db :: db where
  "sample_vms_db = sample_users_db\<lparr>instances := [sample_vm 21 1, sample_vm 22 2]\<rparr>"

end
