(* ===== verification/Auth_Commands.thy ===== *)
theory Auth_Commands
  imports Security Tenant_Repo User_Repo Samples "HOL-Library.Countable"
begin

text \<open>
  \<^verbatim>\<open>application/commands/auth_commands.py\<close> and the authentication of
  \<^verbatim>\<open>api/dependencies.py\<close>: login, refresh-token rotation, logout, and the user of a bearer token.
  A refused login or refresh commits its audit entry and then raises.
\<close>

record auth_env =
  au_jwt :: jwt_lib
  au_kdf :: kdf
  au_sha256 :: "bytes \<Rightarrow> bytes"
  au_jwt_secret :: string
  au_jwt_algorithm :: string
  au_access_token_expire_minutes :: int
  au_refresh_token_expire_days :: int
  au_jti :: uuid
  au_token_row_id :: uuid

record issued_tokens =
  it_access_token :: string
  it_refresh_token :: string
  it_expires_at :: timestamp

record login_command =
  li_username :: string
  li_password :: string

record refresh_token_command =
  rf_refresh_token :: string

record logout_command =
  lo_refresh_token :: string
  lo_current_user :: user

definition issue_tokens :: "auth_env \<Rightarrow> audit_env \<Rightarrow> user \<Rightarrow> issued_tokens db_act" where
  "issue_tokens ax env u =
     (let (access_token, access_expires_at) =
            create_access_token (au_jwt ax) (usr_id u) (usr_username u) (role_str (usr_role u)) (au_jwt_secret ax)
              (au_jwt_algorithm ax) (au_access_token_expire_minutes ax) (ae_now env);
          (refresh_token, refresh_expires_at) =
            create_refresh_token (au_jwt ax) (au_jti ax) (usr_id u) (usr_username u) (role_str (usr_role u))
              (au_jwt_secret ax) (au_jwt_algorithm ax) (au_refresh_token_expire_days ax) (ae_now env) in
      bindM (refresh_token_create (au_token_row_id ax) (ae_now env) (usr_id u)
               (hash_token (au_sha256 ax) refresh_token) refresh_expires_at) (\<lambda>_.
      returnM \<lparr>it_access_token = access_token, it_refresh_token = refresh_token,
               it_expires_at = access_expires_at\<rparr>))"

definition tenant_inactive :: error where
  "tenant_inactive = AuthCommandError 403 ''tenant is inactive''"

definition ensure_login_allowed :: "user \<Rightarrow> unit db_act" where
  "ensure_login_allowed u =
     (if usr_role u = admin then returnM ()
      else case usr_tenant_id u of
        None \<Rightarrow> raiseM tenant_inactive
      | Some tid \<Rightarrow>
          bindM (tenant_get tid) (\<lambda>t.
          case t of
            None \<Rightarrow> raiseM tenant_inactive
          | Some t \<Rightarrow> guardM (ten_is_active t) tenant_inactive))"

text \<open>The branches that write an audit entry, commit and raise.\<close>

definition reject :: "audit_env \<Rightarrow> audit_entry \<Rightarrow> error \<Rightarrow> 'a sess_act" where
  "reject env e err = bindM (transact (audit_write env e)) (\<lambda>_. raiseM err)"

definition reason :: "string \<Rightarrow> dict" where
  "reason s = [(''reason'', JStr s)]"

definition login_handle :: "auth_env \<Rightarrow> audit_env \<Rightarrow> login_command \<Rightarrow> issued_tokens sess_act" where
  "login_handle ax env cmd =
     bindM (db_op (user_get_by_username (li_username cmd))) (\<lambda>found.
     bindM (liftM (case found of None \<Rightarrow> Inr False
        | Some u \<Rightarrow> verify_password (au_kdf ax) (li_password cmd) (usr_password_hash u))) (\<lambda>valid.
     case (if valid then found else None) of
       None \<Rightarrow> reject env ((entry ''auth.login.failed'' ''user'' (Some (li_username cmd)))
           \<lparr>en_actor_username := Some (li_username cmd), en_metadata := reason ''invalid_credentials''\<rparr>)
           (AuthCommandError 401 ''invalid credentials'')
     | Some u \<Rightarrow>
         if \<not> usr_is_active u then
           reject env ((entry ''auth.login.failed'' ''user'' (Some (uuid_str (usr_id u))))
             \<lparr>en_actor_user := Some u, en_metadata := reason ''inactive_user''\<rparr>)
             (AuthCommandError 403 ''inactive user'')
         else transact (
           bindM (ensure_login_allowed u) (\<lambda>_.
           bindM (issue_tokens ax env u) (\<lambda>tokens.
           bindM (audit_write env ((entry ''auth.login.succeeded'' ''user'' (Some (uuid_str (usr_id u))))
             \<lparr>en_actor_user := Some u\<rparr>)) (\<lambda>_.
           returnM tokens))))))"

text \<open>\<^verbatim>\<open>str(payload.get(key))\<close>; the text of anything but a string is no user's id.\<close>

fun claim_str :: "json \<Rightarrow> string option" where
  "claim_str (JStr s) = Some s"
| "claim_str _ = None"

definition refresh_failed :: "string \<Rightarrow> string option \<Rightarrow> user option \<Rightarrow> string \<Rightarrow> audit_entry" where
  "refresh_failed target_type target_id actor why =
     (entry ''auth.refresh.failed'' target_type target_id)\<lparr>en_actor_user := actor, en_metadata := reason why\<rparr>"

definition invalid_refresh :: error where
  "invalid_refresh = AuthCommandError 401 ''invalid refresh token''"

definition refresh_handle :: "auth_env \<Rightarrow> audit_env \<Rightarrow> refresh_token_command \<Rightarrow> issued_tokens sess_act" where
  "refresh_handle ax env cmd =
     (let token_hash = hash_token (au_sha256 ax) (rf_refresh_token cmd) in
      case decode_refresh_token (au_jwt ax) (ae_now env) (rf_refresh_token cmd) (au_jwt_secret ax)
             [au_jwt_algorithm ax] of
        Inl _ \<Rightarrow> reject env (refresh_failed ''refresh_token'' None None ''invalid_refresh_token'') invalid_refresh
      | Inr payload \<Rightarrow>
          bindM (db_op (get_active_by_hash (ae_now env) token_hash)) (\<lambda>token_row.
          case token_row of
            None \<Rightarrow> reject env (refresh_failed ''refresh_token'' None None ''refresh_token_not_found_or_revoked'')
              invalid_refresh
          | Some t \<Rightarrow>
              bindM (db_op (user_get_by_id (rt_user_id t))) (\<lambda>found.
              case (case found of Some u \<Rightarrow> if usr_is_active u then Some u else None | None \<Rightarrow> None) of
                None \<Rightarrow> reject env (refresh_failed ''user'' (Some (uuid_str (rt_user_id t))) None ''user_not_active'')
                  invalid_refresh
              | Some u \<Rightarrow>
                  bindM (db_op (ensure_login_allowed u)) (\<lambda>_.
                  if Some (uuid_str (usr_id u)) \<noteq> claim_str (dget payload ''sub'') then
                    reject env (refresh_failed ''refresh_token'' None (Some u) ''subject_mismatch'') invalid_refresh
                  else transact (
                    bindM (revoke_by_hash (ae_now env) token_hash) (\<lambda>_.
                    bindM (issue_tokens ax env u) (\<lambda>tokens.
                    bindM (audit_write env ((entry ''auth.refresh.succeeded'' ''user'' (Some (uuid_str (usr_id u))))
                      \<lparr>en_actor_user := Some u\<rparr>)) (\<lambda>_.
                    returnM tokens))))))))"

definition logout_handle :: "auth_env \<Rightarrow> audit_env \<Rightarrow> logout_command \<Rightarrow> unit sess_act" where
  "logout_handle ax env cmd = transact (
     let token_hash = hash_token (au_sha256 ax) (lo_refresh_token cmd);
         uid = usr_id (lo_current_user cmd) in
     bindM (get_active_by_hash (ae_now env) token_hash) (\<lambda>token_row.
     bindM (if (case token_row of Some t \<Rightarrow> rt_user_id t = uid | None \<Rightarrow> False)
            then bindM (revoke_by_hash (ae_now env) token_hash) (\<lambda>_. returnM ())
            else returnM ()) (\<lambda>_.
     audit_write env ((entry ''auth.logout.succeeded'' ''user'' (Some (uuid_str uid)))
       \<lparr>en_actor_user := Some (lo_current_user cmd)\<rparr>))))"

section \<open>Authentication of a request\<close>

definition unauthorized :: error where
  "unauthorized = HTTPException 401 ''invalid credentials''"

definition get_current_user :: "auth_env \<Rightarrow> timestamp \<Rightarrow> string \<Rightarrow> user db_act" where
  "get_current_user ax now token =
     (case decode_access_token (au_jwt ax) now token (au_jwt_secret ax) [au_jwt_algorithm ax] of
        Inl _ \<Rightarrow> raiseM unauthorized
      | Inr payload \<Rightarrow>
          (case claim_str (dget payload ''sub'') of
             None \<Rightarrow> raiseM unauthorized
           | Some s \<Rightarrow>
               (case uuid_of_string s of
                  Inl _ \<Rightarrow> raiseM unauthorized
                | Inr user_id \<Rightarrow>
                    bindM (user_get_by_id user_id) (\<lambda>found.
                    case found of
                      None \<Rightarrow> raiseM unauthorized
                    | Some u \<Rightarrow> if usr_is_active u then returnM u else raiseM unauthorized))))"

definition require_roles :: "role list \<Rightarrow> user \<Rightarrow> error + user" where
  "require_roles roles u =
     (if usr_role u \<notin> set roles then Inl (HTTPException 403 ''forbidden'') else Inr u)"

section \<open>What the commands do\<close>

definition may_log_in :: "db \<Rightarrow> user \<Rightarrow> bool" where
  "may_log_in d u \<longleftrightarrow> usr_is_active u \<and>
     (usr_role u = admin \<or> (\<exists>k t. usr_tenant_id u = Some k \<and> tenant_at d k = Some t \<and> ten_is_active t))"

lemma ensure_login_run:
  "ensure_login_allowed u d = (r, d') \<Longrightarrow> d' = d \<and> (r = Inr () \<longrightarrow> usr_is_active u \<longrightarrow> may_log_in d u)"
  by (auto simp: ensure_login_allowed_def may_log_in_def act_simps split: if_splits option.splits)

lemma issue_tokens_ok:
  assumes "issue_tokens ax env u d = (Inr toks, d')"
  shows "\<exists>t. refresh_token_create (au_token_row_id ax) (ae_now env) (usr_id u)
      (hash_token (au_sha256 ax) (it_refresh_token toks))
      (ae_now env + seconds (86400 * au_refresh_token_expire_days ax)) d = (Inr t, d')"
    "it_access_token toks = fst (create_access_token (au_jwt ax) (usr_id u) (usr_username u) (role_str (usr_role u))
      (au_jwt_secret ax) (au_jwt_algorithm ax) (au_access_token_expire_minutes ax) (ae_now env))"
    "it_refresh_token toks = fst (create_refresh_token (au_jwt ax) (au_jti ax) (usr_id u) (usr_username u)
      (role_str (usr_role u)) (au_jwt_secret ax) (au_jwt_algorithm ax) (au_refresh_token_expire_days ax) (ae_now env))"
  using assms by (auto simp: issue_tokens_def create_access_token_def create_refresh_token_def Let_def)

text \<open>A new refresh token of a user, with the row that stands for it.\<close>

definition grants :: "auth_env \<Rightarrow> audit_env \<Rightarrow> user \<Rightarrow> issued_tokens \<Rightarrow> db \<Rightarrow> db \<Rightarrow> bool" where
  "grants ax env u toks d d' \<longleftrightarrow> users d' = users d \<and> tenants d' = tenants d \<and>
     (\<exists>t. refresh_tokens d' = refresh_tokens d @ [t] \<and> rt_user_id t = usr_id u \<and> rt_revoked_at t = None \<and>
        rt_token_hash t = hash_token (au_sha256 ax) (it_refresh_token toks) \<and>
        token_at d (rt_token_hash t) = None \<and>
        rt_expires_at t = ae_now env + seconds (86400 * au_refresh_token_expire_days ax))"

lemma issue_tokens_grants:
  assumes "issue_tokens ax env u d = (Inr toks, d1)" "only_audit d1 d'"
  shows "grants ax env u toks d d'"
proof -
  obtain t where "refresh_token_create (au_token_row_id ax) (ae_now env) (usr_id u)
      (hash_token (au_sha256 ax) (it_refresh_token toks))
      (ae_now env + seconds (86400 * au_refresh_token_expire_days ax)) d = (Inr t, d1)"
    using issue_tokens_ok(1) [OF assms(1)] by blast
  from refresh_token_create_ok [OF this] assms(2) show ?thesis
    by (auto simp: grants_def only_audit_sel)
qed

text \<open>The audit entry of a refusal.\<close>

definition logged :: "string \<Rightarrow> db \<Rightarrow> db \<Rightarrow> bool" where
  "logged action d d' \<longleftrightarrow> (\<exists>l. d' = audit_logs_update (\<lambda>ls. ls @ [l]) d \<and> aud_action l = action)"

lemma logged_only: "logged a d d' \<Longrightarrow> only_audit d d'"
  by (auto simp: logged_def)

lemma audit_write_logged:
  "audit_write env e d = (Inr x, d') \<Longrightarrow> logged (en_action e) d d'"
  by (drule audit_write_run) (auto simp: logged_def entry_row_def)

lemma request_read: "m d = (Inr a, d) \<Longrightarrow> request (bindM (db_op m) f) d = request (f a) d"
  by (simp add: request_def bindM_def db_op_def open_session_def)

lemma request_read_fail: "m d = (Inl e, d) \<Longrightarrow> request (bindM (db_op m) f) d = (Inl e, d)"
  by (simp add: request_def bindM_def db_op_def open_session_def)

lemma request_lift: "request (bindM (liftM r) f) d = (case r of Inl e \<Rightarrow> (Inl e, d) | Inr a \<Rightarrow> request (f a) d)"
  by (auto simp: request_def bindM_def open_session_def liftM_def split: sum.splits)

lemma request_then_raise:
  "request (bindM m (\<lambda>_. raiseM e)) d = (case request m d of (Inl x, d') \<Rightarrow> (Inl x, d') | (Inr _, d') \<Rightarrow> (Inl e, d'))"
  by (auto simp: request_def bindM_def raiseM_def split: prod.splits sum.splits)

lemma request_reject:
  "request (reject env e err) d = (r, d') \<Longrightarrow>
     (\<exists>x. r = Inl x \<and> (d' = d \<or> x = err \<and> logged (en_action e) d d'))"
  unfolding reject_def request_then_raise request_transact
  by (auto dest: audit_write_logged split: prod.splits sum.splits)

lemma login_run:
  assumes "request (login_handle ax env cmd) d = (r, d')"
  shows "case r of
      Inr toks \<Rightarrow> \<exists>u. row_of usr_username (li_username cmd) (users d) = Some u \<and>
        verify_password (au_kdf ax) (li_password cmd) (usr_password_hash u) = Inr True \<and>
        may_log_in d u \<and> grants ax env u toks d d' \<and> (\<exists>d1. issue_tokens ax env u d = (Inr toks, d1))
    | Inl _ \<Rightarrow> d' = d \<or> logged ''auth.login.failed'' d d'"
proof -
  let ?found = "row_of usr_username (li_username cmd) (users d)"
  let ?valid = "case ?found of None \<Rightarrow> Inr False
        | Some u \<Rightarrow> verify_password (au_kdf ax) (li_password cmd) (usr_password_hash u)"
  have found: "user_get_by_username (li_username cmd) d = (Inr ?found, d)"
    by (simp add: user_get_by_username_def sql_run find_key)
  note read = request_read [of "user_get_by_username (li_username cmd)", OF found]
  show ?thesis
  proof (cases ?valid)
    case (Inl e)
    then show ?thesis using assms by (auto simp: login_handle_def read request_lift)
  next
    case (Inr valid)
    note run = assms [unfolded login_handle_def read request_lift Inr sum.case]
    show ?thesis
    proof (cases "if valid then ?found else None")
      case None
      then show ?thesis using request_reject [OF run [unfolded None option.case]]
        by (auto simp: entry_def)
    next
      case (Some u)
      then have u: "?found = Some u" "verify_password (au_kdf ax) (li_password cmd) (usr_password_hash u) = Inr True"
        using Inr by (auto split: if_splits)
      show ?thesis
      proof (cases "usr_is_active u")
        case False
        then show ?thesis using run Some by (auto simp: entry_def dest: request_reject)
      next
        case True
        show ?thesis
        proof (cases r)
          case (Inl e)
          then show ?thesis using run Some True by (auto simp: request_transact_Inl)
        next
          case (Inr toks)
          then obtain d1 where "may_log_in d u" "issue_tokens ax env u d = (Inr toks, d1)"
            "only_audit d1 d'"
            using run Some True by (auto dest!: ensure_login_run audit_write_only)
          then show ?thesis using Inr u issue_tokens_grants by auto
        qed
      qed
    qed
  qed
qed

definition revoke_row :: "timestamp \<Rightarrow> string \<Rightarrow> db \<Rightarrow> db" where
  "revoke_row now h d = refresh_tokens_update (update_where (\<lambda>t. rt_token_hash t = h) (revoked_row now)) d"

lemma revoke_by_hash_row: "revoke_by_hash now h d = (r, d') \<Longrightarrow> d' = revoke_row now h d \<and> (\<exists>x. r = Inr x)"
  using revoke_by_hash_run [of now h d] by (auto simp: revoke_row_def)

lemma refresh_run:
  assumes ok: "tokens_ok d" and run: "request (refresh_handle ax env cmd) d = (r, d')"
  defines "h \<equiv> hash_token (au_sha256 ax) (rf_refresh_token cmd)"
  shows "case r of
      Inr toks \<Rightarrow> \<exists>u t. token_at d h = Some t \<and> token_active (ae_now env) t \<and>
        user_at d (rt_user_id t) = Some u \<and> may_log_in d u \<and>
        grants ax env u toks (revoke_row (ae_now env) h d) d'
    | Inl _ \<Rightarrow> d' = d \<or> logged ''auth.refresh.failed'' d d'"
proof -
  let ?now = "ae_now env"
  let ?row = "case token_at d h of None \<Rightarrow> None | Some t \<Rightarrow> if token_active ?now t then Some t else None"
  have en [simp]: "en_action (refresh_failed ty i a w) = ''auth.refresh.failed''" for ty i a w
    by (simp add: refresh_failed_def entry_def)
  note row = request_read [of "get_active_by_hash ?now h" d, OF get_active_run [OF ok]]
  note user = request_read [of "user_get_by_id k" d for k, OF user_at_get]
  have case_reject: ?thesis if "request (reject env (refresh_failed ty i a w) invalid_refresh) d = (r, d')" for ty i a w
    using request_reject [OF that] by auto
  show ?thesis
  proof (cases "decode_refresh_token (au_jwt ax) ?now (rf_refresh_token cmd) (au_jwt_secret ax) [au_jwt_algorithm ax]")
    case (Inl e)
    then show ?thesis using run case_reject by (simp add: refresh_handle_def Let_def)
  next
    case (Inr payload)
    note run1 = run [unfolded refresh_handle_def Let_def Inr sum.case, folded h_def, unfolded row]
    show ?thesis
    proof (cases ?row)
      case None
      then show ?thesis using run1 case_reject by simp
    next
      case (Some t)
      then have t: "token_at d h = Some t" "token_active ?now t" by (auto split: option.splits if_splits)
      note run2 = run1 [unfolded Some option.case user]
      show ?thesis
      proof (cases "case user_at d (rt_user_id t) of Some u \<Rightarrow> if usr_is_active u then Some u else None | None \<Rightarrow> None")
        case None
        then show ?thesis using run2 case_reject by simp
      next
        case (Some u)
        then have u: "user_at d (rt_user_id t) = Some u" "usr_is_active u" by (auto split: option.splits if_splits)
        obtain e dx where ens: "ensure_login_allowed u d = (e, dx)" by (rule prod.exhaust)
        have [simp]: "dx = d" using ensure_login_run [OF ens] by simp
        show ?thesis
        proof (cases e)
          case (Inl err)
          then show ?thesis using run2 Some ens by (auto simp: request_read_fail)
        next
          case (Inr x)
          then have may: "may_log_in d u" using ensure_login_run ens u(2) by simp
          note run3 = run2 [unfolded Some option.case
            request_read [of "ensure_login_allowed u" d, OF ens [unfolded Inr \<open>dx = d\<close>]]]
          show ?thesis
          proof (cases "Some (uuid_str (usr_id u)) \<noteq> claim_str (dget payload ''sub'')")
            case True
            show ?thesis by (rule case_reject) (use run3 True in simp)
          next
            case False
            note run4 = run3 [unfolded if_not_P [OF False]]
            show ?thesis
            proof (cases r)
              case (Inl err)
              then show ?thesis using run4 by (auto simp: request_transact_Inl)
            next
              case (Inr toks)
              then obtain d1 where "issue_tokens ax env u (revoke_row ?now h d) = (Inr toks, d1)" "only_audit d1 d'"
                using run4 by (auto dest!: audit_write_only revoke_by_hash_row)
              from issue_tokens_grants [OF this] show ?thesis using t u may Inr by auto
            qed
          qed
        qed
      qed
    qed
  qed
qed

lemma logout_run:
  assumes "tokens_ok d" "request (logout_handle ax env cmd) d = (Inr x, d')"
  defines "h \<equiv> hash_token (au_sha256 ax) (lo_refresh_token cmd)"
  shows "if \<exists>t. token_at d h = Some t \<and> token_active (ae_now env) t \<and> rt_user_id t = usr_id (lo_current_user cmd)
    then logged ''auth.logout.succeeded'' (revoke_row (ae_now env) h d) d'
    else logged ''auth.logout.succeeded'' d d'"
proof -
  have en: "en_action ((entry a ty i)\<lparr>en_actor_user := u\<rparr>) = a" for a ty i u by (simp add: entry_def)
  show ?thesis using assms(2)
    by (auto simp: logout_handle_def Let_def get_active_run [OF assms(1)] h_def en
        dest!: audit_write_logged revoke_by_hash_row split: option.splits if_splits)
qed

section \<open>Properties\<close>

lemma grants_token_at:
  assumes "grants ax env u toks d d'"
  shows "h \<noteq> hash_token (au_sha256 ax) (it_refresh_token toks) \<Longrightarrow> token_at d' h = token_at d h"
    "\<exists>t. token_at d' (hash_token (au_sha256 ax) (it_refresh_token toks)) = Some t \<and> rt_user_id t = usr_id u \<and>
       rt_revoked_at t = None \<and> rt_expires_at t = ae_now env + seconds (86400 * au_refresh_token_expire_days ax)"
    "token_at d (hash_token (au_sha256 ax) (it_refresh_token toks)) = None"
  using assms by (auto simp: grants_def token_at_def row_of_append split: option.splits)

lemma grants_tokens_ok: "grants ax env u toks d d' \<Longrightarrow> tokens_ok d \<Longrightarrow> tokens_ok d'"
  by (auto simp: grants_def tokens_ok_def token_at_def row_of_None_iff)

lemma token_at_revoke_row [simp]:
  "token_at (revoke_row now h d) k = (if k = h then map_option (revoked_row now) (token_at d h) else token_at d k)"
  by (simp add: revoke_row_def token_at_revoke)

lemma tokens_ok_revoke_row [simp]: "tokens_ok (revoke_row now h d) = tokens_ok d"
  by (simp add: revoke_row_def)

lemma token_at_audit: "only_audit d d' \<Longrightarrow> token_at d' h = token_at d h" "only_audit d d' \<Longrightarrow> tokens_ok d' = tokens_ok d"
  by (simp_all add: token_at_def tokens_ok_def only_audit_sel)

text \<open>C28: a login returns tokens only for an active user whose stored hash accepts the password
  and whose tenant, unless he is an administrator, is active; it then stores one new valid refresh
  token of that user and nothing else but its audit entry.  A refused login changes nothing but
  the log, in which a refusal that is committed is recorded.\<close>

theorem login_outcome:
  "case request (login_handle ax env cmd) d of
      (Inr toks, d') \<Rightarrow> \<exists>u. row_of usr_username (li_username cmd) (users d) = Some u \<and>
        verify_password (au_kdf ax) (li_password cmd) (usr_password_hash u) = Inr True \<and>
        may_log_in d u \<and> grants ax env u toks d d'
    | (Inl _, d') \<Rightarrow> d' = d \<or> logged ''auth.login.failed'' d d'"
proof -
  obtain r d' where run: "request (login_handle ax env cmd) d = (r, d')" by (rule prod.exhaust)
  from login_run [OF run] run show ?thesis by (cases r) auto
qed

text \<open>C29: a refresh succeeds only with a token whose row is unrevoked and unexpired, for an active
  user of an active tenant; it revokes that row and stores a new one, so the presented token is
  spent.  A refused refresh revokes and stores nothing.\<close>

theorem refresh_rotates:
  assumes "tokens_ok d"
  shows "case request (refresh_handle ax env cmd) d of
      (Inr toks, d') \<Rightarrow> (let h = hash_token (au_sha256 ax) (rf_refresh_token cmd);
          h' = hash_token (au_sha256 ax) (it_refresh_token toks) in
        \<exists>u t t'. token_at d h = Some t \<and> token_active (ae_now env) t \<and> user_at d (rt_user_id t) = Some u \<and>
          may_log_in d u \<and> h' \<noteq> h \<and> token_at d h' = None \<and>
          token_at d' h = Some (revoked_row (ae_now env) t) \<and>
          token_at d' h' = Some t' \<and> rt_user_id t' = usr_id u \<and> rt_revoked_at t' = None)
    | (Inl _, d') \<Rightarrow> refresh_tokens d' = refresh_tokens d"
proof -
  obtain r d' where run: "request (refresh_handle ax env cmd) d = (r, d')" by (rule prod.exhaust)
  let ?h = "hash_token (au_sha256 ax) (rf_refresh_token cmd)"
  show ?thesis
  proof (cases r)
    case (Inl e)
    then show ?thesis using refresh_run [OF assms run] run by (auto dest!: logged_only simp: only_audit_sel)
  next
    case (Inr toks)
    then obtain u t where ut: "token_at d ?h = Some t" "token_active (ae_now env) t"
        "user_at d (rt_user_id t) = Some u" "may_log_in d u"
      and g: "grants ax env u toks (revoke_row (ae_now env) ?h d) d'"
      using refresh_run [OF assms run] by auto
    let ?h' = "hash_token (au_sha256 ax) (it_refresh_token toks)"
    have "?h' \<noteq> ?h" "token_at d ?h' = None" using grants_token_at(3) [OF g] ut(1) by (auto split: if_splits)
    moreover have "token_at d' ?h = Some (revoked_row (ae_now env) t)"
      using grants_token_at(1) [OF g, of ?h] ut(1) \<open>?h' \<noteq> ?h\<close> by auto
    moreover obtain t' where "token_at d' ?h' = Some t'" "rt_user_id t' = usr_id u" "rt_revoked_at t' = None"
      using grants_token_at(2) [OF g] by blast
    ultimately show ?thesis using run Inr ut by (simp add: Let_def)
  qed
qed

text \<open>C30: from a login on, whatever has become of the database, the access token of that login
  identifies the row with the id of the user who logged in, exactly while it has not expired and that
  row is there and active; the refresh token of the login, presented as a bearer token, never
  identifies anyone.  The tokens are signed with an HMAC algorithm and a secret fit for it.\<close>

theorem login_token_authenticates:
  assumes jwt: "jwt_reads_back (au_jwt ax)" and key: "hmac_key (au_jwt_algorithm ax) (au_jwt_secret ax)"
    and login: "request (login_handle ax env cmd) d = (Inr toks, d')" and time: "ae_now env \<le> now"
  shows "\<exists>u. row_of usr_username (li_username cmd) (users d) = Some u \<and>
    get_current_user ax now (it_access_token toks) later =
      (case user_at later (usr_id u) of
         Some v \<Rightarrow>
           if usr_is_active v \<and> now < whole_seconds (ae_now env + seconds (60 * au_access_token_expire_minutes ax))
           then (Inr v, later) else (Inl unauthorized, later)
       | None \<Rightarrow> (Inl unauthorized, later)) \<and>
    get_current_user ax now (it_refresh_token toks) later = (Inl unauthorized, later)"
proof -
  obtain u d1 where u: "row_of usr_username (li_username cmd) (users d) = Some u"
    and iss: "issue_tokens ax env u d = (Inr toks, d1)"
    using login_run [OF login] by auto
  let ?live = "now < whole_seconds (ae_now env + seconds (60 * au_access_token_expire_minutes ax))"
  have "if ?live
    then \<exists>p. decode_access_token (au_jwt ax) now (it_access_token toks) (au_jwt_secret ax) [au_jwt_algorithm ax] = Inr p \<and>
      dget p ''sub'' = JStr (uuid_str (usr_id u))
    else \<exists>e. decode_access_token (au_jwt ax) now (it_access_token toks) (au_jwt_secret ax) [au_jwt_algorithm ax] = Inl e"
    unfolding issue_tokens_ok(2) [OF iss] by (rule decode_access_created [OF jwt key time])
  then have access: "get_current_user ax now (it_access_token toks) later =
      (case user_at later (usr_id u) of
         Some v \<Rightarrow> if usr_is_active v \<and> ?live then (Inr v, later) else (Inl unauthorized, later)
       | None \<Rightarrow> (Inl unauthorized, later))"
    by (auto simp: get_current_user_def uuid_reads_back act_simps split: option.split if_splits)
  obtain e where "decode_access_token (au_jwt ax) now (it_refresh_token toks) (au_jwt_secret ax)
      [au_jwt_algorithm ax] = Inl e"
    unfolding issue_tokens_ok(3) [OF iss] using decode_refresh_created [OF jwt key] by blast
  then have "get_current_user ax now (it_refresh_token toks) later = (Inl unauthorized, later)"
    by (simp add: get_current_user_def)
  with u access show ?thesis by blast
qed

section \<open>The properties at work\<close>

text \<open>A token library that meets the contract: a token is its content, numbered.\<close>

instance json :: countable
  by countable_datatype

instance claim :: countable
  by countable_datatype

definition string_claims :: "claims \<Rightarrow> dict" where
  "string_claims cs = concat (map (\<lambda>(k, c). case c of Value v \<Rightarrow> [(k, v)] | Moment t \<Rightarrow> [(k, JNull)]) cs)"

definition sample_jwt :: jwt_lib where
  "sample_jwt = \<lparr>jwt_encode = (\<lambda>cs secret alg. replicate (to_nat (cs, secret, alg)) CHR ''x''),
     jwt_decode = (\<lambda>now token secret algs. case from_nat (length token) of (cs, secret', alg) \<Rightarrow>
       if secret' = secret \<and> alg \<in> set algs \<and> in_force now cs then Some (string_claims cs) else None)\<rparr>"

lemma sample_jwt_reads_back: "jwt_reads_back sample_jwt"
proof -
  have "map_of cs k = Some (Value (JStr s)) \<Longrightarrow> dget (string_claims cs) k = JStr s" for cs k s
    by (induction cs) (auto simp: string_claims_def split: if_splits claim.splits)
  then show ?thesis by (simp add: jwt_reads_back_def sample_jwt_def)
qed

lemma sample_hmac_key: "hmac_key ''HS256'' ''s''"
  by code_simp

definition sample_auth :: auth_env where
  "sample_auth = \<lparr>au_jwt = sample_jwt, au_kdf = (\<lambda>p s n. p @ s), au_sha256 = (\<lambda>t. [of_nat (length t)]), au_jwt_secret = ''s'',
     au_jwt_algorithm = ''HS256'', au_access_token_expire_minutes = 60, au_refresh_token_expire_days = 14,
     au_jti = 80, au_token_row_id = 81\<rparr>"

definition sample_login :: login_command where
  "sample_login = \<lparr>li_username = ''op'', li_password = ''secret''\<rparr>"

lemma sample_password: "verify_password (\<lambda>p s n. p @ s) ''secret'' (usr_password_hash sample_operator) = Inr True"
  by code_simp

lemma sample_create_token:
  assumes "length h = 2"
  shows "refresh_token_create k now 101 h x sample_users_db = (let t = \<lparr>rt_id = k, rt_user_id = 101, rt_token_hash = h,
     rt_expires_at = x, rt_revoked_at = None, rt_created_at = now, rt_updated_at = now\<rparr> in
     if k = 300 then (Inl (IntegrityError ''refresh_tokens_pkey''), sample_users_db)
     else (Inr t, refresh_tokens_update (\<lambda>ts. ts @ [t]) sample_users_db))"
proof -
  have "h \<noteq> ''old''" using assms by auto
  then show ?thesis
    by (simp add: refresh_token_create_def sql_insert_def refresh_token_violates_def sample_users_db_def
        sample_token_def exists_row_def sample_db_def sample_admin_def sample_operator_def Let_def)
qed

lemma sample_login_succeeds:
  "\<exists>toks d'. request (login_handle sample_auth sample_env sample_login) sample_users_db = (Inr toks, d')"
proof -
  have found: "row_of usr_username ''op'' (users sample_users_db) = Some sample_operator" by code_simp
  have get: "user_get_by_username ''op'' sample_users_db = (Inr (Some sample_operator), sample_users_db)"
    by (simp add: user_get_by_username_def sql_run find_key found)
  have allowed: "ensure_login_allowed sample_operator sample_users_db = (Inr (), sample_users_db)" by code_simp
  have len: "length (hash_token (au_sha256 sample_auth) t) = 2" for t
    by (simp add: hash_token_def sample_auth_def)
  have op: "usr_is_active sample_operator" "usr_id sample_operator = 101" by (simp_all add: sample_operator_def)
  obtain toks d1 where iss: "issue_tokens sample_auth sample_env sample_operator sample_users_db = (Inr toks, d1)"
    and d1: "\<exists>f. d1 = refresh_tokens_update f sample_users_db"
    by (simp add: issue_tokens_def create_access_token_def create_refresh_token_def Let_def op sample_create_token len bindM_run)
      (auto simp: sample_auth_def bindM_def)
  obtain f where f: "d1 = refresh_tokens_update f sample_users_db" using d1 by blast
  obtain d' where aud: "audit_write sample_env ((entry ''auth.login.succeeded'' ''user'' (Some (uuid_str 101)))
      \<lparr>en_actor_user := Some sample_operator\<rparr>) d1 = (Inr (), d')"
    by (simp add: f audit_write_def audit_create_def entry_row_def entry_def sql_insert_def audit_violates_def
        sample_env_def sample_users_db_def sample_db_def sample_operator_def sample_admin_def sample_tenant_def
        exists_row_def empty_db_def bindM_run bind_inet_def json_opt_str_def
        audit_context_of_def parse_ip_address_def)
  note read = request_read [of "user_get_by_username ''op''", OF get]
  have "request (login_handle sample_auth sample_env sample_login) sample_users_db = (Inr toks, d')"
    unfolding login_handle_def sample_login_def login_command.select_convs read option.case
    using sample_password op aud iss allowed
    by (simp add: request_lift sample_auth_def [THEN arg_cong, of au_kdf])
  then show ?thesis by blast
qed

theorem login_token_authenticates_witness:
  "case request (login_handle sample_auth sample_env sample_login) sample_users_db of
     (Inl _, _) \<Rightarrow> False
   | (Inr toks, d') \<Rightarrow>
       get_current_user sample_auth 6000 (it_access_token toks) sample_users_db = (Inr sample_operator, sample_users_db) \<and>
       get_current_user sample_auth 6000 (it_access_token toks) empty_db = (Inl unauthorized, empty_db) \<and>
       get_current_user sample_auth 6000 (it_refresh_token toks) sample_users_db = (Inl unauthorized, sample_users_db)"
proof -
  obtain toks d' where run: "request (login_handle sample_auth sample_env sample_login) sample_users_db = (Inr toks, d')"
    using sample_login_succeeds by blast
  have found: "row_of usr_username (li_username sample_login) (users sample_users_db) = Some sample_operator"
    "user_at sample_users_db (usr_id sample_operator) = Some sample_operator"
    "user_at empty_db (usr_id sample_operator) = None" "usr_is_active sample_operator" by code_simp+
  have ok: "jwt_reads_back (au_jwt sample_auth)" "hmac_key (au_jwt_algorithm sample_auth) (au_jwt_secret sample_auth)"
    "ae_now sample_env \<le> 6000" "6000 < whole_seconds (ae_now sample_env + seconds (60 * au_access_token_expire_minutes sample_auth))"
    by (simp_all add: sample_auth_def sample_jwt_reads_back sample_hmac_key sample_env_def whole_seconds_def seconds_def)
  note law = login_token_authenticates [OF ok(1,2) run ok(3)]
  show ?thesis using law [of sample_users_db] law [of empty_db] found ok(4) run by simp
qed

theorem refresh_rotates_witness:
  "refresh_tokens (snd (request (refresh_handle sample_auth sample_env \<lparr>rf_refresh_token = []\<rparr>) sample_users_db)) =
     [sample_token]"
proof -
  have "tokens_ok sample_users_db" by (simp add: tokens_ok_def sample_users_db_def)
  note * = refresh_rotates [OF this, where ax = sample_auth and env = sample_env and cmd = "\<lparr>rf_refresh_token = []\<rparr>"]
  obtain r d' where run: "request (refresh_handle sample_auth sample_env \<lparr>rf_refresh_token = []\<rparr>) sample_users_db = (r, d')"
    by (rule prod.exhaust)
  have "hash_token (au_sha256 sample_auth) t \<noteq> ''old''" for t
    using arg_cong [of "hash_token (au_sha256 sample_auth) t" "''old''" length]
    by (auto simp: hash_token_def sample_auth_def)
  moreover have "token_at sample_users_db h = (if h = ''old'' then Some sample_token else None)" for h
    by (simp add: token_at_def sample_users_db_def sample_token_def)
  ultimately have "token_at sample_users_db (hash_token (au_sha256 sample_auth) t) = None" for t by simp
  with * run show ?thesis by (cases r) (auto simp: Let_def sample_users_db_def)
qed

end
