(* ===== verification/Api_Common.thy ===== *)
theory Api_Common
  imports Auth_Commands Instance_Commands
begin

text \<open>
  What the routers share: \<^verbatim>\<open>api/dependencies.py\<close> (the user of the bearer token, the roles an
  endpoint asks for), \<^verbatim>\<open>api/error_handlers.py\<close>, and the bounds of the page parameters.
\<close>

record api_env =
  api_auth :: auth_env
  api_audit :: audit_env
  api_config :: handler_config
  api_ids :: fresh_ids
  api_host_node :: string

text \<open>The dependencies every endpoint shares.\<close>

definition authorized :: "api_env \<Rightarrow> string \<Rightarrow> role list \<Rightarrow> (user \<Rightarrow> 'a sess_act) \<Rightarrow> 'a sess_act" where
  "authorized api token roles m =
     bindM (db_op (get_current_user (api_auth api) (ae_now (api_audit api)) token)) (\<lambda>u.
     bindM (liftM (require_roles roles u)) m)"

text \<open>The lock orders transactions; run one at a time, they do not see it.\<close>

definition lock_requests :: "int \<Rightarrow> unit db_act" where
  "lock_requests key = returnM ()"

text \<open>The audit entry of a request on an instance or a task.\<close>

definition request_entry :: "string \<Rightarrow> string \<Rightarrow> uuid \<Rightarrow> user \<Rightarrow> uuid \<Rightarrow> dict \<Rightarrow> audit_entry" where
  "request_entry action target_type target u tid metadata =
     (entry action target_type (Some (uuid_str target)))
       \<lparr>en_actor_user := Some u, en_tenant_id := Some tid, en_metadata := metadata\<rparr>"

text \<open>\<^verbatim>\<open>Query(ge=1, le=200)\<close> and \<^verbatim>\<open>Query(ge=0)\<close>, checked after the dependencies.\<close>

definition page_params :: "int \<Rightarrow> int \<Rightarrow> error + unit" where
  "page_params limit offset =
     (if 1 \<le> limit \<and> limit \<le> 200 \<and> 0 \<le> offset then Inr () else Inl (HTTPException 422 ''validation error''))"

section \<open>Errors\<close>

definition error_status_mapping :: "(string \<times> int) list" where
  "error_status_mapping = [
     (''FORBIDDEN'', 403), (''VALIDATION_ERROR'', 400), (''CAPACITY_EXCEEDED'', 409),
     (''QUOTA_EXCEEDED'', 409), (''QUOTA_CONFLICT'', 409), (''TENANT_INACTIVE'', 403),
     (''VM_NOT_FOUND'', 404), (''INSTANCE_NOT_FOUND'', 404), (''TASK_NOT_FOUND'', 404),
     (''TENANT_NOT_FOUND'', 404), (''USER_NOT_FOUND'', 404), (''AUDIT_LOG_NOT_FOUND'', 404),
     (''CONFLICT'', 409), (''QEMU_ERROR'', 502), (''TIMEOUT'', 504)]"

text \<open>The status of the answer to an exception: a \<^verbatim>\<open>DomainError\<close> goes through the mapping, an
  \<^verbatim>\<open>HTTPException\<close> carries its own, anything else is an internal error.\<close>

definition http_status :: "error \<Rightarrow> int" where
  "http_status e =
     (case error_code e of
        Some code \<Rightarrow> (case map_of error_status_mapping code of Some st \<Rightarrow> st | None \<Rightarrow> 500)
      | None \<Rightarrow> (case e of HTTPException st _ \<Rightarrow> st | _ \<Rightarrow> 500))"

text \<open>\<^verbatim>\<open>except SomeError as exc: raise HTTPException(...)\<close>.\<close>

definition as_http :: "(error \<Rightarrow> bool) \<Rightarrow> int \<Rightarrow> error \<Rightarrow> error" where
  "as_http p st e = (if p e then HTTPException st (error_text e) else e)"

fun is_conflict :: "error \<Rightarrow> bool" where
  "is_conflict (ConflictError _) = True"
| "is_conflict _ = False"

fun is_tenant_missing :: "error \<Rightarrow> bool" where
  "is_tenant_missing (TenantNotFoundError _) = True"
| "is_tenant_missing _ = False"

fun is_user_missing :: "error \<Rightarrow> bool" where
  "is_user_missing (UserNotFoundError _) = True"
| "is_user_missing _ = False"

section \<open>Who is let in\<close>

lemma get_current_user_run:
  "get_current_user ax now token d = (r, d') \<Longrightarrow> d' = d \<and> (\<forall>u. r = Inr u \<longrightarrow>
     usr_is_active u \<and> user_at d (usr_id u) = Some u)"
  by (auto simp: get_current_user_def act_simps user_at_def dest: row_of_SomeD split: sum.splits option.splits if_splits)

definition admitted :: "api_env \<Rightarrow> string \<Rightarrow> role list \<Rightarrow> db \<Rightarrow> user \<Rightarrow> bool" where
  "admitted api token roles d u \<longleftrightarrow> usr_role u \<in> set roles \<and> usr_is_active u \<and> user_at d (usr_id u) = Some u \<and>
     get_current_user (api_auth api) (ae_now (api_audit api)) token d = (Inr u, d)"

lemma request_authorized:
  assumes "request (authorized api token roles m) d = (r, d')"
  shows "(\<exists>u. admitted api token roles d u \<and> request (m u) d = (r, d')) \<or> (\<exists>e. r = Inl e \<and> d' = d)"
proof -
  obtain x dx where g: "get_current_user (api_auth api) (ae_now (api_audit api)) token d = (x, dx)"
    by (rule prod.exhaust)
  note run = get_current_user_run [OF g]
  then have g': "get_current_user (api_auth api) (ae_now (api_audit api)) token d = (x, d)" using g by simp
  show ?thesis
  proof (cases x)
    case (Inl e)
    then show ?thesis using assms
      by (auto simp: authorized_def request_read_fail
          [of "get_current_user (api_auth api) (ae_now (api_audit api)) token", OF g' [unfolded Inl]])
  next
    case (Inr u)
    then show ?thesis using assms run g'
      by (auto simp: authorized_def request_lift require_roles_def admitted_def request_read
          [of "get_current_user (api_auth api) (ae_now (api_audit api)) token", OF g' [unfolded Inr]]
          split: if_splits)
  qed
qed

lemma request_mapErrM:
  "request (mapErrM f m) d = (case request m d of (Inl e, d') \<Rightarrow> (Inl (f e), d') | (Inr a, d') \<Rightarrow> (Inr a, d'))"
  by (auto simp: request_def mapErrM_def catchM_def raiseM_def split: prod.splits sum.splits)

text \<open>Every domain error has its own entry in the status mapping, which is a client error or
  a gateway error, never the generic 500; and the codes of the mapping are exactly the codes of
  the domain errors.\<close>

theorem domain_errors_have_a_status:
  "(\<forall>e. case error_code e of None \<Rightarrow> True
     | Some code \<Rightarrow> map_of error_status_mapping code = Some (http_status e) \<and>
         http_status e \<in> {400, 403, 404, 409, 502, 504}) \<and>
   (\<forall>code. map_of error_status_mapping code = None \<or> (\<exists>e. error_code e = Some code))"
proof (intro conjI allI)
  fix e show "case error_code e of None \<Rightarrow> True
     | Some code \<Rightarrow> map_of error_status_mapping code = Some (http_status e) \<and>
         http_status e \<in> {400, 403, 404, 409, 502, 504}"
    by (cases e) (simp_all add: http_status_def error_status_mapping_def)
next
  fix code
  have "code \<in> fst ` set error_status_mapping \<Longrightarrow> \<exists>e. error_code e = Some code"
    by (simp add: error_status_mapping_def) (elim disjE; simp only:; blast intro: error_code.simps)
  then show "map_of error_status_mapping code = None \<or> (\<exists>e. error_code e = Some code)"
    by (auto simp: map_of_eq_None_iff)
qed

lemma request_admitted:
  assumes "admitted api token roles d u"
  shows "request (authorized api token roles m) d = request (m u) d"
proof -
  have g: "get_current_user (api_auth api) (ae_now (api_audit api)) token d = (Inr u, d)" "usr_role u \<in> set roles"
    using assms by (simp_all add: admitted_def)
  show ?thesis
    by (simp add: authorized_def request_lift require_roles_def g(2) request_read
        [of "get_current_user (api_auth api) (ae_now (api_audit api)) token", OF g(1)])
qed

lemma uncommitted_authorized [commit_intros]: "(\<And>u. uncommitted (m u)) \<Longrightarrow> uncommitted (authorized api token roles m)"
  unfolding authorized_def by (intro commit_intros)

lemma request_uncommitted: "uncommitted m \<Longrightarrow> request m d = (r, d') \<Longrightarrow> d' = d"
  by (auto simp: request_iff dest: uncommittedD)

section \<open>A request to try\<close>

definition sample_api :: api_env where
  "sample_api = \<lparr>api_auth = sample_auth, api_audit = sample_env,
     api_config = handler_config_of True 20 Some (\<lambda>_. []),
     api_ids = \<lparr>new_instance_id = 9, new_task_id = 10, new_request_id = 11, new_outbox_id = 12, at_time = 5000\<rparr>,
     api_host_node = ''node''\<rparr>"

definition sample_bearer :: string where
  "sample_bearer = fst (create_access_token sample_jwt 101 ''op'' ''operator'' ''s'' ''HS256'' 60 5000)"

lemma sample_admitted:
  assumes "user_at d 101 = Some sample_operator" "operator \<in> set roles"
  shows "admitted sample_api sample_bearer roles d sample_operator"
proof -
  obtain p where p: "decode_access_token sample_jwt 5000 sample_bearer ''s'' [''HS256''] = Inr p"
    "dget p ''sub'' = JStr (uuid_str 101)"
    using decode_access_created [OF sample_jwt_reads_back sample_hmac_key, of 5000 5000 60 101 "''op''" "''operator''"]
    by (auto simp: sample_bearer_def whole_seconds_def seconds_def)
  have sel: "au_jwt sample_auth = sample_jwt" "au_jwt_secret sample_auth = ''s''" "au_jwt_algorithm sample_auth = ''HS256''"
    by (simp_all add: sample_auth_def)
  have op: "usr_is_active sample_operator" "usr_id sample_operator = 101" "usr_role sample_operator = operator"
    by (simp_all add: sample_operator_def)
  have "get_current_user sample_auth 5000 sample_bearer d = (Inr sample_operator, d)"
    using p assms(1) op(1) by (simp add: get_current_user_def sel uuid_reads_back act_simps)
  moreover have "ae_now (api_audit sample_api) = 5000" "api_auth sample_api = sample_auth"
    by (simp_all add: sample_api_def sample_env_def)
  ultimately show ?thesis using assms op by (simp add: admitted_def)
qed

end
