(* ===== verification/Api_Vm.thy ===== *)
theory Api_Vm
  imports VM_Properties Access_Control Api_Common
begin

text \<open>
  \<^verbatim>\<open>api/routers/instances.py\<close> and \<^verbatim>\<open>api/routers/tasks.py\<close>: an endpoint
  authenticates the bearer token, checks role, tenant and ownership, runs its handler, writes an
  audit entry and commits.  One request is one transaction; cancelling is the exception, it
  commits the audit entry of a refusal too.
\<close>

section \<open>The requests\<close>

record create_instance_request =
  bi_name :: "string option"
  bi_cpu :: int
  bi_memory_mib :: int
  bi_disk_gib :: int
  bi_image_id :: "string option"
  bi_tenant_id :: "uuid option"

record update_instance_request =
  bu_cpu :: int
  bu_memory_mib :: int
  bu_disk_gib :: int

definition own_instance :: "user \<Rightarrow> uuid \<Rightarrow> vm_instance db_act" where
  "own_instance u iid =
     bindM (instance_read_get iid None) (\<lambda>existing.
     case existing of
       None \<Rightarrow> raiseM (HTTPException 404 ''instance not found'')
     | Some i \<Rightarrow> bindM (liftM (ensure_instance_access u (inst_tenant_id i))) (\<lambda>_. returnM i))"

definition log_task :: "api_env \<Rightarrow> string \<Rightarrow> uuid \<Rightarrow> user \<Rightarrow> uuid \<Rightarrow> task_accepted \<Rightarrow> unit db_act" where
  "log_task api action iid u tid acc =
     audit_write (api_audit api) (request_entry action ''instance'' iid u tid
       [(''task_id'', JStr (uuid_str (acc_task_id acc)))])"

section \<open>Instance endpoints\<close>

definition create_instance_body :: "api_env \<Rightarrow> create_instance_request \<Rightarrow> user \<Rightarrow> task_accepted db_act" where
  "create_instance_body api body u =
     bindM (ensure_mutation_allowed_for_user_tenant u) (\<lambda>_.
     bindM (liftM (resolve_tenant_for_create u (bi_tenant_id body))) (\<lambda>tenant_id.
     bindM (lock_requests 4001) (\<lambda>_.
     bindM (create_instance_handle (api_config api) (api_ids api)
       \<lparr>cr_cpu = bi_cpu body, cr_memory_mib = bi_memory_mib body, cr_disk_gib = bi_disk_gib body,
        cr_name = bi_name body, cr_host_node = api_host_node api, cr_image_id = bi_image_id body,
        cr_tenant_id = tenant_id\<rparr>) (\<lambda>acc.
     bindM (log_task api ''instance.create.requested'' (acc_instance_id acc) u tenant_id acc) (\<lambda>_.
     returnM acc)))))"

definition create_instance :: "api_env \<Rightarrow> string \<Rightarrow> create_instance_request \<Rightarrow> task_accepted sess_act" where
  "create_instance api token body =
     authorized api token [operator, admin] (\<lambda>u. transact (create_instance_body api body u))"

text \<open>What the four endpoints on an existing instance have in common.\<close>

definition instance_body ::
  "api_env \<Rightarrow> string \<Rightarrow> uuid \<Rightarrow> task_accepted db_act \<Rightarrow> user \<Rightarrow> task_accepted db_act" where
  "instance_body api action iid handle u =
     bindM (ensure_mutation_allowed_for_user_tenant u) (\<lambda>_.
     bindM (own_instance u iid) (\<lambda>existing.
     bindM (lock_requests 4001) (\<lambda>_.
     bindM handle (\<lambda>acc.
     bindM (log_task api action iid u (inst_tenant_id existing) acc) (\<lambda>_.
     returnM acc)))))"

definition update_instance :: "api_env \<Rightarrow> string \<Rightarrow> uuid \<Rightarrow> update_instance_request \<Rightarrow> task_accepted sess_act" where
  "update_instance api token iid body =
     authorized api token [operator, admin] (\<lambda>u. transact (instance_body api ''instance.update.requested'' iid
       (update_instance_handle (api_config api) (api_ids api)
          \<lparr>up_instance_id = iid, up_cpu = bu_cpu body, up_memory_mib = bu_memory_mib body,
           up_disk_gib = bu_disk_gib body, up_host_node = api_host_node api\<rparr>) u))"

definition delete_instance :: "api_env \<Rightarrow> string \<Rightarrow> uuid \<Rightarrow> task_accepted sess_act" where
  "delete_instance api token iid =
     authorized api token [operator, admin] (\<lambda>u. transact (instance_body api ''instance.delete.requested'' iid
       (delete_instance_handle (api_config api) (api_ids api) iid) u))"

definition stop_instance :: "api_env \<Rightarrow> string \<Rightarrow> uuid \<Rightarrow> task_accepted sess_act" where
  "stop_instance api token iid =
     authorized api token [operator, admin] (\<lambda>u. transact (instance_body api ''instance.stop.requested'' iid
       (stop_instance_handle (api_config api) (api_ids api) iid) u))"

definition start_instance :: "api_env \<Rightarrow> string \<Rightarrow> uuid \<Rightarrow> task_accepted sess_act" where
  "start_instance api token iid =
     authorized api token [operator, admin] (\<lambda>u. transact (instance_body api ''instance.start.requested'' iid
       (start_instance_handle (api_config api) (api_ids api) iid (api_host_node api)) u))"

section \<open>Task endpoints\<close>

definition own_task :: "user \<Rightarrow> uuid \<Rightarrow> uuid db_act" where
  "own_task u tid =
     bindM (ensure_mutation_allowed_for_user_tenant u) (\<lambda>_.
     bindM (get_task_tenant_id_or_raise tid) (\<lambda>tenant_id.
     bindM (liftM (ensure_task_access u tenant_id)) (\<lambda>_.
     bindM (lock_requests 4001) (\<lambda>_.
     returnM tenant_id))))"

definition retry_body :: "api_env \<Rightarrow> uuid \<Rightarrow> user \<Rightarrow> task_accepted db_act" where
  "retry_body api tid u =
     bindM (own_task u tid) (\<lambda>tenant_id.
     bindM (retry_task_handle (api_config api) (api_ids api) tid) (\<lambda>acc.
     bindM (audit_write (api_audit api) (request_entry ''task.retry.requested'' ''task'' tid u tenant_id
       [(''new_task_id'', JStr (uuid_str (acc_task_id acc))),
        (''instance_id'', JStr (uuid_str (acc_instance_id acc))),
        (''command'', JStr (task_command_str (acc_command acc)))])) (\<lambda>_.
     returnM acc)))"

definition retry_task :: "api_env \<Rightarrow> string \<Rightarrow> uuid \<Rightarrow> task_accepted sess_act" where
  "retry_task api token tid = authorized api token [operator, admin] (\<lambda>u. transact (retry_body api tid u))"

definition cancel_accepted ::
  "api_env \<Rightarrow> uuid \<Rightarrow> string option \<Rightarrow> user \<Rightarrow> uuid \<Rightarrow> task_accepted \<Rightarrow> task_accepted db_act" where
  "cancel_accepted api tid why u tenant_id acc =
     bindM (audit_write (api_audit api) (request_entry ''task.cancel.requested'' ''task'' tid u tenant_id
       [(''reason'', json_opt_str why),
        (''result_status'', JStr (task_status_str (acc_status acc))),
        (''instance_id'', JStr (uuid_str (acc_instance_id acc)))])) (\<lambda>_.
     bindM (if acc_status acc = canceled then
              audit_write (next_entry (api_audit api)) (request_entry ''task.cancel.completed'' ''task'' tid u tenant_id
                [(''reason'', json_opt_str why)])
            else returnM ()) (\<lambda>_.
     returnM acc))"

definition cancel_refused :: "api_env \<Rightarrow> uuid \<Rightarrow> string option \<Rightarrow> user \<Rightarrow> uuid \<Rightarrow> error \<Rightarrow> unit db_act" where
  "cancel_refused api tid why u tenant_id e =
     audit_write (api_audit api) (request_entry ''task.cancel.failed'' ''task'' tid u tenant_id
       [(''reason'', json_opt_str why), (''error_code'', json_opt_str (error_code e)),
        (''error_message'', JStr (error_text e))])"

text \<open>
  The handler raises inside the transaction: what it wrote before is in the session, and the
  handler of the exception commits it with the audit entry of the refusal.
\<close>

definition cancel_task :: "api_env \<Rightarrow> string \<Rightarrow> uuid \<Rightarrow> string option \<Rightarrow> task_accepted sess_act" where
  "cancel_task api token tid why =
     authorized api token [operator, admin] (\<lambda>u.
     bindM (db_op (own_task u tid)) (\<lambda>tenant_id.
     bindM (catchM
       (bindM (db_op (cancel_task_handle (api_config api) (api_ids api)
          \<lparr>ca_task_id = tid, ca_actor_user_id = Some (usr_id u), ca_reason = why\<rparr>)) (\<lambda>a. returnM (Inr a)))
       (\<lambda>e. if is_domain_error e
            then bindM (db_op (cancel_refused api tid why u tenant_id e)) (\<lambda>_.
                 bindM commit (\<lambda>_. returnM (Inl e)))
            else raiseM e)) (\<lambda>outcome.
     case outcome of
       Inl e \<Rightarrow> raiseM e
     | Inr acc \<Rightarrow> transact (cancel_accepted api tid why u tenant_id acc))))"

section \<open>All mutating requests\<close>

datatype vm_request =
    ReqCreate create_instance_request
  | ReqUpdate uuid update_instance_request
  | ReqDelete uuid
  | ReqStop uuid
  | ReqStart uuid
  | ReqRetry uuid
  | ReqCancel uuid "string option"

fun serve :: "api_env \<Rightarrow> string \<Rightarrow> vm_request \<Rightarrow> task_accepted sess_act" where
  "serve api token (ReqCreate body) = create_instance api token body"
| "serve api token (ReqUpdate iid body) = update_instance api token iid body"
| "serve api token (ReqDelete iid) = delete_instance api token iid"
| "serve api token (ReqStop iid) = stop_instance api token iid"
| "serve api token (ReqStart iid) = start_instance api token iid"
| "serve api token (ReqRetry tid) = retry_task api token tid"
| "serve api token (ReqCancel tid why) = cancel_task api token tid why"

section \<open>What a request may change\<close>

definition touches :: "uuid \<Rightarrow> db \<Rightarrow> db \<Rightarrow> bool" where
  \<comment> \<open>one instance and its tasks\<close>
  "touches iid d d' \<longleftrightarrow> (\<forall>k. k \<noteq> iid \<longrightarrow> inst_at d' k = inst_at d k) \<and>
     (\<forall>t x. task_at d t = Some x \<longrightarrow> task_instance_id x \<noteq> iid \<longrightarrow> task_at d' t = Some x)"

definition stays_in :: "uuid \<Rightarrow> db \<Rightarrow> db \<Rightarrow> bool" where
  \<comment> \<open>one instance of a tenant and its tasks\<close>
  "stays_in tid d d' \<longleftrightarrow> (\<exists>iid i'. touches iid d d' \<and> inst_at d' iid = Some i' \<and> inst_tenant_id i' = tid \<and>
     (\<forall>i. inst_at d iid = Some i \<longrightarrow> inst_tenant_id i = tid))"

lemma touches_refl [simp]: "touches iid d d"
  by (simp add: touches_def)

lemma audit_frame: "only_audit d1 d' \<Longrightarrow> inst_at d' = inst_at d1" "only_audit d1 d' \<Longrightarrow> task_at d' = task_at d1"
  by (simp_all add: inst_at_def task_at_def only_audit_sel fun_eq_iff)

lemma stays_in_audit: "stays_in tid d d1 \<Longrightarrow> only_audit d1 d' \<Longrightarrow> stays_in tid d d'"
  by (simp add: stays_in_def touches_def audit_frame)

lemma accepts_stays_in:
  assumes "accepts cfg ids iid c rp payload i' d r d'" "\<forall>i. inst_at d iid = Some i \<longrightarrow> inst_tenant_id i = inst_tenant_id i'"
  shows "stays_in (inst_tenant_id i') d d'"
  using assms by (auto simp: stays_in_def touches_def accepts_def writes_instance_def intro!: exI [of _ iid])

lemma create_stays_in:
  assumes "vm_inv d" "create_instance_handle cfg ids cmd d = (Inr r, d')"
  shows "stays_in (cr_tenant_id cmd) d d'"
  using create_instance_effect [OF vm_invD(1) [OF assms(1)] assms(2)] accepts_stays_in by fastforce

lemma existing_stays_in:
  assumes "inst_at d iid = Some i" "accepts cfg ids iid c rp payload i' d r d'" "enters_pending c k i i'"
  shows "stays_in (inst_tenant_id i) d d'"
proof -
  have "inst_tenant_id i' = inst_tenant_id i" using assms(3) by (simp add: enters_pending_def)
  with accepts_stays_in [OF assms(2)] assms(1) show ?thesis by simp
qed

lemma handlers_stay_in:
  assumes "vm_inv d" "inst_at d iid = Some i"
  shows "delete_instance_handle cfg ids iid d = (Inr r, d') \<Longrightarrow> stays_in (inst_tenant_id i) d d'"
    "stop_instance_handle cfg ids iid d = (Inr r, d') \<Longrightarrow> stays_in (inst_tenant_id i) d d'"
    "start_instance_handle cfg ids iid host d = (Inr r, d') \<Longrightarrow> stays_in (inst_tenant_id i) d d'"
    "update_instance_handle cfg ids cmd d = (Inr r, d') \<Longrightarrow> up_instance_id cmd = iid \<Longrightarrow> stays_in (inst_tenant_id i) d d'"
proof -
  note wf = vm_invD(1) [OF assms(1)]
  show "stays_in (inst_tenant_id i) d d'" if "delete_instance_handle cfg ids iid d = (Inr r, d')"
    using delete_instance_effect [OF wf that] assms(2) existing_stays_in by fastforce
  show "stays_in (inst_tenant_id i) d d'" if "stop_instance_handle cfg ids iid d = (Inr r, d')"
    using stop_instance_effect [OF wf that] assms(2) existing_stays_in by fastforce
  show "stays_in (inst_tenant_id i) d d'" if "start_instance_handle cfg ids iid host d = (Inr r, d')"
    using start_instance_effect [OF wf that] assms(2) existing_stays_in by fastforce
  show "stays_in (inst_tenant_id i) d d'" if "update_instance_handle cfg ids cmd d = (Inr r, d')" "up_instance_id cmd = iid"
    using update_instance_effect [OF wf that(1)] assms(2) that(2) existing_stays_in by fastforce
qed

lemma task_tenant_run:
  assumes "db_wf d" "get_task_tenant_id_or_raise tid d = (Inr k, d')"
  shows "d' = d \<and> (\<exists>t i. task_at d tid = Some t \<and> inst_at d (task_instance_id t) = Some i \<and> inst_tenant_id i = k)"
proof -
  have d': "d' = d" using task_tenant_readonly [OF assms(2)] .
  let ?ks = "[im_tenant_id i. t \<leftarrow> instance_tasks d, task_id t = tid,
             i \<leftarrow> instances d, im_id i = task_instance_id t]"
  have "(case ?ks of [] \<Rightarrow> None | tenant # _ \<Rightarrow> Some tenant) = Some k"
    using assms(2) by (simp add: get_task_tenant_id_or_raise_def task_get_tenant_id_def bindM_run
        split: option.splits)
  then have "k \<in> set ?ks" by (cases ?ks) simp_all
  then obtain t i where t: "t \<in> set (instance_tasks d)" "task_id t = tid" and i: "i \<in> set (instances d)"
    "im_id i = task_instance_id t" "k = im_tenant_id i" by (auto split: if_splits)
  have "task_at d tid = Some (to_task t)" "inst_at d (task_instance_id t) = Some (to_instance i)"
    using assms(1) row_of_unique [of task_id "instance_tasks d" t] row_of_unique [of im_id "instances d" i] t i
    by (simp_all add: db_wf_def distinct_instances_def task_at_def inst_at_def)
  then show ?thesis using d' i(3) by (intro conjI exI [of _ "to_task t"]) simp_all
qed

lemma enqueue_command_frame:
  "enqueue_command nid now topic payload tid rid k d = (Inr m, d') \<Longrightarrow>
     task_at d' = task_at d \<and> inst_at d' = inst_at d"
  by (auto simp: enqueue_command_run task_at_def inst_at_def fun_eq_iff split: option.splits)

lemma cancel_stays_in:
  assumes inv: "vm_inv d" and run: "cancel_task_handle cfg ids cmd d = (Inr r, d')"
    and t0: "task_at d (ca_task_id cmd) = Some t0" "inst_at d (task_instance_id t0) = Some i0"
  shows "stays_in (inst_tenant_id i0) d d'"
  using run
proof (cases rule: cancel_cases)
  case (queued t i u d1 t')
  obtain i i' where s: "inst_at d (task_instance_id t) = Some i" "only_instances d d1"
      "inst_at d1 = (inst_at d)(task_instance_id t \<mapsto> i')" "same_place i i'"
    by (rule revert_settles [OF inv queued(1,4)]) blast
  note w = only_instances_wf [OF vm_invD(1) [OF inv] s(2)]
  obtain x where "task_at d1 (ca_task_id cmd) = Some x"
    "task_at d' = (task_at d1)(ca_task_id cmd \<mapsto> t')" "inst_at d' = inst_at d1"
    by (rule task_update_effect [OF w(1) queued(5)])
  then show ?thesis using s t0 queued(1) w(2)
    by (auto simp: stays_in_def touches_def same_place_def intro!: exI [of _ "task_instance_id t0"])
next
  case (running t i t' d1 m payload)
  obtain x where "task_at d (ca_task_id cmd) = Some x"
    "task_at d1 = (task_at d)(ca_task_id cmd \<mapsto> t')" "inst_at d1 = inst_at d"
    by (rule task_update_effect [OF vm_invD(1) [OF inv] running(4)])
  then show ?thesis using enqueue_command_frame [OF running(6)] t0
    by (auto simp: stays_in_def touches_def intro!: exI [of _ "task_instance_id t0"])
next
  case (already t)
  then show ?thesis using t0 by (auto simp: stays_in_def intro!: exI [of _ "task_instance_id t0"])
qed

lemma retry_stays_in:
  assumes inv: "vm_inv d" and run: "retry_task_handle cfg ids tid d = (Inr r, d')"
    and t0: "task_at d tid = Some t0" "inst_at d (task_instance_id t0) = Some i0"
  shows "stays_in (inst_tenant_id i0) d d'"
  using inv run
proof (cases rule: retry_cases)
  case (1 src i requested u d1 cloned d2 m message)
  note w = vm_invD(1,2) [OF inv]
  have same: "src = t0" "i = i0" using 1(1,3) t0 by simp_all
  have id: "inst_id i = task_instance_id src" using inst_at_id [OF 1(3)] .
  obtain i1 i' where p: "inst_at d (inst_id i) = Some i1" "inst_at d1 = (inst_at d)(inst_id i \<mapsto> i')"
    "only_instances d d1" "inst_tenant_id i' = inst_tenant_id i1"
    by (rule pg_inst.apply_pending_ok [OF 1(7) [unfolded apply_pending_db_def]])
  note d1 = only_instances_wf [OF w(1) p(3)]
  note c = clone_wf [OF d1(1) 1(8)]
  show ?thesis using p t0 same id c d1(2) enqueue_command_frame [OF 1(9)]
    by (auto simp: stays_in_def touches_def intro!: exI [of _ "task_instance_id t0"])
qed

lemma enqueue_fail:
  assumes "enqueue_command nid now topic payload tid rid k d = (Inl e, d')"
  shows "\<not> is_domain_error e"
  using assms
  by (auto simp: enqueue_command_def bindM_run bindM_sql_run sql_insert_def outbox_violates_def is_domain_error_def
      split: list.splits option.splits if_splits)

lemma mark_canceled_fail:
  assumes "mark_canceled now tid n who why JNull (JStr code) (JStr msg) d = (Inl e, d')" "task_at d tid \<noteq> None"
  shows "\<not> is_domain_error e"
  using assms
  by (auto simp: mark_canceled_def bindM_run update_task_def task_t.update_one_run task_at_def is_domain_error_def
      split: option.splits if_splits)

lemma cancel_fail:
  assumes inv: "vm_inv d" and run: "cancel_task_handle cfg ids cmd d = (Inl e, d')" and e: "is_domain_error e"
  shows "d' = d"
proof (cases "task_at d (ca_task_id cmd)")
  case None
  then show ?thesis using run
    by (simp add: cancel_task_handle_def Let_def bindM_Inl_iff require_task_def bindM_task_get)
next
  case t: (Some t)
  show ?thesis
  proof (cases "inst_at d (task_instance_id t)")
    case None
    then show ?thesis using run t
      by (simp add: cancel_task_handle_def Let_def bindM_Inl_iff require_task_def bindM_task_get
          require_instance_def bindM_instance_get)
  next
    case i: (Some i)
    have id: "inst_id i = task_instance_id t" "task_id t = ca_task_id cmd"
      using inst_at_id [OF i] task_at_id [OF t] by simp_all
    show ?thesis
    proof (cases "task_stat t")
      case task_queued
      let ?rev = "revert_db (hc_inet cfg) (at_time ids) (task_instance_id t) (task_cmd t) (task_request_payload t)"
      from run t i task_queued id consider "?rev d = (Inl e, d')"
        | u d1 where "?rev d = (Inr u, d1)" "mark_canceled (at_time ids) (ca_task_id cmd) (task_attempt_count t)
             (ca_actor_user_id cmd) (ca_reason cmd) JNull (JStr ''CANCELED'')
             (JStr (str_or (ca_reason cmd) ''task canceled before execution'')) d1 = (Inl e, d')"
        by (auto simp: cancel_task_handle_def Let_def bindM_Inl_iff require_task_def bindM_task_get
            require_instance_def bindM_instance_get)
      then show ?thesis
      proof cases
        case 1
        then show ?thesis unfolding revert_db_def by (rule pg_inst.revert_fail)
      next
        case (2 u d1)
        have "only_instances d d1" by (rule revert_settles [OF inv t 2(1)]) blast
        then have "task_at d1 = task_at d" using only_instances_wf [OF vm_invD(1) [OF inv]] by blast
        then have False using mark_canceled_fail [OF 2(2)] t e by simp
        then show ?thesis ..
      qed
    next
      case task_running
      have "mark_cancel_pending (at_time ids) (ca_task_id cmd) (ca_actor_user_id cmd) (ca_reason cmd) d = (Inl e, d')"
        using run t i task_running id enqueue_fail e
        by (auto simp: cancel_task_handle_def Let_def bindM_Inl_iff require_task_def bindM_task_get
            require_instance_def bindM_instance_get)
      from pg_task.set_status_fail [of _ "MarkCancelPending _ _", unfolded apply_task_update.simps, OF this]
      show ?thesis .
    qed (use run t i in \<open>simp_all add: cancel_task_handle_def Let_def bindM_Inl_iff require_task_def
        bindM_task_get require_instance_def bindM_instance_get\<close>)
  qed
qed

section \<open>What a served request does\<close>

definition served :: "api_env \<Rightarrow> string \<Rightarrow> db \<Rightarrow> db \<Rightarrow> bool" where
  "served api token d d' \<longleftrightarrow> (\<exists>u tid. admitted api token [operator, admin] d u \<and> tenant_may_act d u \<and>
     may_touch u tid \<and> stays_in tid d d')"

lemma own_instance_run:
  "own_instance u iid d = (Inr i, d') \<Longrightarrow> d' = d \<and> inst_at d iid = Some i \<and> may_touch u (inst_tenant_id i)"
  by (auto simp: own_instance_def bindM_run instance_read_get_None split: option.splits sum.splits)

lemma create_body_run:
  assumes "create_instance_body api body u d = (Inr acc, d')"
  shows "tenant_may_act d u \<and> (\<exists>tid d1. may_touch u tid \<and>
     create_instance_handle (api_config api) (api_ids api)
       \<lparr>cr_cpu = bi_cpu body, cr_memory_mib = bi_memory_mib body, cr_disk_gib = bi_disk_gib body,
        cr_name = bi_name body, cr_host_node = api_host_node api, cr_image_id = bi_image_id body,
        cr_tenant_id = tid\<rparr> d = (Inr acc, d1) \<and> only_audit d1 d')"
  using assms
  by (auto simp: create_instance_body_def lock_requests_def log_task_def
      dest!: mutation_allowed_run create_scope audit_write_only)

lemma instance_body_run:
  assumes "instance_body api action iid handle u d = (Inr acc, d')"
  shows "tenant_may_act d u \<and> (\<exists>i d1. inst_at d iid = Some i \<and> may_touch u (inst_tenant_id i) \<and>
     handle d = (Inr acc, d1) \<and> only_audit d1 d')"
  using assms
  by (auto simp: instance_body_def lock_requests_def log_task_def
      dest!: mutation_allowed_run own_instance_run audit_write_only)

lemma own_task_run:
  assumes "db_wf d" "own_task u tid d = (Inr k, d')"
  shows "d' = d \<and> tenant_may_act d u \<and> may_touch u k \<and>
     (\<exists>t i. task_at d tid = Some t \<and> inst_at d (task_instance_id t) = Some i \<and> inst_tenant_id i = k)"
  using assms(2)
  by (auto simp: own_task_def lock_requests_def dest!: mutation_allowed_run task_tenant_run [OF assms(1)])

lemma own_task_fail: "own_task u tid d = (Inl e, d') \<Longrightarrow> d' = d"
  by (auto simp: own_task_def lock_requests_def bindM_Inl_iff dest!: mutation_allowed_run task_tenant_readonly)

lemma retry_body_run:
  assumes "db_wf d" "retry_body api tid u d = (Inr acc, d')"
  shows "tenant_may_act d u \<and> (\<exists>t i d1. task_at d tid = Some t \<and> inst_at d (task_instance_id t) = Some i \<and>
     may_touch u (inst_tenant_id i) \<and> retry_task_handle (api_config api) (api_ids api) tid d = (Inr acc, d1) \<and>
     only_audit d1 d')"
  using assms(2) by (auto simp: retry_body_def dest!: own_task_run [OF assms(1)] audit_write_only)

lemma cancel_accepted_run: "cancel_accepted api tid why u k acc d1 = (Inr x, d') \<Longrightarrow> x = acc \<and> only_audit d1 d'"
  by (auto simp: cancel_accepted_def split: if_splits dest!: audit_write_only intro: only_audit_trans)

lemma follows_audit: "follows d d1 \<Longrightarrow> only_audit d1 d' \<Longrightarrow> follows d d'"
  unfolding follows_def vm_inv_def abs_life_def
  by (auto simp: audit_frame db_wf_def distinct_instances_def outbox_inv_def only_audit_sel)

text \<open>At most one transaction of the control plane, and entries of the audit log.\<close>

definition audited :: "db \<Rightarrow> db \<Rightarrow> bool" where
  "audited d d' \<longleftrightarrow> (\<exists>d1. (d1 = d \<or> vm_step d d1) \<and> only_audit d1 d')"

lemma audited_follows: "audited d d' \<Longrightarrow> vm_inv d \<Longrightarrow> follows d d'"
  using follows_audit [OF follows_refl] follows_audit [OF vm_step_follows] by (auto simp: audited_def)

lemma servedI:
  assumes "admitted api token [operator, admin] d u" "tenant_may_act d u" "may_touch u tid" "stays_in tid d d1"
    "vm_step d d1" "only_audit d1 d'"
  shows "served api token d d' \<and> audited d d'"
  using assms stays_in_audit unfolding served_def audited_def by blast

lemma transacted:
  assumes "request (authorized api token [operator, admin] (\<lambda>u. transact (m u))) d = (r, d')"
    "\<And>u acc. admitted api token [operator, admin] d u \<Longrightarrow> m u d = (Inr acc, d') \<Longrightarrow> served api token d d' \<and> audited d d'"
  shows "case r of Inl _ \<Rightarrow> d' = d | Inr _ \<Rightarrow> served api token d d' \<and> audited d d'"
  using request_authorized [OF assms(1)] assms(2) by (cases r) (auto simp: request_transact_Inl)

lemma request_refusable:
  "request (bindM (catchM (bindM (db_op h) (\<lambda>a. returnM (Inr a)))
       (\<lambda>e. if P e then bindM (db_op (g e)) (\<lambda>_. bindM commit (\<lambda>_. returnM (Inl e))) else raiseM e))
     (\<lambda>outcome. case outcome of Inl e \<Rightarrow> raiseM e | Inr a \<Rightarrow> transact (k a))) d =
   (case h d of
      (Inr a, d1) \<Rightarrow> (case k a d1 of (Inr x, d2) \<Rightarrow> (Inr x, d2) | (Inl e, _) \<Rightarrow> (Inl e, d))
    | (Inl e, d1) \<Rightarrow>
        (if P e then (case g e d1 of (Inr _, d2) \<Rightarrow> (Inl e, d2) | (Inl x, _) \<Rightarrow> (Inl x, d)) else (Inl e, d)))"
  by (auto simp: request_def bindM_def catchM_def db_op_def transact_def open_session_def raiseM_def returnM_def
      split: prod.splits sum.splits)

lemma cancel_run:
  assumes inv: "vm_inv d" and run: "request (cancel_task api token tid why) d = (r, d')"
  shows "case r of Inl _ \<Rightarrow> d' = d \<or> logged ''task.cancel.failed'' d d'
     | Inr _ \<Rightarrow> served api token d d' \<and> audited d d'"
proof -
  have en: "en_action (request_entry a ty k u t m) = a" for a ty k u t m
    by (simp add: request_entry_def entry_def)
  show ?thesis
    using request_authorized [OF run [unfolded cancel_task_def]]
  proof (elim disjE exE conjE)
    fix u assume adm: "admitted api token [operator, admin] d u"
    let ?h = "cancel_task_handle (api_config api) (api_ids api)
      \<lparr>ca_task_id = tid, ca_actor_user_id = Some (usr_id u), ca_reason = why\<rparr>"
    let ?rest = "\<lambda>k. bindM (catchM (bindM (db_op ?h) (\<lambda>a. returnM (Inr a)))
       (\<lambda>e. if is_domain_error e then bindM (db_op (cancel_refused api tid why u k e)) (\<lambda>_.
          bindM commit (\<lambda>_. returnM (Inl e))) else raiseM e)) (\<lambda>outcome.
       case outcome of Inl e \<Rightarrow> raiseM e | Inr acc \<Rightarrow> transact (cancel_accepted api tid why u k acc))"
    assume req: "request (bindM (db_op (own_task u tid)) ?rest) d = (r, d')"
    obtain o1 d1 where own: "own_task u tid d = (o1, d1)" by (rule prod.exhaust)
    show ?thesis
    proof (cases o1)
      case (Inl e)
      then have "own_task u tid d = (Inl e, d)" using own own_task_fail by blast
      from req [unfolded request_read_fail [of "own_task u tid", OF this]] show ?thesis by auto
    next
      case (Inr k)
      note o = own_task_run [OF vm_invD(1) [OF inv] own [unfolded Inr]]
      then obtain t i where t: "task_at d tid = Some t" "inst_at d (task_instance_id t) = Some i" "inst_tenant_id i = k"
        by blast
      have own': "own_task u tid d = (Inr k, d)" using own Inr o by simp
      note req1 = req [unfolded request_read [of "own_task u tid", OF own'] request_refusable]
      obtain hr d2 where h: "?h d = (hr, d2)" by (rule prod.exhaust)
      show ?thesis
      proof (cases hr)
        case (Inl e)
        have "is_domain_error e \<Longrightarrow> d2 = d" by (rule cancel_fail [OF inv h [unfolded Inl]])
        then show ?thesis using req1 h Inl
          by (auto simp: cancel_refused_def en dest!: audit_write_logged
              split: if_splits prod.splits sum.splits)
      next
        case (Inr acc)
        note ok = h [unfolded Inr]
        show ?thesis
        proof (cases r)
          case (Inl x)
          then show ?thesis using req1 ok by (auto split: prod.splits sum.splits)
        next
          case (Inr y)
          then have "cancel_accepted api tid why u k acc d2 = (Inr y, d')"
            using req1 ok by (auto split: prod.splits sum.splits)
          then show ?thesis
            using servedI [OF adm _ _ cancel_stays_in [OF inv ok, of t i, simplified, OF t(1,2)] vm_step.cancel [OF ok]]
              cancel_accepted_run o t(3) Inr by auto
        qed
      qed
    qed
  qed auto
qed

lemma instance_request:
  assumes "request (authorized api token [operator, admin] (\<lambda>u. transact (instance_body api action iid handle u))) d = (r, d')"
    and "\<And>i x d1. inst_at d iid = Some i \<Longrightarrow> handle d = (Inr x, d1) \<Longrightarrow> stays_in (inst_tenant_id i) d d1"
    and "\<And>x d1. handle d = (Inr x, d1) \<Longrightarrow> vm_step d d1"
  shows "case r of Inl _ \<Rightarrow> d' = d \<or> logged ''task.cancel.failed'' d d' | Inr _ \<Rightarrow> served api token d d' \<and> audited d d'"
proof -
  have "served api token d d' \<and> audited d d'"
    if "admitted api token [operator, admin] d u" "instance_body api action iid handle u d = (Inr acc, d')" for u acc
    using instance_body_run [OF that(2)] servedI [OF that(1)] assms(2,3) by blast
  then have "case r of Inl _ \<Rightarrow> d' = d | Inr _ \<Rightarrow> served api token d d' \<and> audited d d'"
    by (rule transacted [OF assms(1)])
  then show ?thesis by (auto split: sum.splits)
qed

lemma serve_run:
  assumes inv: "vm_inv d" and run: "request (serve api token req) d = (r, d')"
  shows "case r of Inl _ \<Rightarrow> d' = d \<or> logged ''task.cancel.failed'' d d'
     | Inr _ \<Rightarrow> served api token d d' \<and> audited d d'"
proof -
  have weaken: ?thesis if "case r of Inl _ \<Rightarrow> d' = d | Inr _ \<Rightarrow> served api token d d' \<and> audited d d'"
    using that by (cases r) auto
  show ?thesis
  proof (cases req)
    case (ReqCreate body)
    have "served api token d d' \<and> audited d d'"
      if adm: "admitted api token [operator, admin] d u" and run: "create_instance_body api body u d = (Inr acc, d')" for u acc
    proof -
      let ?cmd = "\<lambda>tid. \<lparr>cr_cpu = bi_cpu body, cr_memory_mib = bi_memory_mib body,
        cr_disk_gib = bi_disk_gib body, cr_name = bi_name body, cr_host_node = api_host_node api,
        cr_image_id = bi_image_id body, cr_tenant_id = tid\<rparr>"
      obtain tid d1 where c: "may_touch u tid" "tenant_may_act d u"
        "create_instance_handle (api_config api) (api_ids api) (?cmd tid) d = (Inr acc, d1)" "only_audit d1 d'"
        using create_body_run [OF run] by blast
      have "stays_in tid d d1" using create_stays_in [OF inv c(3)] by simp
      then show ?thesis using servedI [OF adm c(2,1) _ vm_step.create [OF c(3)] c(4)] by blast
    qed
    then show ?thesis
      using run ReqCreate by (intro weaken transacted [of api token "create_instance_body api body"])
        (simp_all add: create_instance_def)
  next
    case (ReqCancel tid why)
    then show ?thesis using cancel_run [OF inv] run by simp
  next
    case (ReqRetry tid)
    have "served api token d d' \<and> audited d d'"
      if "admitted api token [operator, admin] d u" "retry_body api tid u d = (Inr acc, d')" for u acc
      using retry_body_run [OF vm_invD(1) [OF inv] that(2)] retry_stays_in [OF inv] vm_step.retry
        servedI [OF that(1)] by blast
    then show ?thesis
      using run ReqRetry by (intro weaken transacted [of api token "retry_body api tid"])
        (simp_all add: retry_task_def)
  next
    case (ReqUpdate iid body)
    show ?thesis
      by (rule instance_request [OF run [unfolded ReqUpdate serve.simps update_instance_def]])
        (use handlers_stay_in(4) [OF inv] vm_step.update in auto)
  next
    case (ReqDelete iid)
    show ?thesis
      by (rule instance_request [OF run [unfolded ReqDelete serve.simps delete_instance_def]])
        (use handlers_stay_in(1) [OF inv] vm_step.delete in auto)
  next
    case (ReqStop iid)
    show ?thesis
      by (rule instance_request [OF run [unfolded ReqStop serve.simps stop_instance_def]])
        (use handlers_stay_in(2) [OF inv] vm_step.stop in auto)
  next
    case (ReqStart iid)
    show ?thesis
      by (rule instance_request [OF run [unfolded ReqStart serve.simps start_instance_def]])
        (use handlers_stay_in(3) [OF inv] vm_step.start in auto)
  qed
qed

section \<open>The API as a system\<close>

text \<open>A step is a request, whatever it answers, or a step of the workers.\<close>

inductive api_step :: "db \<Rightarrow> db \<Rightarrow> bool" where
  serve: "request (serve api token req) d = (r, d') \<Longrightarrow> api_step d d'"
| background: "vm_step d d' \<Longrightarrow> api_step d d'"

lemma api_step_audited: "api_step d d' \<Longrightarrow> vm_inv d \<Longrightarrow> audited d d'"
proof (induction rule: api_step.induct)
  case (serve api token req d r d')
  from serve_run [OF serve(2,1)] show ?case
    using logged_only by (fastforce simp: audited_def split: sum.splits)
next
  case (background d d')
  then show ?case by (auto simp: audited_def)
qed

lemma api_step_follows: "api_step d d' \<Longrightarrow> vm_inv d \<Longrightarrow> follows d d'"
  by (intro audited_follows api_step_audited)

interpretation api: refinement api_step vm_start vm_inv abs_life life_step
proof (unfold_locales, goal_cases)
  case (1 s)
  then show ?case by (rule vm_start_inv)
next
  case (2 s s')
  then show ?case using api_step_follows followsD by blast
next
  case (3 s s')
  then show ?case using api_step_follows unfolding follows_def by blast
qed

text \<open>What transactions and audit entries keep, every run of the API keeps.\<close>

lemma api_steps_keep:
  assumes "vm_start d0" "api_step\<^sup>*\<^sup>* d0 d" "P d0"
    "\<And>d d'. vm_step d d' \<Longrightarrow> vm_inv d \<Longrightarrow> P d \<Longrightarrow> P d'" "\<And>d d'. only_audit d d' \<Longrightarrow> P d \<Longrightarrow> P d'"
  shows "P d"
proof (rule api.steps_preserve [where P = P, OF _ assms(2) vm_start_inv [OF assms(1)] assms(3)])
  fix s s' assume s: "vm_inv s" "api_step s s'" "P s"
  obtain s1 where "s1 = s \<or> vm_step s s1" "only_audit s1 s'"
    using api_step_audited [OF s(2,1)] by (auto simp: audited_def)
  then show "P s'" using assms(4,5) s(1,3) by blast
qed

lemma vm_steps_api: "vm_step\<^sup>*\<^sup>* d d' \<Longrightarrow> api_step\<^sup>*\<^sup>* d d'"
  by (rule rtranclp_mono [THEN predicate2D, rotated]) (auto intro: api_step.background)

text \<open>C4: a mutating request of the API succeeds only for an active user, at least an operator,
  of an active tenant, or an administrator; it changes at most one instance with its tasks, which
  belongs to a tenant he may act for, and leaves every other instance and task as it was.  A
  request that fails changes nothing, except that a refused cancel is logged.\<close>

theorem requests_stay_in_tenant:
  assumes "vm_inv d"
  shows "case request (serve api token req) d of
      (Inl _, d') \<Rightarrow> d' = d \<or> logged ''task.cancel.failed'' d d'
    | (Inr _, d') \<Rightarrow> served api token d d'"
proof -
  obtain r d' where run: "request (serve api token req) d = (r, d')" by (rule prod.exhaust)
  from serve_run [OF assms run] run show ?thesis by (cases r) auto
qed

text \<open>Whatever requests arrive with whatever tokens, interleaved in any order with the result
  processor, the stale-task monitor and the relay, the database goes through the abstract
  instance and task lifecycle and keeps its invariant.\<close>

theorem api_refines_lifecycle:
  assumes "vm_start d" "api_step\<^sup>*\<^sup>* d d'"
  shows "vm_inv d' \<and> life_step\<^sup>*\<^sup>* (abs_life d) (abs_life d')"
  using api.reachable_inv [OF assms] api.steps_simulated [OF assms(2) vm_start_inv [OF assms(1)]] by blast

text \<open>
  C3: in every reachable state an instance has at most one active task; it is in a
  pending state exactly when it has one, and then in the pending state of that task's command.
  Results are arbitrary, except that a successful update reports running, stopped or no status
  (\<open>reports_settled\<close>).
\<close>

theorem one_active_task_per_instance:
  assumes "vm_start d0" "api_step\<^sup>*\<^sup>* d0 d"
  shows "(\<forall>a b t u. task_at d a = Some t \<longrightarrow> task_at d b = Some u \<longrightarrow> task_instance_id t = task_instance_id u \<longrightarrow>
        task_active (task_stat t) \<longrightarrow> task_active (task_stat u) \<longrightarrow> a = b) \<and>
    (\<forall>iid i. inst_at d iid = Some i \<longrightarrow>
        (is_pending (inst_status i) \<longleftrightarrow> (\<exists>tid t. task_at d tid = Some t \<and> task_instance_id t = iid \<and>
           task_active (task_stat t) \<and> inst_status i = pending_status (task_cmd t))))"
  by (rule one_active_of_inv [OF api.reachable_inv [OF assms]])

theorem one_active_task_per_instance_witness:
  "\<exists>tid t. task_at example_run tid = Some t \<and> task_instance_id t = 10 \<and> task_active (task_stat t) \<and>
     inst_status example_pending = pending_status (task_cmd t)"
proof -
  have "is_pending (inst_status example_pending)" by (simp add: example_pending_def)
  with one_active_task_per_instance [OF example_start_ok vm_steps_api [OF example_steps]]
  show ?thesis using example_run_inst by blast
qed

text \<open>
  C5: what is final stays.  Along every run a deleted instance keeps its row and a
  finished task keeps its outcome, whatever late or repeated events arrive, and no instance
  moves to another tenant or host.  Results are arbitrary, except that a successful update reports
  running, stopped or no status (\<open>reports_settled\<close>).
\<close>

theorem runs_keep_final_states:
  assumes "vm_inv d" "api_step\<^sup>*\<^sup>* d d'"
  shows "finished_kept d d'"
  unfolding finished_kept_def
  using life_steps_kept [OF api.steps_simulated [OF assms(2,1), unfolded abs_life_def] vm_invD(2) [OF assms(1)]] .

theorem runs_keep_final_states_witness:
  "finished_kept example_run (snd (cancel_task_handle example_config
     (example_ids\<lparr>new_task_id := 21, new_request_id := 22, new_outbox_id := 23\<rparr>)
     \<lparr>ca_task_id = 11, ca_actor_user_id = None, ca_reason = None\<rparr> example_run))"
proof -
  let ?ids = "example_ids\<lparr>new_task_id := 21, new_request_id := 22, new_outbox_id := 23\<rparr>"
  let ?cmd = "\<lparr>ca_task_id = 11, ca_actor_user_id = None, ca_reason = None\<rparr>"
  have "map_sum (\<lambda>_. ()) acc_status (fst (cancel_task_handle example_config ?ids ?cmd example_run)) = Inr canceled"
    by code_simp
  then obtain r where "fst (cancel_task_handle example_config ?ids ?cmd example_run) = Inr r"
    by (cases "fst (cancel_task_handle example_config ?ids ?cmd example_run)") auto
  from api_step.background [OF vm_step.cancel [OF run_pair [OF this]]] show ?thesis
    by (intro runs_keep_final_states [OF example_inv r_into_rtranclp])
qed


lemma sample_vm_start: "vm_start sample_users_db"
  by (simp add: vm_start_def sample_users_db_def sample_db_def empty_db_def)

theorem requests_stay_in_tenant_witness:
  "case request (serve sample_api sample_bearer (ReqStop 9)) sample_users_db of
      (Inl _, d') \<Rightarrow> d' = sample_users_db \<or> logged ''task.cancel.failed'' sample_users_db d'
    | (Inr _, d') \<Rightarrow> served sample_api sample_bearer sample_users_db d'"
  by (rule requests_stay_in_tenant [OF vm_start_inv [OF sample_vm_start]])

theorem api_refines_lifecycle_witness:
  "let d' = snd (request (serve sample_api sample_bearer (ReqStop 9)) sample_users_db) in
     vm_inv d' \<and> life_step\<^sup>*\<^sup>* (abs_life sample_users_db) (abs_life d')"
proof -
  have "api_step\<^sup>*\<^sup>* sample_users_db (snd (request (serve sample_api sample_bearer (ReqStop 9)) sample_users_db))"
    by (intro r_into_rtranclp api_step.serve [OF prod.collapse [symmetric]])
  from api_refines_lifecycle [OF sample_vm_start this] show ?thesis by (simp add: Let_def)
qed

end
