(* ===== verification/Messaging.thy ===== *)
theory Messaging
  imports "HOL-Library.Sublist" Monitor_Loop Api_Vm
begin

text \<open>
  \<^verbatim>\<open>infra/rabbitmq.py\<close>, \<^verbatim>\<open>adapters/rabbitmq_rpc.py\<close>, the request half of
  \<^verbatim>\<open>adapters/rabbitmq_image_sync_rpc.py\<close> and the topology of
  \<^verbatim>\<open>runtime/workers/rabbitmq_result_consumer.py\<close>: the calls each makes on a connection of
  the AMQP client, in order.  The client and the broker are a parameter: \<open>answer h op\<close> is what
  the call \<open>op\<close> does after the calls \<open>h\<close> of the same connection, \<open>None\<close> when it returns
  and the text of its exception otherwise.  \<open>json.dumps\<close> is the parameter \<open>dumps\<close>.  Every
  exchange is direct and durable, every queue but the callback queue durable, every message JSON and
  persistent.
\<close>

section \<open>The calls\<close>

record amqp_message =
  am_body :: string
  am_correlation_id :: string
  am_message_id :: "string option"
  am_reply_to :: "string option"

datatype amqp_call =
    Connect
  | Open_channel bool
  | Declare_exchange string
  | Declare_queue string dict
  | Declare_callback_queue
  | Bind_queue string string string
  | Get_exchange string
  | Publish string amqp_message string
  | Close_channel
  | Close_connection

type_synonym amqp_client = "amqp_call list \<Rightarrow> amqp_call \<Rightarrow> string option"

primrec perform :: "amqp_client \<Rightarrow> amqp_call list \<Rightarrow> amqp_call list \<Rightarrow> string option \<times> amqp_call list" where
  "perform answer [] h = (None, h)"
| "perform answer (op # ops) h =
     (case answer h op of None \<Rightarrow> perform answer ops (h @ [op]) | Some e \<Rightarrow> (Some e, h @ [op]))"

text \<open>Open a connection, work on it, and close it in the \<^verbatim>\<open>finally\<close> clause.\<close>

definition on_connection ::
  "amqp_client \<Rightarrow> (amqp_call list \<Rightarrow> string option \<times> amqp_call list) \<Rightarrow> string option \<times> amqp_call list" where
  "on_connection answer body =
     (case answer [] Connect of
        Some e \<Rightarrow> (Some e, [Connect])
      | None \<Rightarrow>
          (let (raised, h) = body [Connect] in
           case answer h Close_connection of
             Some e \<Rightarrow> (Some e, h @ [Close_connection])
           | None \<Rightarrow> (raised, h @ [Close_connection])))"

section \<open>The command topology\<close>

abbreviation command_exchange :: string where "command_exchange \<equiv> ''vm.commands''"
abbreviation command_queue :: string where "command_queue \<equiv> ''vm.commands.q''"
abbreviation dead_letter_exchange :: string where "dead_letter_exchange \<equiv> ''vm.commands.dlx''"
abbreviation dead_letter_queue :: string where "dead_letter_queue \<equiv> ''vm.commands.dlq''"
abbreviation dead_letter_routing_key :: string where "dead_letter_routing_key \<equiv> ''vm.commands.dlq''"
abbreviation command_queue_ttl_ms :: int where "command_queue_ttl_ms \<equiv> 120000"

text \<open>\<^verbatim>\<open>dict.fromkeys\<close>: each key once, at its first position.\<close>

fun fromkeys :: "string list \<Rightarrow> string list" where
  "fromkeys [] = []"
| "fromkeys (k # ks) = k # filter (\<lambda>x. x \<noteq> k) (fromkeys ks)"

definition setup_vm_command_topology :: "string list \<Rightarrow> amqp_call list" where
  "setup_vm_command_topology routing_keys =
     [Declare_exchange command_exchange,
      Declare_exchange dead_letter_exchange,
      Declare_queue command_queue
        [(''x-message-ttl'', JInt command_queue_ttl_ms),
         (''x-dead-letter-exchange'', JStr dead_letter_exchange),
         (''x-dead-letter-routing-key'', JStr dead_letter_routing_key)]] @
     map (Bind_queue command_queue command_exchange) (fromkeys routing_keys) @
     [Declare_queue dead_letter_queue [],
      Bind_queue dead_letter_queue dead_letter_exchange dead_letter_routing_key]"

section \<open>Publishing a command\<close>

definition vm_routing_keys :: "string list" where
  "vm_routing_keys = [''instance.create'', ''instance.update'', ''instance.delete'', ''instance.start'',
     ''instance.stop'', ''instance.cancel'', ''image.sync'']"

definition command_message :: "(json \<Rightarrow> string) \<Rightarrow> timestamp \<Rightarrow> string \<Rightarrow> dict \<Rightarrow> uuid \<Rightarrow> uuid \<Rightarrow> amqp_message" where
  "command_message dumps now command payload tid rid =
     \<lparr>am_body = dumps (JObj
        [(''task_id'', JStr (uuid_str tid)),
         (''request_id'', JStr (uuid_str rid)),
         (''instance_id'', dget payload ''instance_id''),
         (''command'', JStr command),
         (''timestamp'', JStr (isoformat now)),
         (''payload'', JObj payload),
         (''correlation_id'', JStr (uuid_str tid))]),
      am_correlation_id = uuid_str tid, am_message_id = Some (uuid_str tid), am_reply_to = None\<rparr>"

definition publish_command ::
  "amqp_client \<Rightarrow> (json \<Rightarrow> string) \<Rightarrow> timestamp \<Rightarrow> string \<Rightarrow> dict \<Rightarrow> uuid \<Rightarrow> uuid \<Rightarrow> string option \<times> amqp_call list" where
  "publish_command answer dumps now command payload tid rid =
     on_connection answer (perform answer
       (Open_channel True # setup_vm_command_topology vm_routing_keys @
        [Get_exchange command_exchange,
         Publish command_exchange (command_message dumps now command payload tid rid) command]))"

text \<open>The relay with this adapter as its \<^verbatim>\<open>provisioning\<close> port, a client per publish.\<close>

definition rabbit_publish ::
  "(nat \<Rightarrow> amqp_client) \<Rightarrow> (json \<Rightarrow> string) \<Rightarrow> (nat \<Rightarrow> timestamp) \<Rightarrow> nat \<Rightarrow> outbox_message \<Rightarrow> string option \<times> amqp_call list" where
  "rabbit_publish clients dumps clocks n m =
     publish_command (clients n) dumps (clocks n) (ob_topic m) (ob_payload m) (ob_task_id m) (ob_request_id m)"

definition with_rabbit :: "(nat \<Rightarrow> amqp_client) \<Rightarrow> (json \<Rightarrow> string) \<Rightarrow> relay_env \<Rightarrow> relay_env" where
  "with_rabbit clients dumps env = env\<lparr>publish := \<lambda>n m. fst (rabbit_publish clients dumps (clock env) n m)\<rparr>"

section \<open>The image synchronization request\<close>

definition image_sync_message ::
  "(json \<Rightarrow> string) \<Rightarrow> timestamp \<Rightarrow> uuid \<Rightarrow> uuid \<Rightarrow> uuid \<Rightarrow> string \<Rightarrow> string \<Rightarrow> amqp_message" where
  "image_sync_message dumps now tid rid iid correlation_id callback_queue =
     \<lparr>am_body = dumps (JObj
        [(''task_id'', JStr (uuid_str tid)),
         (''request_id'', JStr (uuid_str rid)),
         (''instance_id'', JStr (uuid_str iid)),
         (''command'', JStr ''image.sync''),
         (''timestamp'', JStr (isoformat now)),
         (''payload'', JObj []),
         (''correlation_id'', JStr correlation_id)]),
      am_correlation_id = correlation_id, am_message_id = None, am_reply_to = Some callback_queue\<rparr>"

text \<open>The calls up to the wait for replies; the broker chooses the name of the callback queue.\<close>

definition request_image_sync ::
  "(json \<Rightarrow> string) \<Rightarrow> timestamp \<Rightarrow> uuid \<Rightarrow> uuid \<Rightarrow> uuid \<Rightarrow> string \<Rightarrow> string \<Rightarrow> amqp_call list" where
  "request_image_sync dumps now tid rid iid correlation_id callback_queue =
     Open_channel False # setup_vm_command_topology [''image.sync''] @
     [Get_exchange command_exchange,
      Declare_callback_queue,
      Publish command_exchange (image_sync_message dumps now tid rid iid correlation_id callback_queue) ''image.sync'']"

section \<open>The result topology\<close>

definition declare_results :: "amqp_call list" where
  "declare_results =
     [Declare_exchange ''vm.results'',
      Declare_exchange ''vm.results.dlx'',
      Declare_queue ''main-api.vm-results.q''
        [(''x-dead-letter-exchange'', JStr ''vm.results.dlx''),
         (''x-dead-letter-routing-key'', JStr ''main-api.vm-results.dlq'')],
      Bind_queue ''main-api.vm-results.q'' ''vm.results'' ''instance.result'',
      Declare_queue ''main-api.vm-results.dlq'' [],
      Bind_queue ''main-api.vm-results.dlq'' ''vm.results.dlx'' ''main-api.vm-results.dlq'']"

section \<open>What a publish did\<close>

lemma perform_returns:
  "perform answer ops h = (None, h') \<Longrightarrow> h' = h @ ops"
  by (induction ops arbitrary: h) (force split: option.splits)+

lemma perform_prefix: "\<exists>made. snd (perform answer ops h) = h @ made \<and> prefix made ops"
proof (induction ops arbitrary: h)
  case (Cons op ops)
  show ?case
  proof (cases "answer h op")
    case None
    obtain made where "snd (perform answer ops (h @ [op])) = (h @ [op]) @ made" "prefix made ops"
      using Cons.IH by blast
    then show ?thesis using None by (intro exI [of _ "op # made"]) simp
  next
    case (Some e)
    then show ?thesis by (intro exI [of _ "[op]"]) simp
  qed
qed simp

lemma on_connection_returns:
  "on_connection answer (perform answer ops) = (None, h) \<Longrightarrow> h = Connect # ops @ [Close_connection]"
  by (auto simp: on_connection_def split: option.splits prod.splits dest: perform_returns)

lemma connection_closed:
  assumes "on_connection answer (perform answer ops) = (raised, h)"
  shows "answer [] Connect \<noteq> None \<and> h = [Connect] \<or>
    (\<exists>made. h = Connect # made @ [Close_connection] \<and> prefix made ops)"
proof (cases "answer [] Connect")
  case None
  then show ?thesis using assms perform_prefix [of answer ops "[Connect]"]
    by (auto simp: on_connection_def split: option.splits prod.splits)
qed (use assms in \<open>auto simp: on_connection_def\<close>)

lemma set_fromkeys [simp]: "set (fromkeys ks) = set ks"
  by (induction ks) auto

lemma distinct_fromkeys: "distinct (fromkeys ks)"
  by (induction ks) auto

lemma topology_binds:
  "Bind_queue command_queue command_exchange k \<in> set (setup_vm_command_topology ks) \<longleftrightarrow> k \<in> set ks"
  by (auto simp: setup_vm_command_topology_def)

section \<open>Every command has a route\<close>

definition routed :: "db \<Rightarrow> bool" where
  "routed d \<longleftrightarrow> (\<forall>m \<in> set (command_outbox d). ob_topic m \<in> set vm_routing_keys)"

lemma command_topic [simp]: "''instance.'' @ task_command_str c \<in> set vm_routing_keys"
  by (cases c) (simp_all add: vm_routing_keys_def)

lemma cancel_topic [simp]: "''instance.cancel'' \<in> set vm_routing_keys"
  by (simp add: vm_routing_keys_def)

lemma routed_outbox: "command_outbox d' = command_outbox d \<Longrightarrow> routed d' = routed d"
  by (simp add: routed_def)

lemma routed_keys: "routed d \<longleftrightarrow> (\<forall>(tid, topic, rid) \<in> set (map command_key (command_outbox d)). topic \<in> set vm_routing_keys)"
  by (simp add: routed_def command_key_def)

lemma routed_same_messages: "same_messages d d' \<Longrightarrow> routed d' = routed d"
  by (simp only: routed_keys same_messages_def)

lemma routed_enqueue:
  assumes "enqueue_command nid now topic payload tid rid k d = (Inr m, d')" "topic \<in> set vm_routing_keys" "routed d"
  shows "routed d'"
proof (cases "row_of command_key (tid, topic, rid) (command_outbox d)")
  case None
  then have "command_outbox d' = command_outbox d @ [new_outbox_row nid now topic payload tid rid k]"
    using assms(1) by (simp add: enqueue_command_run)
  then show ?thesis using assms(2,3) by (simp add: routed_def new_outbox_row_def)
next
  case (Some r)
  then have "map command_key (command_outbox d') = map command_key (command_outbox d)"
    using assms(1) by (simp add: enqueue_command_run map_update_where_key command_key_def)
  then show ?thesis using assms(3) by (simp only: routed_keys)
qed

lemma outbox_at_mem:
  assumes "vm_inv d" shows "m \<in> set (command_outbox d) \<longleftrightarrow> outbox_at d (ob_id m) = Some m"
proof -
  have "distinct (map ob_id (command_outbox d))" using vm_inv_outbox [OF assms] by (simp add: outbox_inv_def)
  then show ?thesis using row_of_unique [of ob_id "command_outbox d" m]
    by (auto simp: outbox_at_def dest: row_of_SomeD)
qed

lemma routed_accepts:
  assumes "accepts cfg ids iid c rp payload i d r d'" "vm_inv d" "vm_inv d'" "routed d"
  shows "routed d'"
proof -
  have o: "outbox_at d' = (outbox_at d)(new_outbox_id ids \<mapsto>
       new_outbox_row (new_outbox_id ids) (at_time ids) (''instance.'' @ task_command_str c) payload
         (new_task_id ids) (new_request_id ids) (hc_outbox_max_attempts cfg))"
    using assms(1) by (simp add: accepts_def)
  show ?thesis unfolding routed_def
  proof
    fix m assume "m \<in> set (command_outbox d')"
    then have m: "outbox_at d' (ob_id m) = Some m" using outbox_at_mem [OF assms(3)] by simp
    show "ob_topic m \<in> set vm_routing_keys"
    proof (cases "ob_id m = new_outbox_id ids")
      case True
      then have "ob_topic m = ''instance.'' @ task_command_str c" using m o by (auto simp: new_outbox_row_def)
      then show ?thesis by (simp only: command_topic)
    next
      case False
      then have "m \<in> set (command_outbox d)" using m o outbox_at_mem [OF assms(2)] by simp
      then show ?thesis using assms(4) by (simp add: routed_def)
    qed
  qed
qed

lemma task_update_outbox:
  "apply_task_update now op tid d = (Inr t', d') \<Longrightarrow> command_outbox d' = command_outbox d"
  using pg_task.set_status_ok only_tasks_frame by blast

lemma revert_outbox:
  assumes "vm_inv d" "task_at d tid = Some t"
    "revert_db inet now (task_instance_id t) (task_cmd t) (task_request_payload t) d = (Inr u, d1)"
  shows "command_outbox d1 = command_outbox d"
proof -
  obtain i' where "only_instances d d1"
    by (rule revert_settles [OF assms]) blast
  then show ?thesis using only_instances_frame by blast
qed

lemma process_outbox:
  assumes inv: "vm_inv d" and run: "process inet now ev d = (Inr u, d')" and settled: "reports_settled d ev"
  shows "command_outbox d' = command_outbox d"
proof (cases "\<exists>t. task_at d (ev_task_id ev) = Some t \<and> task_active (task_stat t)")
  case False
  then have "d' = d" using process_idle [OF run] by (auto simp: task_terminal_not_active)
  then show ?thesis by simp
next
  case True
  then obtain t where t: "task_at d (ev_task_id ev) = Some t" "task_active (task_stat t)" by blast
  from run t show ?thesis
  proof (cases rule: process_found)
    case (started t')
    show ?thesis by (rule task_update_outbox [OF started(3)])
  next
    case (succeeded v d1 t')
    have "only_instances d d1"
      by (rule handle_success_ok [OF succeeded(2) reports_settledD [OF settled t(1) succeeded(1)]])
    then show ?thesis using task_update_outbox [OF succeeded(3)] only_instances_frame by metis
  next
    case (canceled v d1 t')
    show ?thesis using task_update_outbox [OF canceled(3)] revert_outbox [OF inv t(1) canceled(2)] by simp
  next
    case (failed v d1 t')
    show ?thesis using task_update_outbox [OF failed(3)] revert_outbox [OF inv t(1) failed(2)] by simp
  qed simp
qed

lemma cancel_routed:
  assumes inv: "vm_inv d" and run: "cancel_task_handle cfg ids cmd d = (Inr r, d')" and "routed d"
  shows "routed d'"
  using run
proof (cases rule: cancel_cases)
  case (queued t i u d1 t')
  then show ?thesis
    using task_update_outbox [OF queued(5)] revert_outbox [OF inv queued(1,4)] assms(3) routed_outbox by metis
next
  case (running t i t' d1 m payload)
  have "routed d1" using task_update_outbox [OF running(4)] assms(3) routed_outbox by blast
  then show ?thesis by (rule routed_enqueue [OF running(6) cancel_topic])
qed (use assms(3) in simp)

lemma retry_routed:
  assumes inv: "vm_inv d" and run: "retry_task_handle cfg ids tid d = (Inr r, d')" and "routed d"
  shows "routed d'"
  using inv run
proof (cases rule: retry_cases)
  case (1 src i requested u d1 cloned d2 m message)
  have "only_instances d d1" by (rule pg_inst.apply_pending_ok [OF 1(7) [unfolded apply_pending_db_def]])
  then have "command_outbox d1 = command_outbox d" using only_instances_frame by blast
  moreover have "command_outbox d2 = command_outbox d1"
    using 1(8) by (auto simp: clone_for_retry_def sql_insert_def split: option.splits)
  ultimately have "routed d2" using assms(3) routed_outbox by metis
  then show ?thesis by (rule routed_enqueue [OF 1(9) command_topic])
qed

lemma relay_same_messages:
  assumes "vm_inv d"
  shows "claim rcfg env n d = (Inr ms, d') \<Longrightarrow> same_messages d d'"
    and "outbox_at d (ob_id m) = Some r \<Longrightarrow> still_claimed m r \<Longrightarrow>
      dispatch rcfg env n m d = (Inr u, d') \<Longrightarrow> same_messages d d'"
proof -
  assume c: "claim rcfg env n d = (Inr ms, d')"
  obtain ms' d1 where "claim rcfg env n d = (Inr ms', d1)" "same_messages d d1"
    by (rule claim_effect [OF vm_inv_outbox [OF assms]]) blast
  then show "same_messages d d'" using c by simp
next
  assume r: "outbox_at d (ob_id m) = Some r" "still_claimed m r" and run: "dispatch rcfg env n m d = (Inr u, d')"
  obtain d1 where "dispatch rcfg env n m d = (Inr (), d1)" "same_messages d d1"
    by (rule dispatch_effect [OF vm_inv_outbox [OF assms] r])
  then show "same_messages d d'" using run by simp
qed

lemma vm_step_routed:
  assumes step: "vm_step d d'" and inv: "vm_inv d" and ok: "routed d"
  shows "routed d'"
proof -
  have inv': "vm_inv d'" by (rule vm.step_inv [OF inv step])
  note acc = routed_accepts [OF _ inv inv' ok]
  show ?thesis using step
  proof cases
    case (create cfg ids ccmd r)
    then show ?thesis using create_instance_effect [OF vm_invD(1) [OF inv]] acc by blast
  next
    case (delete cfg ids iid r)
    then show ?thesis using delete_instance_effect [OF vm_invD(1) [OF inv]] acc by blast
  next
    case (stop cfg ids iid r)
    then show ?thesis using stop_instance_effect [OF vm_invD(1) [OF inv]] acc by blast
  next
    case (start cfg ids iid host r)
    then show ?thesis using start_instance_effect [OF vm_invD(1) [OF inv]] acc by blast
  next
    case (update cfg ids ucmd r)
    then show ?thesis using update_instance_effect [OF vm_invD(1) [OF inv]] acc by blast
  next
    case (cancel cfg ids kcmd r)
    then show ?thesis using cancel_routed [OF inv _ ok] by blast
  next
    case (retry cfg ids tid r)
    then show ?thesis using retry_routed [OF inv _ ok] by blast
  next
    case (event inet now ev u)
    then show ?thesis using process_outbox [OF inv] routed_outbox ok by blast
  next
    case (sweep inet now timeout n)
    then show ?thesis using sweep_outbox [OF inv] routed_outbox ok by blast
  next
    case (relay_claim rcfg env k ms)
    then show ?thesis using relay_same_messages(1) [OF inv] routed_same_messages ok by blast
  next
    case (relay_dispatch m r' rcfg env k v)
    then show ?thesis using relay_same_messages(2) [OF inv] routed_same_messages ok by blast
  qed
qed

lemma reachable_routed:
  assumes "vm_start d0" "api_step\<^sup>*\<^sup>* d0 d"
  shows "routed d"
proof (rule api_steps_keep [where P = routed, OF assms])
  show "routed d0" using assms(1) by (simp add: vm_start_def routed_def)
  show "only_audit s s' \<Longrightarrow> routed s \<Longrightarrow> routed s'" for s s'
    by (auto simp: only_audit_def routed_def)
qed (rule vm_step_routed)

lemma sent_row: "ob_status (dispatched_row cfg env n m r) = sent \<Longrightarrow> publish env n m = None"
  by (auto simp: dispatched_row_def split: option.splits if_splits)

text \<open>
  C21: a command that the relay records as sent has reached its queue's exchange: the
  connection declared the topology, bound the routing key of this very topic to the command
  queue, and only then published the message, with the task's id, on that key; whichever request,
  cancel or retry put it in the outbox, and whatever else ran since (a successful update
  having reported running, stopped or no status).
\<close>

theorem sent_command_was_routed:
  assumes "vm_start d0" "api_step\<^sup>*\<^sup>* d0 d" "outbox_at d (ob_id m) = Some r" "still_claimed m r"
    "command_key m = command_key r"
    "dispatch cfg (with_rabbit clients dumps env) n m d = (Inr u, d')"
    "outbox_at d' (ob_id m) = Some q" "ob_status q = sent"
  shows "\<exists>made msg. snd (rabbit_publish clients dumps (clock env) n m) =
      made @ [Publish command_exchange msg (ob_topic m), Close_connection] \<and>
    Bind_queue command_queue command_exchange (ob_topic m) \<in> set made \<and>
    am_message_id msg = Some (uuid_str (ob_task_id r))"
proof -
  let ?env = "with_rabbit clients dumps env"
  let ?msg = "command_message dumps (clock env n) (ob_topic m) (ob_payload m) (ob_task_id m) (ob_request_id m)"
  have inv: "vm_inv d" by (rule api.reachable_inv [OF assms(1,2)])
  obtain d1 where "dispatch cfg ?env n m d = (Inr (), d1)"
      "outbox_at d1 = (outbox_at d)(ob_id m \<mapsto> dispatched_row cfg ?env n m r)"
    by (rule dispatch_effect [OF vm_inv_outbox [OF inv] assms(3,4)])
  then have "ob_status (dispatched_row cfg ?env n m r) = sent" using assms(6-8) by simp
  then have "publish ?env n m = None" by (rule sent_row)
  then have "fst (rabbit_publish clients dumps (clock env) n m) = None" by (simp add: with_rabbit_def)
  then obtain h where h: "rabbit_publish clients dumps (clock env) n m = (None, h)"
    by (metis prod.collapse)
  let ?made = "Connect # Open_channel True # setup_vm_command_topology vm_routing_keys @ [Get_exchange command_exchange]"
  have "snd (rabbit_publish clients dumps (clock env) n m) =
      ?made @ [Publish command_exchange ?msg (ob_topic m), Close_connection]"
    using on_connection_returns [OF h [unfolded rabbit_publish_def publish_command_def]] h by simp
  moreover have "r \<in> set (command_outbox d)"
    using assms(3) by (auto simp: outbox_at_def dest: row_of_SomeD)
  then have "ob_topic m \<in> set vm_routing_keys"
    using reachable_routed [OF assms(1,2)] assms(5) by (auto simp: routed_def command_key_def)
  then have "Bind_queue command_queue command_exchange (ob_topic m) \<in> set ?made"
    using topology_binds by simp
  moreover have "am_message_id ?msg = Some (uuid_str (ob_task_id r))"
    using assms(5) by (simp add: command_message_def command_key_def)
  ultimately show ?thesis by blast
qed

abbreviation example_relay :: relay_config where
  "example_relay \<equiv> outbox_relay 50 30 60 ''relay''"

definition example_claimed :: db where
  "example_claimed = snd (claim example_relay example_env 9 example_run)"

definition example_message_row :: outbox_message where
  "example_message_row = the (outbox_at example_claimed 13)"

theorem sent_command_was_routed_witness:
  "\<exists>made msg. snd (rabbit_publish (\<lambda>_ _ _. None) (\<lambda>_. []) (clock example_env) 9 example_message_row) =
      made @ [Publish command_exchange msg ''instance.create'', Close_connection] \<and>
    Bind_queue command_queue command_exchange ''instance.create'' \<in> set made"
proof -
  let ?env = "with_rabbit (\<lambda>_ _ _. None) (\<lambda>_. []) example_env"
  have "fst (claim example_relay example_env 9 example_run) = Inr [example_message_row]" by code_simp
  then have "vm_step example_run example_claimed"
    unfolding example_claimed_def by (rule vm_step.relay_claim [OF run_pair])
  with example_steps have steps: "vm_step\<^sup>*\<^sup>* example_start example_claimed" by (rule rtranclp.rtrancl_into_rtrancl)
  have row: "outbox_at example_claimed (ob_id example_message_row) = Some example_message_row"
      "still_claimed example_message_row example_message_row" "ob_topic example_message_row = ''instance.create''"
    by code_simp+
  have "map_option ob_status (outbox_at (snd (dispatch example_relay ?env 9 example_message_row example_claimed))
        (ob_id example_message_row)) = Some sent" "fst (dispatch example_relay ?env 9 example_message_row example_claimed) = Inr ()"
    by code_simp+
  then show ?thesis
    using sent_command_was_routed [OF example_start_ok vm_steps_api [OF steps] row(1,2) refl run_pair] row(3)
    by (fastforce simp: map_option_eq_Some)
qed

end
