(* ===== verification/Resource_Sizes.thy ===== *)
theory Resource_Sizes
  imports Messaging
begin

text \<open>
  What the database says about resources is meaningful in every reachable state: every instance has
  positive resources, every task's payload a positive specification to apply and to restore, and so
  the usage of a tenant and of a host is never negative and counts each of its instances.
\<close>

section \<open>The invariant\<close>

definition sized_payload :: "task_command \<Rightarrow> dict \<Rightarrow> bool" where
  "sized_payload c p \<longleftrightarrow>
     (c \<in> {cmd_create, cmd_update} \<longrightarrow> (\<exists>sp. positive_spec sp \<and> (\<forall>fallback. spec_of_payload p fallback = Inr sp))) \<and>
     (c \<in> {cmd_update, cmd_delete} \<longrightarrow> (\<exists>sp. positive_spec sp \<and> reverted_spec p = Inr sp))"

definition sized :: "db \<Rightarrow> bool" where
  "sized d \<longleftrightarrow> (\<forall>iid i. inst_at d iid = Some i \<longrightarrow> positive_spec (inst_spec i)) \<and>
     (\<forall>tid t. task_at d tid = Some t \<longrightarrow> sized_payload (task_cmd t) (task_request_payload t))"

lemma sizedD:
  assumes "sized d"
  shows "inst_at d iid = Some i \<Longrightarrow> positive_spec (inst_spec i)"
    "task_at d tid = Some t \<Longrightarrow> sized_payload (task_cmd t) (task_request_payload t)"
  using assms by (auto simp: sized_def)

lemma sized_inst:
  "sized d \<Longrightarrow> inst_at d' = (inst_at d)(iid \<mapsto> i) \<Longrightarrow> positive_spec (inst_spec i) \<Longrightarrow>
     task_at d' = task_at d \<Longrightarrow> sized d'"
  by (auto simp: sized_def)

lemma sized_task:
  "sized d \<Longrightarrow> task_at d' = (task_at d)(tid \<mapsto> t) \<Longrightarrow> sized_payload (task_cmd t) (task_request_payload t) \<Longrightarrow>
     inst_at d' = inst_at d \<Longrightarrow> sized d'"
  by (auto simp: sized_def)

lemma sized_same: "sized d \<Longrightarrow> abs_life d' = abs_life d \<Longrightarrow> sized d'"
  by (simp add: sized_def abs_life_def)

section \<open>Every step keeps it\<close>

lemma accepts_sized:
  assumes "sized d" "accepts cfg ids iid c rp payload i d r d'" "positive_spec (inst_spec i)" "sized_payload c rp"
  shows "sized d'"
  using assms by (auto simp: accepts_def writes_instance_def sized_def queued_task_def)

lemma task_update_sized:
  assumes "db_wf d" "sized d" "apply_task_update now op tid d = (Inr t', d')"
  shows "sized d'"
proof -
  obtain t where t: "task_at d tid = Some t" "same_request t t'" "task_at d' = (task_at d)(tid \<mapsto> t')"
      "inst_at d' = inst_at d"
    by (rule task_update_effect [OF assms(1,3)]) blast
  then show ?thesis using sized_task [OF assms(2) t(3)] sizedD(2) [OF assms(2) t(1)] by (simp add: same_request_def)
qed

lemma revert_sized:
  assumes "vm_inv d" "sized d" "task_at d tid = Some t"
    "revert_db inet now (task_instance_id t) (task_cmd t) (task_request_payload t) d = (Inr u, d1)"
  shows "sized d1"
proof -
  let ?c = "task_cmd t" and ?p = "task_request_payload t"
  obtain i i' where i: "inst_at d (task_instance_id t) = Some i"
      "inst_at d1 = (inst_at d)(task_instance_id t \<mapsto> i')" "only_instances d d1"
      "?c \<notin> {cmd_update, cmd_delete} \<Longrightarrow> inst_spec i' = inst_spec i"
      "?c \<in> {cmd_update, cmd_delete} \<Longrightarrow> reverted_spec ?p = Inr (inst_spec i')"
    by (rule pg_inst.revert_ok [OF assms(4) [unfolded revert_db_def]]) blast
  have "positive_spec (inst_spec i')"
    using i(4,5) sizedD(1) [OF assms(2) i(1)] sizedD(2) [OF assms(2,3)]
    by (cases "?c \<in> {cmd_update, cmd_delete}") (auto simp: sized_payload_def)
  then show ?thesis
    using sized_inst [OF assms(2) i(2)] only_instances_wf(2) [OF vm_invD(1) [OF assms(1)] i(3)] by blast
qed

text \<open>A revert, then an update of the task.\<close>

lemma settled_sized:
  assumes "vm_inv d" "sized d" "task_at d tid = Some t"
    "revert_db inet now (task_instance_id t) (task_cmd t) (task_request_payload t) d = (Inr u, d1)"
    "apply_task_update now' op tid d1 = (Inr t', d')"
  shows "sized d'"
proof -
  obtain i where "only_instances d d1" by (rule revert_settles [OF assms(1,3,4)]) blast
  then have "db_wf d1" by (rule only_instances_wf(1) [OF vm_invD(1) [OF assms(1)]])
  then show ?thesis using task_update_sized revert_sized [OF assms(1-4)] assms(5) by blast
qed

lemma process_sized:
  assumes inv: "vm_inv d" and ok: "sized d" and run: "process inet now ev d = (Inr u, d')" and settled: "reports_settled d ev"
  shows "sized d'"
proof (cases "\<exists>t. task_at d (ev_task_id ev) = Some t \<and> task_active (task_stat t)")
  case False
  then have "d' = d" using process_idle [OF run] by (auto simp: task_terminal_not_active)
  then show ?thesis using ok by simp
next
  case True
  then obtain t where t: "task_at d (ev_task_id ev) = Some t" "task_active (task_stat t)" by blast
  note wf = vm_invD(1) [OF inv]
  from run t show ?thesis
  proof (cases rule: process_found)
    case running
    then show ?thesis using ok by simp
  next
    case (started t')
    show ?thesis by (rule task_update_sized [OF wf ok started(3)])
  next
    case (succeeded v d1 t')
    obtain i i' where i: "inst_at d (task_instance_id t) = Some i" "only_instances d d1"
        "inst_at d1 = (inst_at d)(task_instance_id t \<mapsto> i')" "inst_spec i' = inst_spec i"
      by (rule handle_success_ok [OF succeeded(2) reports_settledD [OF settled t(1) succeeded(1)]]) blast
    note w = only_instances_wf [OF wf i(2)]
    have "sized d1" using sized_inst [OF ok i(3)] sizedD(1) [OF ok i(1)] i(4) w(2) by simp
    then show ?thesis by (rule task_update_sized [OF w(1) _ succeeded(3)])
  next
    case (canceled v d1 t')
    show ?thesis by (rule settled_sized [OF inv ok t(1) canceled(2,3)])
  next
    case (failed v d1 t')
    show ?thesis by (rule settled_sized [OF inv ok t(1) failed(2,3)])
  qed
qed

lemma cancel_sized:
  assumes inv: "vm_inv d" and ok: "sized d" and run: "cancel_task_handle cfg ids cmd d = (Inr r, d')"
  shows "sized d'"
  using run
proof (cases rule: cancel_cases)
  case (queued t i u d1 t')
  show ?thesis by (rule settled_sized [OF inv ok queued(1,4,5)])
next
  case (running t i t' d1 m payload)
  have "sized d1" by (rule task_update_sized [OF vm_invD(1) [OF inv] ok running(4)])
  moreover have "db_wf d1" by (rule task_update_effect [OF vm_invD(1) [OF inv] running(4)])
  moreover have "task_at d1 (ca_task_id cmd) \<noteq> None"
    by (rule task_update_effect [OF vm_invD(1) [OF inv] running(4)]) simp
  ultimately show ?thesis using sized_same enqueue_wf(2) [OF _ running(6)] by blast
qed (use ok in simp)

lemma retry_sized:
  assumes inv: "vm_inv d" and ok: "sized d" and run: "retry_task_handle cfg ids tid d = (Inr r, d')"
  shows "sized d'"
  using inv run
proof (cases rule: retry_cases)
  case (1 src i requested u d1 cloned d2 m message)
  let ?c = "task_cmd src" and ?p = "task_request_payload src"
  have id: "inst_id i = task_instance_id src" using inst_at_id [OF 1(3)] .
  obtain i0 i' where p: "inst_at d (inst_id i) = Some i0" "inst_at d1 = (inst_at d)(inst_id i \<mapsto> i')"
    "only_instances d d1"
    "if ?c \<in> {cmd_create, cmd_update} then spec_of_payload ?p (inst_spec i) = Inr (inst_spec i')
     else inst_spec i' = inst_spec i0"
    by (rule pg_inst.apply_pending_ok [OF 1(7) [unfolded apply_pending_db_def]])
  note w = only_instances_wf [OF vm_invD(1) [OF inv] p(3)]
  have sp: "sized_payload ?c ?p" by (rule sizedD(2) [OF ok 1(1)])
  have "positive_spec (inst_spec i')"
    using p(4) sp sizedD(1) [OF ok p(1)]
    by (cases "?c \<in> {cmd_create, cmd_update}") (auto simp: sized_payload_def)
  then have "sized d1" by (rule sized_inst [OF ok p(2) _ w(2)])
  moreover note c = clone_wf [OF w(1) 1(8)]
  ultimately have "sized d2" using sized_task [OF _ c(3) _ c(4)] sp c(7,9) by simp
  moreover have "task_at d2 (task_id cloned) \<noteq> None" using c by simp
  ultimately show ?thesis using sized_same enqueue_wf(2) [OF c(1) 1(9)] by blast
qed

lemma fail_all_stale_sized:
  "vm_inv d \<Longrightarrow> sized d \<Longrightarrow> fail_all_stale inet now limit n tids d = (Inr k, d') \<Longrightarrow> sized d'"
proof (induction tids arbitrary: n d)
  case (Cons tid tids)
  obtain hit d1 where d1: "fail_stale inet now limit tid d = (Inr hit, d1)"
      "fail_all_stale inet now limit (if hit then n + 1 else n) tids d1 = (Inr k, d')"
    using Cons.prems(3) by auto
  have "sized d1" using d1(1)
  proof (cases rule: fail_stale_cases)
    case skip
    then show ?thesis using Cons.prems(2) by simp
  next
    case (failed t u d2 t')
    show ?thesis by (rule settled_sized [OF Cons.prems(1,2) failed(2,4,5)])
  qed
  then show ?case
    using Cons.IH [OF followsD [OF fail_stale_follows [OF Cons.prems(1) d1(1)]] _ d1(2)] by blast
qed simp

lemma sweep_sized:
  assumes "vm_inv d" "sized d" "sweep_once inet now timeout d = (Inr n, d')"
  shows "sized d'"
proof (cases "stale_ids (now - seconds (max 1 timeout)) d = []")
  case True
  then show ?thesis using assms(2,3) by (simp add: sweep_once_def Let_def)
next
  case False
  then have "fail_all_stale inet now (max 1 timeout) 0 (stale_ids (now - seconds (max 1 timeout)) d) d = (Inr n, d')"
    using assms(3) by (auto simp: sweep_once_def Let_def split: prod.splits sum.splits)
  then show ?thesis by (rule fail_all_stale_sized [OF assms(1,2)])
qed

lemma command_sized:
  assumes inv: "vm_inv d" and ok: "sized d"
  shows "create_instance_handle cfg ids ccmd d = (Inr r, d') \<Longrightarrow> sized d'"
    and "delete_instance_handle cfg ids iid d = (Inr r, d') \<Longrightarrow> sized d'"
    and "stop_instance_handle cfg ids iid d = (Inr r, d') \<Longrightarrow> sized d'"
    and "start_instance_handle cfg ids iid host d = (Inr r, d') \<Longrightarrow> sized d'"
    and "update_instance_handle cfg ids ucmd d = (Inr r, d') \<Longrightarrow> sized d'"
proof -
  note wf = vm_invD(1) [OF inv]
  show "sized d'" if run: "create_instance_handle cfg ids ccmd d = (Inr r, d')"
  proof -
    obtain i rp payload where "accepts cfg ids (new_instance_id ids) cmd_create rp payload i d r d'"
        "positive_spec (inst_spec i)" "\<forall>fallback. spec_of_payload rp fallback = Inr (inst_spec i)"
      using create_instance_effect [OF wf run] by blast
    then show ?thesis using accepts_sized [OF ok] by (simp add: sized_payload_def)
  qed
  show "sized d'" if run: "delete_instance_handle cfg ids iid d = (Inr r, d')"
  proof -
    obtain i i' rp payload where i: "inst_at d iid = Some i" "enters_pending cmd_delete (new_task_id ids) i i'"
        "accepts cfg ids iid cmd_delete rp payload i' d r d'" "reverted_spec rp = Inr (inst_spec i)"
      using delete_instance_effect [OF wf run] by blast
    then show ?thesis
      using accepts_sized [OF ok i(3)] sizedD(1) [OF ok i(1)] by (simp add: sized_payload_def enters_pending_def)
  qed
  show "sized d'" if run: "stop_instance_handle cfg ids iid d = (Inr r, d')"
  proof -
    obtain i i' rp payload where i: "inst_at d iid = Some i" "enters_pending cmd_stop (new_task_id ids) i i'"
        "accepts cfg ids iid cmd_stop rp payload i' d r d'"
      using stop_instance_effect [OF wf run] by blast
    then show ?thesis
      using accepts_sized [OF ok i(3)] sizedD(1) [OF ok i(1)] by (simp add: sized_payload_def enters_pending_def)
  qed
  show "sized d'" if run: "start_instance_handle cfg ids iid host d = (Inr r, d')"
  proof -
    obtain i i' rp payload where i: "inst_at d iid = Some i" "enters_pending cmd_start (new_task_id ids) i i'"
        "accepts cfg ids iid cmd_start rp payload i' d r d'"
      using start_instance_effect [OF wf run] by blast
    then show ?thesis
      using accepts_sized [OF ok i(3)] sizedD(1) [OF ok i(1)] by (simp add: sized_payload_def enters_pending_def)
  qed
  show "sized d'" if run: "update_instance_handle cfg ids ucmd d = (Inr r, d')"
  proof -
    obtain i i' rp payload where i: "inst_at d (up_instance_id ucmd) = Some i" "positive_spec (inst_spec i')"
        "accepts cfg ids (up_instance_id ucmd) cmd_update rp payload i' d r d'" "reverted_spec rp = Inr (inst_spec i)"
        "\<forall>fallback. spec_of_payload rp fallback = Inr (inst_spec i')"
      using update_instance_effect [OF wf run] by blast
    then show ?thesis
      using accepts_sized [OF ok i(3,2)] sizedD(1) [OF ok i(1)] by (simp add: sized_payload_def)
  qed
qed

lemma same_messages_sized:
  assumes "same_messages d d'" "sized d"
  shows "sized d'"
proof (rule sized_same [OF assms(2)])
  have "instances d' = instances d" "instance_tasks d' = instance_tasks d"
    using only_outbox_frame assms(1) by (auto simp: same_messages_def)
  then show "abs_life d' = abs_life d" by (simp add: abs_life_def inst_at_def task_at_def fun_eq_iff)
qed

lemmas relay_sized = relay_same_messages [THEN same_messages_sized]

lemma vm_step_sized: "vm_step d d' \<Longrightarrow> vm_inv d \<Longrightarrow> sized d \<Longrightarrow> sized d'"
  by (induction rule: vm_step.induct)
     (rule command_sized cancel_sized retry_sized process_sized sweep_sized relay_sized; assumption)+

lemma start_sized: "vm_start d \<Longrightarrow> sized d"
  by (simp add: vm_start_def sized_def inst_at_def task_at_def)

lemma reachable_sized:
  assumes "vm_start d0" "api_step\<^sup>*\<^sup>* d0 d"
  shows "sized d"
proof (rule api_steps_keep [where P = sized, OF assms start_sized [OF assms(1)]])
  show "only_audit s s' \<Longrightarrow> sized s \<Longrightarrow> sized s'" for s s'
    by (rule sized_same [where d = s]) (auto simp: only_audit_def abs_life_def inst_at_def task_at_def fun_eq_iff)
qed (rule vm_step_sized)

section \<open>Usage\<close>

lemma inst_amount_nonneg: "positive_spec (inst_spec i) \<Longrightarrow> 0 \<le> inst_amount i"
  by (auto simp: inst_amount_def profile_amount_def positive_spec_def zero_amount_def less_eq_amount_def)

lemma sum_rows_bound:
  fixes f :: "'r \<Rightarrow> amount"
  assumes "\<And>m. m \<in> set ms \<Longrightarrow> 0 \<le> f m"
  shows "0 \<le> (\<Sum>m \<leftarrow> ms. if p m then f m else 0)"
    and "m \<in> set ms \<Longrightarrow> p m \<Longrightarrow> f m \<le> (\<Sum>m \<leftarrow> ms. if p m then f m else 0)"
proof -
  have nonneg: "0 \<le> (\<Sum>m \<leftarrow> xs. if p m then f m else 0)" if "set xs \<subseteq> set ms" for xs
    using that assms by (induction xs) (auto intro: add_nonneg_nonneg)
  then show "0 \<le> (\<Sum>m \<leftarrow> ms. if p m then f m else 0)" by simp
  assume m: "m \<in> set ms" "p m"
  then obtain xs ys where "ms = xs @ m # ys" by (meson split_list)
  then have "(\<Sum>m \<leftarrow> ms. if p m then f m else 0) =
      (\<Sum>m \<leftarrow> xs. if p m then f m else 0) + (f m + (\<Sum>m \<leftarrow> ys. if p m then f m else 0))"
    and "set xs \<subseteq> set ms" "set ys \<subseteq> set ms" using m by auto
  then show "f m \<le> (\<Sum>m \<leftarrow> ms. if p m then f m else 0)"
    using add_nonneg_nonneg [OF nonneg nonneg, of xs ys] by (simp add: add.left_commute)
qed

lemma sized_row:
  assumes "vm_inv d" "sized d" "m \<in> set (instances d)"
  shows "0 \<le> row_amount m"
proof -
  have "distinct (map im_id (instances d))" using vm_invD(1) [OF assms(1)] by (simp add: db_wf_def distinct_instances_def)
  then have "inst_at d (im_id m) = Some (to_instance m)"
    using row_of_unique [of im_id "instances d" m] assms(3) by (simp add: inst_at_def)
  from inst_amount_nonneg [OF sizedD(1) [OF assms(2) this]] show ?thesis by (simp add: row_amount_inst)
qed

text \<open>
  C13: in every reachable state each instance has positive CPU, memory and disk, also one that
  a failure restored or a retry set up again; the usage of a tenant and the reservations of a host are
  never negative and count every one of their instances in full.  Results are arbitrary, except that a
  successful update reports running, stopped or no status (\<open>reports_settled\<close>).
\<close>

theorem resources_stay_positive:
  assumes "vm_start d0" "api_step\<^sup>*\<^sup>* d0 d"
  shows "(\<forall>iid i. inst_at d iid = Some i \<longrightarrow> positive_spec (inst_spec i) \<and>
      inst_amount i \<le> tenant_used d (inst_tenant_id i) \<and> inst_amount i \<le> host_used d (inst_host_node i)) \<and>
    (\<forall>tid host. 0 \<le> tenant_used d tid \<and> 0 \<le> host_used d host)"
proof -
  have inv: "vm_inv d" and ok: "sized d"
    using api.reachable_inv [OF assms] reachable_sized [OF assms] by simp_all
  note bound = sum_rows_bound [OF sized_row [OF inv ok]]
  show ?thesis
  proof (intro conjI allI impI)
    fix iid i assume i: "inst_at d iid = Some i"
    then show "positive_spec (inst_spec i)" by (rule sizedD(1) [OF ok])
    obtain m where m: "m \<in> set (instances d)" "i = to_instance m"
      using i by (auto simp: inst_at_def dest: row_of_SomeD)
    then show "inst_amount i \<le> tenant_used d (inst_tenant_id i)"
      using bound(2) [where m = m and p = "\<lambda>x. im_tenant_id x = im_tenant_id m"] by (simp add: tenant_used_def row_amount_inst)
    show "inst_amount i \<le> host_used d (inst_host_node i)"
      using bound(2) [where m = m and p = "\<lambda>x. im_host_node x = im_host_node m"] m by (simp add: host_used_def row_amount_inst)
  qed (simp_all add: tenant_used_def host_used_def bound(1))
qed

theorem resources_stay_positive_witness:
  "positive_spec (inst_spec example_pending) \<and> inst_amount example_pending \<le> tenant_used example_run 1"
proof -
  have "inst_tenant_id example_pending = 1" by (simp add: example_pending_def)
  then show ?thesis
    using resources_stay_positive [OF example_start_ok vm_steps_api [OF example_steps]] example_run_inst by metis
qed

end
