(* ===== verification/Consumer_Loop.thy ===== *)
theory Consumer_Loop
  imports Api_Vm
begin

text \<open>
  The inner loop of \<^verbatim>\<open>runtime/workers/rabbitmq_result_consumer.py\<close> (\<open>_run_async\<close>):
  the messages of one channel, in the order the broker delivers them, each processed and settled
  before the next is looked at, until the stop event or a call of the client that raises.  Settling
  is a call of the AMQP client, the parameter \<open>answer\<close>: after the settlements \<open>h\<close> of
  this channel, \<open>answer h s\<close> is \<open>None\<close> when \<open>s\<close> returned and the text of its exception
  otherwise.  A message that is not settled stays with the broker, which delivers it again.
\<close>

datatype settlement = Settle_ack | Settle_reject bool

type_synonym settle_client = "settlement list \<Rightarrow> settlement \<Rightarrow> string option"

fun settlement_of :: "disposition \<Rightarrow> settlement" where
  "settlement_of Ack = Settle_ack"
| "settlement_of Requeue = Settle_reject True"
| "settlement_of DeadLetter = Settle_reject False"

text \<open>
  The acknowledgement is inside the \<^verbatim>\<open>try\<close>: when it raises, the message is rejected, its
  transaction committed all the same.  What a rejection raises leaves the loop.
\<close>

definition handle_delivery ::
  "settle_client \<Rightarrow> ('body \<Rightarrow> json option) \<Rightarrow> (string \<Rightarrow> string option) \<Rightarrow> timestamp \<Rightarrow> 'body \<Rightarrow>
     settlement list \<Rightarrow> db \<Rightarrow> string option \<times> settlement list \<times> db" where
  "handle_delivery answer loads inet now body h d =
     (let (disp, d') = consume loads inet now body d; s = settlement_of disp in
      case answer h s of
        None \<Rightarrow> (None, h @ [s], d')
      | Some e \<Rightarrow>
          if disp = Ack
          then (answer (h @ [s]) (Settle_reject False), h @ [s, Settle_reject False], d')
          else (Some e, h @ [s], d'))"

text \<open>\<open>stop k\<close>: whether the stop event is set when the \<open>k\<close>-th message arrives.\<close>

primrec consume_deliveries ::
  "(nat \<Rightarrow> bool) \<Rightarrow> settle_client \<Rightarrow> ('body \<Rightarrow> json option) \<Rightarrow> (string \<Rightarrow> string option) \<Rightarrow> nat \<Rightarrow>
     settlement list \<Rightarrow> (timestamp \<times> 'body) list \<Rightarrow> db \<Rightarrow> string option \<times> nat \<times> settlement list \<times> db" where
  "consume_deliveries stop answer loads inet k h [] d = (None, k, h, d)"
| "consume_deliveries stop answer loads inet k h (m # ms) d =
     (if stop k then (None, k, h, d)
      else case handle_delivery answer loads inet (fst m) (snd m) h d of
        (None, h', d') \<Rightarrow> consume_deliveries stop answer loads inet (Suc k) h' ms d'
      | (Some e, h', d') \<Rightarrow> (Some e, Suc k, h', d'))"

lemma handle_delivery_db: "snd (snd (handle_delivery answer loads inet now body h d)) = snd (consume loads inet now body d)"
  by (simp add: handle_delivery_def Let_def split: prod.split option.split)

text \<open>
  The session commits the messages it took, one after the other, and no others; and it takes
  all of them unless it is told to stop or the client raises.
\<close>

lemma consume_deliveries_fold:
  "consume_deliveries stop answer loads inet k h ms d = (raised, n, h', d') \<Longrightarrow>
     k \<le> n \<and> n \<le> k + length ms \<and>
     d' = fold (\<lambda>m d. snd (consume loads inet (fst m) (snd m) d)) (take (n - k) ms) d \<and>
     (raised = None \<longrightarrow> n = k + length ms \<or> stop n)"
proof (induction ms arbitrary: k h d)
  case (Cons m ms)
  show ?case
  proof (cases "stop k")
    case True
    then show ?thesis using Cons.prems by simp
  next
    case False
    obtain r h1 d1 where s: "handle_delivery answer loads inet (fst m) (snd m) h d = (r, h1, d1)"
      by (cases "handle_delivery answer loads inet (fst m) (snd m) h d")
    have d1: "d1 = snd (consume loads inet (fst m) (snd m) d)"
      using handle_delivery_db [of answer loads inet "fst m" "snd m" h d] s by simp
    show ?thesis
    proof (cases r)
      case None
      then have "consume_deliveries stop answer loads inet (Suc k) h1 ms d1 = (raised, n, h', d')"
        using Cons.prems s False by simp
      note ih = Cons.IH [OF this]
      then have "take (n - k) (m # ms) = m # take (n - Suc k) ms"
        by (simp add: Suc_diff_le take_Cons')
      then show ?thesis using ih d1 by auto
    next
      case (Some e)
      then have "raised = Some e" "n = Suc k" "d' = d1" using Cons.prems s False by simp_all
      then show ?thesis using d1 by simp
    qed
  qed
qed simp

section \<open>Settling a message\<close>

text \<open>What a message settled with the verdict \<open>s\<close> is told, after the calls \<open>h\<close>.\<close>

lemma handle_delivery_calls:
  assumes "handle_delivery answer loads inet now body h d = (raised, h', d')"
  defines "s \<equiv> settlement_of (fst (consume loads inet now body d))"
  shows "h' = h @ (if s = Settle_ack \<and> answer h s \<noteq> None then [s, Settle_reject False] else [s]) \<and>
    raised = answer (butlast h') (last h') \<and> d' = snd (consume loads inet now body d)"
proof -
  obtain disp d1 where c: "consume loads inet now body d = (disp, d1)" by fastforce
  have "s = Settle_ack \<longleftrightarrow> disp = Ack" by (cases disp) (simp_all add: s_def c)
  then show ?thesis using assms(1) c
    by (auto simp: handle_delivery_def s_def butlast_append Let_def split: option.splits if_splits)
qed

text \<open>The event of a message: \<open>None\<close> when it is none the consumer can read.\<close>

definition decoded :: "('body \<Rightarrow> json option) \<Rightarrow> timestamp \<Rightarrow> 'body \<Rightarrow> vm_result_event option" where
  "decoded loads now body =
     (case loads body of
        Some (JObj p) \<Rightarrow>
          (case fst (parse_event now p ()) of
             Inr ev \<Rightarrow> if ev_status ev \<in> set event_statuses then Some ev else None
           | Inl _ \<Rightarrow> None)
      | _ \<Rightarrow> None)"

lemma parse_event_reads: "parse_event now p s = (fst (parse_event now p ()), s)"
  by (simp add: parse_event_def bindM_run split: sum.split)

lemma uuid_of_json_errors: "uuid_of_json v = Inl e \<Longrightarrow> disposition_of e = DeadLetter"
  by (cases v) (auto simp: uuid_of_string_def Let_def split: if_splits option.splits)

lemma py_int_errors: "py_int v = Inl e \<Longrightarrow> disposition_of e = DeadLetter"
  by (cases v) (auto split: option.splits)

lemma event_time_errors: "event_time now ts = Inl e \<Longrightarrow> disposition_of e = DeadLetter"
  by (auto simp: event_time_def split: if_splits json.splits option.splits)

lemma dict_item_errors: "dict_item p k = Inl e \<Longrightarrow> disposition_of e = DeadLetter"
  by (auto simp: dict_item_def split: option.splits)

lemma parse_event_errors: "fst (parse_event now p s) = Inl e \<Longrightarrow> disposition_of e = DeadLetter"
  by (auto simp: parse_event_def bindM_run split: sum.splits
    dest: uuid_of_json_errors py_int_errors event_time_errors dict_item_errors)

lemma consume_decoded:
  "consume loads inet now body d =
     (case decoded loads now body of
        None \<Rightarrow> (DeadLetter, d)
      | Some ev \<Rightarrow> (case process inet now ev d of (Inr _, d') \<Rightarrow> (Ack, d') | (Inl e, _) \<Rightarrow> (disposition_of e, d)))"
proof (cases "\<exists>p. loads body = Some (JObj p)")
  case False
  then show ?thesis
    by (auto simp: consume_def decoded_def process_message_def bindM_run split: option.split json.split)
next
  case True
  then obtain p where p: "loads body = Some (JObj p)" by blast
  show ?thesis
  proof (cases "fst (parse_event now p ())")
    case (Inl e)
    have "process_message inet now (JObj p) d = (Inl e, d)"
      using parse_event_reads [of now p d] Inl by (simp add: process_message_def bindM_run bindM_fail)
    then show ?thesis using p Inl parse_event_errors [OF Inl] by (simp add: consume_def decoded_def)
  next
    case (Inr ev)
    have "process_message inet now (JObj p) d = process inet now ev d"
      using parse_event_reads [of now p d] Inr by (simp add: process_message_def bindM_run bindM_step)
    moreover have "\<exists>e. process inet now ev d = (Inl e, d) \<and> disposition_of e = DeadLetter"
      if "ev_status ev \<notin> set event_statuses"
      using that by (simp add: process_def bindM_run)
    ultimately show ?thesis using p Inr by (auto simp: consume_def decoded_def)
  qed
qed

lemma process_missing:
  assumes "ev_status ev \<in> set event_statuses" "task_at d (ev_task_id ev) = None"
  shows "process inet now ev d =
    (case ev_timestamp ev of
       Naive _ \<Rightarrow> (Inl (TypeError ''cannot subtract offset-naive and offset-aware datetimes''), d)
     | Aware a \<Rightarrow>
         if now - a < seconds 60
         then (Inl (RetryableResultEventError (''task '' @ uuid_str (ev_task_id ev) @ '' not yet visible'')), d)
         else (Inr (), d))"
  using assms hashable_statuses [OF assms(1)]
  by (simp add: process_def bindM_run bindM_task_get recent_def split: py_datetime.split)

text \<open>What processing an event made of its task, and the verdict on its message.\<close>

lemma process_verdict:
  assumes inv: "vm_inv d" and settled: "reports_settled d ev" and t: "task_at d (ev_task_id ev) = Some t"
    "task_active (task_stat t)"
  shows "(\<exists>t' d1. process inet now ev d = (Inr (), d1) \<and> task_at d1 (ev_task_id ev) = Some t' \<and> same_request t t' \<and>
      (if ev_status ev = JStr ''running'' then task_stat t' = (if task_stat t = cancel_pending then cancel_pending else task_running)
       else JStr (task_status_str (task_stat t')) = ev_status ev)) \<or>
    (\<exists>e. fst (process inet now ev d) = Inl e)"
proof (cases "fst (process inet now ev d)")
  case (Inr u)
  then obtain d1 where run: "process inet now ev d = (Inr (), d1)" by (cases "process inet now ev d") auto
  have "\<exists>t'. task_at d1 (ev_task_id ev) = Some t' \<and> same_request t t' \<and>
      (if ev_status ev = JStr ''running'' then task_stat t' = (if task_stat t = cancel_pending then cancel_pending else task_running)
       else JStr (task_status_str (task_stat t')) = ev_status ev)"
  proof (cases "ev_status ev = JStr ''running''")
    case True
    from run t show ?thesis
    proof (cases rule: process_found)
      case running
      then show ?thesis using t by (auto simp: same_request_def)
    next
      case (started t')
      then show ?thesis using pg_task.set_status_ok [OF started(3)] t by auto
    qed (use True in auto)
  next
    case False
    then show ?thesis using process_finishes [OF run t False inv settled] by auto
  qed
  then show ?thesis using run by blast
qed blast

text \<open>
  C17: what becomes of a message.  It is told its verdict once, and a rejection after an
  acknowledgement that raised, whatever was committed; what the last of these calls raises ends
  the iteration.  A message that is no event is rejected; an event of an unknown task is requeued
  while it is younger than a minute, and acknowledged afterwards; that of a finished task is
  acknowledged; neither changes the database.  That of an active task is acknowledged exactly when its
  transaction commits, its task then having the reported status, and otherwise settled as the error
  says, the database being as before.  (A successful update's result reports running,
  stopped or no status.)
\<close>

theorem delivery_settled:
  assumes "vm_inv d" "handle_delivery answer loads inet now body h d = (raised, h', d')"
    "\<And>ev. decoded loads now body = Some ev \<Longrightarrow> reports_settled d ev"
  shows "\<exists>s. h' = h @ (if s = Settle_ack \<and> answer h s \<noteq> None then [s, Settle_reject False] else [s]) \<and>
    raised = answer (butlast h') (last h') \<and>
    (case decoded loads now body of
       None \<Rightarrow> s = Settle_reject False \<and> d' = d
     | Some ev \<Rightarrow>
         (case task_at d (ev_task_id ev) of
            None \<Rightarrow> d' = d \<and> s = (case ev_timestamp ev of
                Naive _ \<Rightarrow> Settle_reject False
              | Aware a \<Rightarrow> if now - a < seconds 60 then Settle_reject True else Settle_ack)
          | Some t \<Rightarrow>
              if task_terminal (task_stat t) then s = Settle_ack \<and> d' = d
              else if s = Settle_ack
              then \<exists>t'. process inet now ev d = (Inr (), d') \<and> task_at d' (ev_task_id ev) = Some t' \<and>
                same_request t t' \<and>
                (if ev_status ev = JStr ''running''
                 then task_stat t' = (if task_stat t = cancel_pending then cancel_pending else task_running)
                 else JStr (task_status_str (task_stat t')) = ev_status ev)
              else d' = d \<and> (\<exists>e. fst (process inet now ev d) = Inl e \<and> s = settlement_of (disposition_of e))))"
proof -
  let ?s = "settlement_of (fst (consume loads inet now body d))"
  note calls = handle_delivery_calls [OF assms(2)]
  have acks: "settlement_of x = Settle_ack \<longleftrightarrow> x = Ack" for x by (cases x) simp_all
  have never: "disposition_of e \<noteq> Ack" for e by (cases e) simp_all
  show ?thesis
  proof (intro exI [of _ ?s] conjI)
    show "case decoded loads now body of
       None \<Rightarrow> ?s = Settle_reject False \<and> d' = d
     | Some ev \<Rightarrow>
         (case task_at d (ev_task_id ev) of
            None \<Rightarrow> d' = d \<and> ?s = (case ev_timestamp ev of
                Naive _ \<Rightarrow> Settle_reject False
              | Aware a \<Rightarrow> if now - a < seconds 60 then Settle_reject True else Settle_ack)
          | Some t \<Rightarrow>
              if task_terminal (task_stat t) then ?s = Settle_ack \<and> d' = d
              else if ?s = Settle_ack
              then \<exists>t'. process inet now ev d = (Inr (), d') \<and> task_at d' (ev_task_id ev) = Some t' \<and>
                same_request t t' \<and>
                (if ev_status ev = JStr ''running''
                 then task_stat t' = (if task_stat t = cancel_pending then cancel_pending else task_running)
                 else JStr (task_status_str (task_stat t')) = ev_status ev)
              else d' = d \<and> (\<exists>e. fst (process inet now ev d) = Inl e \<and> ?s = settlement_of (disposition_of e)))"
    proof (cases "decoded loads now body")
      case None
      then show ?thesis using calls by (simp add: consume_decoded)
    next
      case (Some ev)
      then have st: "ev_status ev \<in> set event_statuses"
        by (auto simp: decoded_def split: option.splits json.splits sum.splits if_splits)
      show ?thesis
      proof (cases "task_at d (ev_task_id ev)")
        case None
        then show ?thesis using calls Some process_missing [OF st None, of inet now]
          by (simp add: consume_decoded split: py_datetime.split)
      next
        case t: (Some t)
        show ?thesis
        proof (cases "task_terminal (task_stat t)")
          case True
          then show ?thesis using calls Some t process_terminal [OF st t True, of inet now] by (simp add: consume_decoded)
        next
          case False
          then have "task_active (task_stat t)" by (simp add: task_terminal_not_active)
          from process_verdict [OF assms(1) assms(3) [OF Some] t this, of inet now] show ?thesis
            using calls Some t False acks never by (auto simp: consume_decoded split: prod.splits sum.splits)
        qed
      qed
    qed
  qed (use calls in simp_all)
qed

section \<open>Late and repeated events\<close>

text \<open>
  C10: once the final result of a task has been processed, every later event of that task
  is acknowledged and changes nothing, whatever it reports and whatever has run in between: a
  redelivery after a lost acknowledgement, a late progress report, a contradicting result.  The final
  result is arbitrary, as are those in between, except that a successful update reports running, stopped or
  no status (\<open>reports_settled\<close>).
\<close>

theorem finished_task_ignores_events:
  assumes "vm_inv d" "process inet now ev d = (Inr (), d1)" "reports_settled d ev"
    "ev_status ev \<noteq> JStr ''running''" "task_at d (ev_task_id ev) = Some t" "api_step\<^sup>*\<^sup>* d1 d2"
    "loads body = Some (JObj p)" "parse_event later p d2 = (Inr ev', d2)"
    "ev_task_id ev' = ev_task_id ev" "ev_status ev' \<in> set event_statuses"
  shows "consume loads inet' later body d2 = (Ack, d2)"
proof -
  have "follows d d1" by (rule process_follows [OF assms(1-3)])
  then have inv1: "vm_inv d1" by (rule followsD)
  have "\<exists>t1. task_at d1 (ev_task_id ev) = Some t1 \<and> task_terminal (task_stat t1)"
  proof (cases "task_active (task_stat t)")
    case True
    from process_finishes [OF assms(2,5) True assms(4,1,3)] show ?thesis by blast
  next
    case False
    moreover have "d1 = d"
      by (rule process_idle [OF assms(2)]) (use assms(5) False in \<open>simp add: task_terminal_not_active\<close>)
    ultimately show ?thesis using assms(5) by (simp add: task_terminal_not_active)
  qed
  then obtain t2 where "task_at d2 (ev_task_id ev') = Some t2" "task_terminal (task_stat t2)"
    using life_steps_kept [OF api.steps_simulated [OF assms(6) inv1, unfolded abs_life_def] vm_invD(2) [OF inv1]]
      assms(9) by auto
  from process_terminal [OF assms(10) this]
  have "process_message inet' later (JObj p) d2 = (Inr (), d2)"
    using assms(8) by (simp add: process_message_def bindM_run bindM_step)
  then show ?thesis using assms(7) by (simp add: consume_def)
qed

definition example_body :: "string \<Rightarrow> dict" where
  "example_body st = [(''task_id'', JStr (uuid_str 11)), (''request_id'', JStr (uuid_str 12)),
     (''instance_id'', JStr (uuid_str 10)), (''command'', JStr ''create''), (''status'', JStr st)]"

theorem finished_task_ignores_events_witness:
  "consume (\<lambda>p. Some (JObj p)) Some 9000 (example_body ''failed'') example_running = (Ack, example_running)"
proof -
  let ?ev = "\<lparr>ev_task_id = 11, ev_request_id = 12, ev_instance_id = 10, ev_command = JStr ''create'',
     ev_status = JStr ''failed'', ev_attempt_count = 0, ev_result = JNull,
     ev_error_code = JNull, ev_error_message = JNull, ev_timestamp = Aware 9000\<rparr>"
  have "parse_event 9000 (example_body ''failed'') () = (Inr ?ev, ())" by code_simp
  then have "parse_event 9000 (example_body ''failed'') example_running = (Inr ?ev, example_running)"
    using parse_event_reads [of 9000 "example_body ''failed''" example_running] by simp
  then show ?thesis
    using finished_task_ignores_events [OF example_inv example_processed example_settled, where t = example_task and
        loads = "\<lambda>p. Some (JObj p)" and p = "example_body ''failed''" and ev' = ?ev and later = 9000]
      example_run_task
    by (simp add: example_event_def event_statuses_def)
qed

text \<open>The acknowledgement of a committed result raises: the message is rejected all the same.\<close>

theorem delivery_settled_witness:
  "\<exists>d'. handle_delivery (\<lambda>h s. if s = Settle_ack then Some ''channel closed'' else None) (\<lambda>p. Some (JObj p)) Some 9000
      (example_body ''failed'') [] example_run = (None, [Settle_ack, Settle_reject False], d') \<and>
    map_option task_stat (task_at d' 11) = Some failed"
proof -
  let ?answer = "\<lambda>h s. if s = Settle_ack then Some ''channel closed'' else None"
  let ?ev = "\<lparr>ev_task_id = 11, ev_request_id = 12, ev_instance_id = 10, ev_command = JStr ''create'',
     ev_status = JStr ''failed'', ev_attempt_count = 0, ev_result = JNull,
     ev_error_code = JNull, ev_error_message = JNull, ev_timestamp = Aware 9000\<rparr>"
  have ev: "decoded (\<lambda>p. Some (JObj p)) 9000 (example_body ''failed'') = Some ?ev" by code_simp
  have ok: "fst (process Some 9000 ?ev example_run) = Inr ()" by code_simp
  obtain raised h' d' where run: "handle_delivery ?answer (\<lambda>p. Some (JObj p)) Some 9000 (example_body ''failed'') [] example_run =
      (raised, h', d')"
    by (cases "handle_delivery ?answer (\<lambda>p. Some (JObj p)) Some 9000 (example_body ''failed'') [] example_run")
  have "task_status_str x = ''failed'' \<Longrightarrow> x = failed" for x by (cases x) simp_all
  then show ?thesis
    using delivery_settled [OF example_inv run] ev ok example_run_task
    by (auto simp: run reports_settled_def split: if_splits)
qed

end
