(* ===== verification/Result_Consumer.thy ===== *)
theory Result_Consumer
  imports Consumer_Loop Messaging
begin

text \<open>
  The thread of the result consumer (\<^verbatim>\<open>RabbitMqVmResultConsumer._run_async\<close> in
  \<^verbatim>\<open>runtime/workers/rabbitmq_result_consumer.py\<close>): connect, open a channel, declare the
  topology, take messages until the stop event or an error, release channel and connection, and
  begin again.  What happens on the \<open>i\<close>-th connection is the parameter \<open>sessions i\<close>:
  the answers of the AMQP client to the calls on it, the messages it delivers and what ends their
  iteration.  No exception leaves the loop; the sleep after one is not modelled.
\<close>

section \<open>One connection\<close>

text \<open>
  A channel with a \<^verbatim>\<open>consume\<close> method is polled, \<open>None\<close> being the answer of a second
  without a message; the channel of the asynchronous client is iterated over, inside
  \<^verbatim>\<open>async with queue.iterator()\<close>, whose entry and exit may raise.
\<close>

datatype 'body intake =
    Polled "(timestamp \<times> 'body) option list"
  | Iterated "string option" "(timestamp \<times> 'body) list" "string option"

record 'body broker_session =
  bs_answer :: amqp_client
  bs_intake :: "'body intake"
  bs_ends :: "string option"
  bs_settles :: settle_client
  bs_stop :: "nat \<Rightarrow> bool"
  bs_channel_is_open :: bool
  bs_connection_is_open :: bool

primrec consume_polled ::
  "(nat \<Rightarrow> bool) \<Rightarrow> settle_client \<Rightarrow> ('body \<Rightarrow> json option) \<Rightarrow> (string \<Rightarrow> string option) \<Rightarrow> nat \<Rightarrow>
     settlement list \<Rightarrow> (timestamp \<times> 'body) option list \<Rightarrow> db \<Rightarrow> string option \<times> nat \<times> settlement list \<times> db" where
  "consume_polled stop answer loads inet k h [] d = (None, k, h, d)"
| "consume_polled stop answer loads inet k h (m # ms) d =
     (if stop k then (None, k, h, d)
      else case m of
        None \<Rightarrow> consume_polled stop answer loads inet (Suc k) h ms d
      | Some (now, body) \<Rightarrow>
          (case handle_delivery answer loads inet now body h d of
             (None, h', d') \<Rightarrow> consume_polled stop answer loads inet (Suc k) h' ms d'
           | (Some e, h', d') \<Rightarrow> (Some e, Suc k, h', d')))"

text \<open>
  When no message is left the next step of the iteration raises \<open>bs_ends\<close>, or ends it.  The
  number is that of the messages and empty polls taken.
\<close>

definition take_messages ::
  "('body \<Rightarrow> json option) \<Rightarrow> (string \<Rightarrow> string option) \<Rightarrow> 'body broker_session \<Rightarrow> db \<Rightarrow>
     string option \<times> nat \<times> settlement list \<times> db" where
  "take_messages loads inet s d =
     (case bs_intake s of
        Polled ms \<Rightarrow>
          (let (raised, n, h, d') = consume_polled (bs_stop s) (bs_settles s) loads inet 0 [] ms d in
           (if raised = None \<and> n = length ms then bs_ends s else raised, n, h, d'))
      | Iterated enters ms leaves \<Rightarrow>
          (case enters of
             Some e \<Rightarrow> (Some e, 0, [], d)
           | None \<Rightarrow>
               (let (raised, n, h, d') = consume_deliveries (bs_stop s) (bs_settles s) loads inet 0 [] ms d in
                (case leaves of
                   Some e \<Rightarrow> Some e
                 | None \<Rightarrow> if raised = None \<and> n = length ms then bs_ends s else raised, n, h, d'))))"

text \<open>The \<^verbatim>\<open>finally\<close> clause; what closing raises is swallowed.\<close>

definition release :: "'body broker_session \<Rightarrow> bool \<Rightarrow> bool \<Rightarrow> amqp_call list" where
  "release s connection channel =
     (if channel \<and> bs_channel_is_open s then [Close_channel] else []) @
     (if connection \<and> bs_connection_is_open s then [Close_connection] else [])"

record connection_log =
  cl_raised :: "string option"
  cl_ready :: bool
  cl_calls :: "amqp_call list"
  cl_taken :: nat
  cl_settled :: "settlement list"

definition consume_connection ::
  "('body \<Rightarrow> json option) \<Rightarrow> (string \<Rightarrow> string option) \<Rightarrow> 'body broker_session \<Rightarrow> db \<Rightarrow> connection_log \<times> db" where
  "consume_connection loads inet s d =
     (let (raised, h) = perform (bs_answer s) [Connect] [] in
      if raised \<noteq> None
      then (\<lparr>cl_raised = raised, cl_ready = False, cl_calls = h @ release s False False, cl_taken = 0, cl_settled = []\<rparr>, d)
      else let (raised, h) = perform (bs_answer s) [Open_channel False] h in
      if raised \<noteq> None
      then (\<lparr>cl_raised = raised, cl_ready = False, cl_calls = h @ release s True False, cl_taken = 0, cl_settled = []\<rparr>, d)
      else let (raised, h) = perform (bs_answer s) declare_results h in
      if raised \<noteq> None
      then (\<lparr>cl_raised = raised, cl_ready = False, cl_calls = h @ release s True True, cl_taken = 0, cl_settled = []\<rparr>, d)
      else let (raised, n, settled, d') = take_messages loads inet s d in
        (\<lparr>cl_raised = raised, cl_ready = True, cl_calls = h @ release s True True, cl_taken = n, cl_settled = settled\<rparr>, d'))"

section \<open>The loop\<close>

text \<open>
  \<open>stop_set i\<close>: whether the stop event is set when the loop comes round for the \<open>i\<close>-th time.
  \<open>None\<close> when the fuel ends before the loop does.
\<close>

primrec consumer_loop ::
  "nat \<Rightarrow> (nat \<Rightarrow> bool) \<Rightarrow> (nat \<Rightarrow> 'body broker_session) \<Rightarrow> ('body \<Rightarrow> json option) \<Rightarrow> (string \<Rightarrow> string option) \<Rightarrow>
     nat \<Rightarrow> db \<Rightarrow> (connection_log list \<times> db) option" where
  "consumer_loop 0 stop_set sessions loads inet i d = None"
| "consumer_loop (Suc fuel) stop_set sessions loads inet i d =
     (if stop_set i then Some ([], d)
      else let (l, d1) = consume_connection loads inet (sessions i) d in
        map_option (\<lambda>(ls, d'). (l # ls, d')) (consumer_loop fuel stop_set sessions loads inet (Suc i) d1))"

section \<open>What one connection did\<close>

text \<open>Polling and iterating treat messages alike.\<close>

lemma consume_polled_messages:
  "consume_polled stop answer loads inet k h (map Some ms) d = consume_deliveries stop answer loads inet k h ms d"
  by (induction ms arbitrary: k h d) (auto split: prod.split option.split)

abbreviation process_all ::
  "('body \<Rightarrow> json option) \<Rightarrow> (string \<Rightarrow> string option) \<Rightarrow> (timestamp \<times> 'body) list \<Rightarrow> db \<Rightarrow> db" where
  "process_all loads inet ms d \<equiv> fold (\<lambda>m d. snd (consume loads inet (fst m) (snd m) d)) ms d"

text \<open>The messages among the first \<open>n\<close> answers of an intake, and all it can deliver.\<close>

fun arrived :: "'a option list \<Rightarrow> 'a list" where
  "arrived [] = []"
| "arrived (None # ms) = arrived ms"
| "arrived (Some m # ms) = m # arrived ms"

primrec arrivals :: "'body intake \<Rightarrow> nat \<Rightarrow> (timestamp \<times> 'body) list" where
  "arrivals (Polled ms) n = arrived (take n ms)"
| "arrivals (Iterated enters ms leaves) n = take n ms"

primrec deliveries :: "'body intake \<Rightarrow> (timestamp \<times> 'body) list" where
  "deliveries (Polled ms) = arrived ms"
| "deliveries (Iterated enters ms leaves) = ms"

text \<open>How the messages are to be settled, one after the other.\<close>

primrec verdicts ::
  "('body \<Rightarrow> json option) \<Rightarrow> (string \<Rightarrow> string option) \<Rightarrow> (timestamp \<times> 'body) list \<Rightarrow> db \<Rightarrow> settlement list" where
  "verdicts loads inet [] d = []"
| "verdicts loads inet (m # ms) d =
     settlement_of (fst (consume loads inet (fst m) (snd m) d)) #
     verdicts loads inet ms (snd (consume loads inet (fst m) (snd m) d))"

lemma verdicts_append:
  "verdicts loads inet (ms @ ns) d = verdicts loads inet ms d @ verdicts loads inet ns (process_all loads inet ms d)"
  by (induction ms arbitrary: d) simp_all

lemma arrivals_0 [simp]: "arrivals i 0 = []"
  by (cases i) simp_all

lemma set_arrived_take: "set (arrived (take n ms)) \<subseteq> set (arrived ms)"
  by (induction ms arbitrary: n rule: arrived.induct) (auto simp: take_Cons' split: if_splits)

lemma set_arrivals: "set (arrivals i n) \<subseteq> set (deliveries i)"
  by (cases i) (auto dest: set_arrived_take [THEN subsetD] in_set_takeD)

text \<open>
  The calls that settle messages with these verdicts, after the calls \<open>h\<close>: one for each
  message, and a rejection after an acknowledgement that raised.
\<close>

primrec settle_calls :: "settle_client \<Rightarrow> settlement list \<Rightarrow> settlement list \<Rightarrow> settlement list" where
  "settle_calls answer h [] = h"
| "settle_calls answer h (v # vs) =
     settle_calls answer (h @ (if v = Settle_ack \<and> answer h v \<noteq> None then [v, Settle_reject False] else [v])) vs"

lemma settle_calls_quiet: "\<forall>h s. answer h s = None \<Longrightarrow> settle_calls answer h vs = h @ vs"
  by (induction vs arbitrary: h) simp_all

lemma consume_polled_fold:
  "consume_polled stop answer loads inet k h ms d = (raised, n, h', d') \<Longrightarrow>
     k \<le> n \<and> n \<le> k + length ms \<and> d' = process_all loads inet (arrived (take (n - k) ms)) d \<and>
     h' = settle_calls answer h (verdicts loads inet (arrived (take (n - k) ms)) d)"
proof (induction ms arbitrary: k h d)
  case (Cons m ms)
  show ?case
  proof (cases "stop k")
    case True
    then show ?thesis using Cons.prems by simp
  next
    case False
    have take_n: "take (n - k) (m # ms) = m # take (n - Suc k) ms" if "Suc k \<le> n"
      using that by (simp add: Suc_diff_le take_Cons')
    show ?thesis
    proof (cases m)
      case None
      then have "consume_polled stop answer loads inet (Suc k) h ms d = (raised, n, h', d')"
        using Cons.prems False by simp
      note ih = Cons.IH [OF this]
      then show ?thesis using take_n None by auto
    next
      case (Some x)
      obtain r h1 d1 where s: "handle_delivery answer loads inet (fst x) (snd x) h d = (r, h1, d1)"
        by (cases "handle_delivery answer loads inet (fst x) (snd x) h d")
      have d1: "d1 = snd (consume loads inet (fst x) (snd x) d)"
        using handle_delivery_db [of answer loads inet "fst x" "snd x" h d] s by simp
      have h1: "h1 = settle_calls answer h [settlement_of (fst (consume loads inet (fst x) (snd x) d))]"
        using handle_delivery_calls [OF s] by simp
      show ?thesis
      proof (cases r)
        case None
        then have "consume_polled stop answer loads inet (Suc k) h1 ms d1 = (raised, n, h', d')"
          using Cons.prems Some False s by (cases x) simp
        note ih = Cons.IH [OF this]
        then show ?thesis using take_n Some d1 h1 by auto
      next
        case r: (Some e)
        then have n: "n = Suc k" "d' = d1" "h' = h1" using Cons.prems Some False s by (cases x, simp)+
        then show ?thesis using d1 Some h1 r by auto
      qed
    qed
  qed
qed simp

lemma arrived_map_Some [simp]: "arrived (map Some ms) = ms"
  by (induction ms) simp_all

lemma take_messages_effect:
  assumes "take_messages loads inet s d = (raised, n, h, d')"
  shows "d' = process_all loads inet (arrivals (bs_intake s) n) d \<and>
    h = settle_calls (bs_settles s) [] (verdicts loads inet (arrivals (bs_intake s) n) d)"
proof (cases "bs_intake s")
  case (Polled ms)
  then obtain r where "consume_polled (bs_stop s) (bs_settles s) loads inet 0 [] ms d = (r, n, h, d')"
    using assms by (auto simp: take_messages_def Let_def split: prod.splits)
  from consume_polled_fold [OF this] show ?thesis using Polled by simp
next
  case (Iterated enters ms leaves)
  show ?thesis
  proof (cases enters)
    case None
    then obtain r where "consume_polled (bs_stop s) (bs_settles s) loads inet 0 [] (map Some ms) d = (r, n, h, d')"
      using assms Iterated
      by (auto simp: take_messages_def Let_def consume_polled_messages split: prod.splits)
    from consume_polled_fold [OF this] show ?thesis using Iterated by (simp add: take_map)
  next
    case (Some e)
    then show ?thesis using assms Iterated by (simp add: take_messages_def)
  qed
qed

text \<open>
  The calls on a connection: as much of the set-up as worked, then the release of what had been
  opened.  The consumer has reported itself ready only when the whole topology was declared.
\<close>

definition set_up :: "amqp_call list" where
  "set_up = Connect # Open_channel False # declare_results"

definition connection_ok :: "'body broker_session \<Rightarrow> connection_log \<Rightarrow> bool" where
  "connection_ok s l \<longleftrightarrow>
     (let connected = bs_answer s [] Connect = None;
          opened = connected \<and> bs_answer s [Connect] (Open_channel False) = None in
      \<exists>made. prefix made set_up \<and> cl_calls l = made @
          (if opened \<and> bs_channel_is_open s then [Close_channel] else []) @
          (if connected \<and> bs_connection_is_open s then [Close_connection] else []) \<and>
        (cl_ready l \<longrightarrow> made = set_up) \<and> (\<not> cl_ready l \<longrightarrow> cl_raised l \<noteq> None \<and> cl_taken l = 0))"

lemma consume_connection_effect:
  assumes "consume_connection loads inet s d = (l, d')"
  shows "connection_ok s l \<and> d' = process_all loads inet (arrivals (bs_intake s) (cl_taken l)) d \<and>
    cl_settled l = settle_calls (bs_settles s) [] (verdicts loads inet (arrivals (bs_intake s) (cl_taken l)) d)"
proof -
  consider (unconnected) e where "bs_answer s [] Connect = Some e"
    | (unopened) e where "bs_answer s [] Connect = None" "bs_answer s [Connect] (Open_channel False) = Some e"
    | (opened) "bs_answer s [] Connect = None" "bs_answer s [Connect] (Open_channel False) = None"
    by (cases "bs_answer s [] Connect"; cases "bs_answer s [Connect] (Open_channel False)") auto
  then show ?thesis
  proof cases
    case unconnected
    then have "l = \<lparr>cl_raised = Some e, cl_ready = False, cl_calls = [Connect] @ release s False False,
        cl_taken = 0, cl_settled = []\<rparr>" "d' = d"
      using assms by (auto simp: consume_connection_def)
    then show ?thesis using unconnected
      by (auto simp: connection_ok_def release_def set_up_def intro!: exI [of _ "[Connect]"])
  next
    case unopened
    then have "l = \<lparr>cl_raised = Some e, cl_ready = False, cl_calls = [Connect, Open_channel False] @ release s True False,
        cl_taken = 0, cl_settled = []\<rparr>" "d' = d"
      using assms by (auto simp: consume_connection_def)
    then show ?thesis using unopened
      by (auto simp: connection_ok_def release_def set_up_def intro!: exI [of _ "[Connect, Open_channel False]"])
  next
    case opened
    obtain r h where p: "perform (bs_answer s) declare_results [Connect, Open_channel False] = (r, h)"
      by (cases "perform (bs_answer s) declare_results [Connect, Open_channel False]")
    obtain made where made: "h = [Connect, Open_channel False] @ made" "prefix made declare_results"
      using perform_prefix [of "bs_answer s" declare_results "[Connect, Open_channel False]"] p by auto
    then have pre: "prefix h set_up" by (simp add: set_up_def)
    show ?thesis
    proof (cases r)
      case None
      then have h: "h = set_up" using perform_returns p by (fastforce simp: set_up_def)
      obtain raised n settled d1 where t: "take_messages loads inet s d = (raised, n, settled, d1)"
        by (cases "take_messages loads inet s d")
      have "l = \<lparr>cl_raised = raised, cl_ready = True, cl_calls = h @ release s True True, cl_taken = n,
          cl_settled = settled\<rparr>" "d' = d1"
        using assms opened p None t by (auto simp: consume_connection_def)
      then show ?thesis using take_messages_effect [OF t] opened h by (simp add: connection_ok_def release_def)
    next
      case (Some e)
      then have "l = \<lparr>cl_raised = Some e, cl_ready = False, cl_calls = h @ release s True True, cl_taken = 0,
          cl_settled = []\<rparr>" "d' = d"
        using assms opened p by (auto simp: consume_connection_def)
      then show ?thesis using opened pre by (auto simp: connection_ok_def release_def)
    qed
  qed
qed

section \<open>A run of the thread\<close>

primrec taken :: "(nat \<Rightarrow> 'body broker_session) \<Rightarrow> nat \<Rightarrow> connection_log list \<Rightarrow> (timestamp \<times> 'body) list" where
  "taken sessions i [] = []"
| "taken sessions i (l # ls) = arrivals (bs_intake (sessions i)) (cl_taken l) @ taken sessions (Suc i) ls"

text \<open>The calls that settled the messages of a connection, the database being \<open>d\<close> when it began.\<close>

definition connection_settled ::
  "('body \<Rightarrow> json option) \<Rightarrow> (string \<Rightarrow> string option) \<Rightarrow> 'body broker_session \<Rightarrow> connection_log \<Rightarrow> db \<Rightarrow> bool" where
  "connection_settled loads inet s l d \<longleftrightarrow>
     cl_settled l = settle_calls (bs_settles s) [] (verdicts loads inet (arrivals (bs_intake s) (cl_taken l)) d)"

lemma consumer_loop_effect:
  assumes "consumer_loop fuel stop_set sessions loads inet i d = Some (ls, d')"
  shows "stop_set (i + length ls) \<and> (\<forall>j < length ls. \<not> stop_set (i + j) \<and> connection_ok (sessions (i + j)) (ls ! j) \<and>
      connection_settled loads inet (sessions (i + j)) (ls ! j) (process_all loads inet (taken sessions i (take j ls)) d)) \<and>
    d' = process_all loads inet (taken sessions i ls) d \<and>
    ((\<forall>i h x. bs_settles (sessions i) h x = None) \<longrightarrow>
       concat (map cl_settled ls) = verdicts loads inet (taken sessions i ls) d)"
  using assms
proof (induction fuel arbitrary: i d ls)
  case (Suc fuel)
  show ?case
  proof (cases "stop_set i")
    case False
    obtain l d1 where c: "consume_connection loads inet (sessions i) d = (l, d1)"
      by (cases "consume_connection loads inet (sessions i) d")
    obtain rest where rest: "ls = l # rest" "consumer_loop fuel stop_set sessions loads inet (Suc i) d1 = Some (rest, d')"
      using Suc.prems False c by auto
    note one = consume_connection_effect [OF c] and ih = Suc.IH [OF rest(2)]
    have "\<not> stop_set (i + j) \<and> connection_ok (sessions (i + j)) (ls ! j) \<and>
        connection_settled loads inet (sessions (i + j)) (ls ! j) (process_all loads inet (taken sessions i (take j ls)) d)"
      if "j < length ls" for j
      using that ih one False rest(1) by (cases j) (auto simp: connection_settled_def)
    moreover have "cl_settled l = verdicts loads inet (arrivals (bs_intake (sessions i)) (cl_taken l)) d"
      if "\<forall>i h x. bs_settles (sessions i) h x = None"
      using one that by (simp add: settle_calls_quiet)
    ultimately show ?thesis using ih one rest(1) by (simp add: verdicts_append)
  qed (use Suc.prems in auto)
qed simp

lemma consumer_loop_ends:
  "stop_set (i + k) \<Longrightarrow> k < fuel \<Longrightarrow> consumer_loop fuel stop_set sessions loads inet i d \<noteq> None"
proof (induction fuel arbitrary: i k d)
  case (Suc fuel)
  show ?case
  proof (cases "stop_set i")
    case False
    then obtain k' where "k = Suc k'" using Suc.prems(1) by (cases k) auto
    then have "consumer_loop fuel stop_set sessions loads inet (Suc i) (snd (consume_connection loads inet (sessions i) d)) \<noteq> None"
      by (intro Suc.IH) (use Suc.prems in simp_all)
    then show ?thesis using False by (simp add: case_prod_beta)
  qed simp
qed simp

text \<open>
  What the VM manager reports of an update that succeeded: its instance running or stopped, or no
  status.  Every other message may carry any result.
\<close>

definition honest :: "('body \<Rightarrow> json option) \<Rightarrow> db \<Rightarrow> timestamp \<times> 'body \<Rightarrow> bool" where
  "honest loads d m = (case decoded loads (fst m) (snd m) of None \<Rightarrow> True | Some ev \<Rightarrow> reports_settled d ev)"

text \<open>Processing a message leaves the tasks and their commands.\<close>

abbreviation commands_of :: "db \<Rightarrow> uuid \<Rightarrow> task_command option" where
  "commands_of d \<equiv> map_option task_cmd \<circ> task_at d"

lemma honest_commands: "commands_of d' = commands_of d \<Longrightarrow> honest loads d' m = honest loads d m"
proof -
  assume "commands_of d' = commands_of d"
  then have "reports_settled d' ev = reports_settled d ev" for ev
    by (cases "task_at d (ev_task_id ev)"; cases "task_at d' (ev_task_id ev)")
       (auto simp: reports_settled_def dest!: fun_cong [where x = "ev_task_id ev"])
  then show ?thesis by (simp add: honest_def split: option.split)
qed

lemma task_update_commands:
  assumes "db_wf d" "apply_task_update now op tid d = (Inr t', d')"
  shows "commands_of d' = commands_of d"
proof -
  obtain t where "task_at d tid = Some t" "same_request t t'" "task_at d' = (task_at d)(tid \<mapsto> t')"
    by (rule task_update_effect [OF assms])
  then show ?thesis by (auto simp: fun_eq_iff same_request_def)
qed

lemma process_commands:
  assumes inv: "vm_inv d" and run: "process inet now ev d = (Inr u, d')" and settled: "reports_settled d ev"
  shows "commands_of d' = commands_of d"
proof (cases "\<exists>t. task_at d (ev_task_id ev) = Some t \<and> task_active (task_stat t)")
  case False
  then show ?thesis using process_idle [OF run] by (auto simp: task_terminal_not_active)
next
  case True
  then obtain t where t: "task_at d (ev_task_id ev) = Some t" "task_active (task_stat t)" by blast
  have two: ?thesis if "only_instances d d1" "apply_task_update now op (ev_task_id ev) d1 = (Inr t', d')" for d1 op t'
    using task_update_commands [OF _ that(2)] only_instances_wf [OF vm_invD(1) [OF inv] that(1)] by simp
  from run t show ?thesis
  proof (cases rule: process_found)
    case (started t')
    then show ?thesis by (intro task_update_commands [OF vm_invD(1) [OF inv]])
  next
    case (succeeded v d1 t')
    have "only_instances d d1"
      by (rule handle_success_ok [OF succeeded(2) reports_settledD [OF settled t(1) succeeded(1)]])
    then show ?thesis using succeeded(3) by (rule two)
  next
    case (canceled v d1 t')
    have "only_instances d d1" by (rule revert_settles [OF inv t(1) canceled(2)])
    then show ?thesis using canceled(3) by (rule two)
  next
    case (failed v d1 t')
    have "only_instances d d1" by (rule revert_settles [OF inv t(1) failed(2)])
    then show ?thesis using failed(3) by (rule two)
  qed simp
qed

lemma consume_follows:
  fixes inet :: "string \<Rightarrow> string option"
  assumes "vm_inv d" "honest loads d m"
  defines "d' \<equiv> snd (consume loads inet (fst m) (snd m) d)"
  shows "follows d d' \<and> commands_of d' = commands_of d"
proof (cases "\<exists>ev d1. decoded loads (fst m) (snd m) = Some ev \<and> process inet (fst m) ev d = (Inr (), d1)")
  case True
  then obtain ev where ev: "decoded loads (fst m) (snd m) = Some ev" "process inet (fst m) ev d = (Inr (), d')"
    by (auto simp: d'_def consume_decoded)
  then have settled: "reports_settled d ev" using assms(2) by (simp add: honest_def)
  show ?thesis
    by (rule conjI [OF process_follows [OF assms(1) ev(2) settled] process_commands [OF assms(1) ev(2) settled]])
next
  case False
  then have "d' = d" by (auto simp: d'_def consume_decoded split: option.splits prod.splits sum.splits)
  then show ?thesis using follows_refl [OF assms(1)] by simp
qed

lemma process_all_follows:
  "vm_inv d \<Longrightarrow> (\<And>m. m \<in> set ms \<Longrightarrow> honest loads d m) \<Longrightarrow> follows d (process_all loads inet ms d)"
proof (induction ms arbitrary: d)
  case (Cons m ms)
  let ?d = "snd (consume loads inet (fst m) (snd m) d)"
  have f: "follows d ?d" "commands_of ?d = commands_of d"
    using consume_follows [OF Cons.prems(1), of loads m inet] Cons.prems(2) by simp_all
  have "follows ?d (process_all loads inet (m # ms) d)"
    using Cons.IH [OF followsD [OF f(1)]] Cons.prems(2) honest_commands [OF f(2), of loads] by auto
  then show ?case using f(1) by (auto simp: follows_def intro: rtranclp_trans)
qed (simp add: follows_refl)

lemma set_taken: "set (taken sessions i ls) \<subseteq> (\<Union>j. set (deliveries (bs_intake (sessions j))))"
  using set_arrivals by (induction ls arbitrary: i) fastforce+

text \<open>
  C24: whatever connecting, declaring, delivering, settling and closing raise, the
  consumer runs until it is told to stop; every connection it opened is released; it has called itself
  ready only with its queue declared and bound; and the database is what the messages it took make of
  it, one after the other, a run of the lifecycle that keeps its invariant.  On every connection the
  messages taken are told their verdicts, each once and in order, with a rejection after an
  acknowledgement that raised; when settling works these are all the calls.  Messages are
  arbitrary, but for the result of a successful update, which reports running, stopped or no status.
\<close>

theorem result_consumer_runs:
  assumes "vm_inv d" "stop_set k" "k < fuel" "\<And>i m. m \<in> set (deliveries (bs_intake (sessions i))) \<Longrightarrow> honest loads d m"
  shows "\<exists>ls d'. consumer_loop fuel stop_set sessions loads inet 0 d = Some (ls, d') \<and>
    length ls \<le> k \<and> stop_set (length ls) \<and> (\<forall>j < length ls. connection_ok (sessions j) (ls ! j)) \<and>
    d' = process_all loads inet (taken sessions 0 ls) d \<and> follows d d' \<and>
    (\<forall>j < length ls. connection_settled loads inet (sessions j) (ls ! j) (process_all loads inet (taken sessions 0 (take j ls)) d)) \<and>
    ((\<forall>i h x. bs_settles (sessions i) h x = None) \<longrightarrow>
       concat (map cl_settled ls) = verdicts loads inet (taken sessions 0 ls) d)"
proof -
  obtain ls d' where run: "consumer_loop fuel stop_set sessions loads inet 0 d = Some (ls, d')"
    using consumer_loop_ends [of stop_set 0 k fuel sessions loads inet d] assms(2,3) by auto
  note e = consumer_loop_effect [OF run, simplified]
  have "length ls \<le> k" using e assms(2) by (meson not_le)
  have honest: "honest loads d m" if "m \<in> set (taken sessions 0 ls)" for m
    using set_taken [of sessions 0 ls] that assms(4) by blast
  have "follows d (process_all loads inet (taken sessions 0 ls) d)"
    by (rule process_all_follows [OF assms(1) honest])
  then have "follows d d'" using e by simp
  show ?thesis
    by (intro exI [of _ ls] exI [of _ d'] conjI) (use run e \<open>length ls \<le> k\<close> \<open>follows d d'\<close> in simp_all)
qed

text \<open>The first connection fails, the second delivers one message.\<close>

definition example_sessions :: "nat \<Rightarrow> dict broker_session" where
  "example_sessions i =
     \<lparr>bs_answer = (\<lambda>h op. if i = 0 then Some ''connection refused'' else None),
      bs_intake = Iterated None [(9000, example_body ''failed'')] None, bs_ends = None,
      bs_settles = (\<lambda>_ _. None), bs_stop = (\<lambda>_. False),
      bs_channel_is_open = True, bs_connection_is_open = True\<rparr>"

theorem result_consumer_runs_witness:
  "\<exists>ls d'. consumer_loop 3 (\<lambda>i. i = 2) example_sessions (\<lambda>p. Some (JObj p)) Some 0 example_run = Some (ls, d') \<and>
     length ls \<le> 2 \<and> follows example_run d'"
proof -
  have "map_option (\<lambda>ev. (ev_task_id ev, ev_status ev)) (decoded (\<lambda>p. Some (JObj p)) 9000 (example_body ''failed'')) =
      Some (11, JStr ''failed'')" by code_simp
  then have "honest (\<lambda>p. Some (JObj p)) example_run (9000, example_body ''failed'')"
    by (auto simp: honest_def reports_settled_def)
  then have "\<forall>i. \<forall>m \<in> set (deliveries (bs_intake (example_sessions i))). honest (\<lambda>p. Some (JObj p)) example_run m"
    by (simp add: example_sessions_def)
  then show ?thesis
    using result_consumer_runs [OF example_inv, of "\<lambda>i. i = 2" 2 3 example_sessions "\<lambda>p. Some (JObj p)" Some] by simp blast
qed

end
