(* ===== verification/Relay_Loop.thy ===== *)
theory Relay_Loop
  imports Relay
begin

text \<open>
  The endless loop of \<^verbatim>\<open>OutboxRelay._run\<close> in \<^verbatim>\<open>runtime/workers/outbox_relay.py\<close>: drain,
  sleep when nothing was processed or the drain raised, and begin again until the stop event.  The
  \<open>k\<close>-th drain has its own environment \<open>envs k\<close>; whether it is followed by a sleep is logged,
  the sleep itself has no effect.  What a relay achieves is stated for a broker that takes every
  message; how a refused one is treated is in \<open>Relay\<close>.
\<close>

definition sleeps :: "error + int \<Rightarrow> bool" where
  "sleeps r = (case r of Inl _ \<Rightarrow> True | Inr processed \<Rightarrow> processed = 0)"

text \<open>\<open>None\<close> when one of the fuels ends before its loop does.\<close>

primrec relay_run ::
  "nat \<Rightarrow> nat \<Rightarrow> relay_config \<Rightarrow> (nat \<Rightarrow> relay_env) \<Rightarrow> nat \<Rightarrow> db \<Rightarrow> (((error + int) \<times> bool) list \<times> db) option" where
  "relay_run 0 fuel cfg envs k d = None"
| "relay_run (Suc rounds) fuel cfg envs k d =
     (if stop_is_set (envs k) 0 then Some ([], d)
      else case drain_available fuel cfg (envs k) 0 0 d of
        None \<Rightarrow> None
      | Some (r, d1) \<Rightarrow>
          map_option (\<lambda>(logged, d'). ((r, sleeps r) # logged, d')) (relay_run rounds fuel cfg envs (Suc k) d1))"

section \<open>What a claim does to a row\<close>

definition due :: "timestamp \<Rightarrow> outbox_message \<Rightarrow> bool" where
  "due now r \<longleftrightarrow> claimable now r \<or> stuck now r"

lemma due_mono: "due now r \<Longrightarrow> now \<le> later \<Longrightarrow> due later r"
  by (auto simp: due_def claimable_def stuck_def split: option.splits)

lemma outbox_at_updated:
  assumes "\<And>r. ob_id (f r) = ob_id r"
  shows "outbox_at (command_outbox_update (update_where p f) d) i =
    map_option (\<lambda>r. if p r then f r else r) (outbox_at d i)"
proof -
  have "row_of ob_id i (update_where p f rs) = map_option (\<lambda>r. if p r then f r else r) (row_of ob_id i rs)" for rs
    by (induction rs) (auto simp: row_of_def update_where_def assms)
  then show ?thesis by (simp add: outbox_at_def)
qed

lemma claim_row:
  assumes inv: "outbox_inv d" and run: "claim cfg env n d = (Inr ms, d')" and row: "outbox_at d i = Some r"
  shows "if due (clock env n) r
    then \<exists>q. outbox_at d' i = Some q \<and> (q \<in> set ms \<or> claimable (clock env n) q)
    else outbox_at d' i = Some r"
proof -
  let ?now = "clock env n"
  let ?d = "command_outbox_update (update_where (stuck ?now) (recovered_row ?now)) d"
  let ?r = "if stuck ?now r then recovered_row ?now r else r"
  let ?ids = "picked ?now (rc_batch_size cfg) (command_outbox ?d)"
  let ?f = "claimed_row ?now (rc_locker_id cfg) (rc_lock_timeout_seconds cfg)"
  obtain k d1 where k: "recover_stuck_publishing ?now d = (Inr k, d1)" "outbox_inv d1"
    by (rule recover_effect [OF inv]) blast
  have d1: "d1 = ?d" using k(1) by (simp add: recover_stuck_publishing_def bindM_sql_run)
  have r1: "outbox_at ?d i = Some ?r" by (subst outbox_at_updated) (simp_all add: recovered_row_def row)
  then have mem: "?r \<in> set (command_outbox ?d)" "ob_id ?r = i"
    by (auto simp: outbox_at_def dest: row_of_SomeD)
  have d': "d' = command_outbox_update (update_where (\<lambda>r. ob_id r \<in> set ?ids) ?f) ?d"
    "ms = map ?f (filter (\<lambda>r. ob_id r \<in> set ?ids) (command_outbox ?d))"
    using run k(1) by (simp_all add: claim_def bindM_step d1 claim_batch_run Let_def)
  have q: "outbox_at d' i = Some (if i \<in> set ?ids then ?f ?r else ?r)"
    unfolding d'(1) by (subst outbox_at_updated) (simp_all add: claimed_row_def r1 mem(2) [simplified])
  have dist: "distinct (map ob_id (command_outbox ?d))" using k(2) by (simp add: d1 outbox_inv_def)
  show ?thesis
  proof (cases "due ?now r")
    case True
    then have "claimable ?now ?r" by (auto simp: due_def claimable_def recovered_row_def)
    moreover have "?f ?r \<in> set ms" if "i \<in> set ?ids" using that mem by (auto simp: d'(2))
    ultimately show ?thesis using True q by auto
  next
    case False
    then have "?r = r" by (auto simp: due_def)
    moreover have "i \<notin> set ?ids"
      using picked_claimable [OF dist mem(1), of ?now] mem(2) False calculation by (auto simp: due_def)
    ultimately show ?thesis using False q by simp
  qed
qed

section \<open>A drain with a broker that takes every message\<close>

definition takes_all :: "relay_env \<Rightarrow> bool" where
  "takes_all env \<longleftrightarrow> stop_at env = None \<and> (\<forall>n m. publish env n m = None) \<and> mono (clock env)"

definition sent_count :: "db \<Rightarrow> int" where
  "sent_count d = sum_list (map (\<lambda>r. if ob_status r = sent then 1 else 0) (command_outbox d))"

lemma takes_all_not_stopped: "takes_all env \<Longrightarrow> \<not> stop_is_set env n"
  by (simp add: takes_all_def stop_is_set_def)

lemma claim_sent_count:
  assumes "outbox_inv d" "claim cfg env n d = (Inr ms, d')"
  shows "sent_count d' = sent_count d"
proof -
  let ?now = "clock env n"
  have same: "(\<Sum>r\<leftarrow>update_where p f rs. if ob_status r = sent then 1 else 0 :: int) =
      (\<Sum>r\<leftarrow>rs. if ob_status r = sent then 1 else 0)"
    if "\<And>r. r \<in> set rs \<Longrightarrow> p r \<Longrightarrow> ob_status r \<noteq> sent \<and> ob_status (f r) \<noteq> sent" for p f and rs :: "outbox_message list"
    using that by (induction rs) (auto simp: update_where_def)
  let ?d = "command_outbox_update (update_where (stuck ?now) (recovered_row ?now)) d"
  obtain k d1 where k: "recover_stuck_publishing ?now d = (Inr k, d1)" "outbox_inv d1"
    by (rule recover_effect [OF assms(1)]) blast
  have d1: "d1 = ?d" using k(1) by (simp add: recover_stuck_publishing_def bindM_sql_run)
  have "sent_count ?d = sent_count d"
    unfolding sent_count_def by (simp, intro same) (auto simp: stuck_def recovered_row_def)
  moreover have "sent_count d' = sent_count ?d"
  proof -
    have dist: "distinct (map ob_id (command_outbox ?d))" using k(2) by (simp add: d1 outbox_inv_def)
    have "d' = command_outbox_update (update_where (\<lambda>r. ob_id r \<in> set (picked ?now (rc_batch_size cfg) (command_outbox ?d)))
        (claimed_row ?now (rc_locker_id cfg) (rc_lock_timeout_seconds cfg))) ?d"
      using assms(2) k(1) by (simp add: claim_def bindM_step d1 claim_batch_run Let_def)
    then show ?thesis unfolding sent_count_def
      by (simp, intro same) (use picked_claimable [OF dist] in \<open>auto simp: claimable_def claimed_row_def\<close>)
  qed
  ultimately show ?thesis by simp
qed

lemma dispatch_takes:
  assumes "outbox_inv d" "outbox_at d (ob_id m) = Some m" "ob_status m = publishing" "publish env n m = None"
  obtains d' q where "dispatch cfg env n m d = (Inr (), d')" "outbox_inv d'" "same_messages d d'"
    "outbox_at d' = (outbox_at d)(ob_id m \<mapsto> q)" "ob_status q = sent" "outbox_work d' < outbox_work d"
    "sent_count d' = sent_count d + 1"
proof -
  have still: "still_claimed m m" using assms(3) by (simp add: still_claimed_def)
  obtain d' where d': "dispatch cfg env n m d = (Inr (), d')" "outbox_inv d'" "same_messages d d'"
    "outbox_at d' = (outbox_at d)(ob_id m \<mapsto> dispatched_row cfg env n m m)" "outbox_work d' < outbox_work d"
    by (rule dispatch_effect [OF assms(1,2) still])
  obtain f where f: "dispatch cfg env n m d =
        (Inr (), command_outbox_update (update_where (\<lambda>r. ob_id r = ob_id m) f) d)" "f m = dispatched_row cfg env n m m"
    using dispatch_run [OF assms(1,2) still, of cfg env n] by auto
  have q: "ob_status (dispatched_row cfg env n m m) = sent" using assms(4) by (simp add: dispatched_row_def)
  have "distinct (map ob_id (command_outbox d))" "row_of ob_id (ob_id m) (command_outbox d) = Some m"
    using assms(1,2) by (simp_all add: outbox_inv_def outbox_at_def)
  note ob_t.sum_after_update [OF this, of "\<lambda>r. if ob_status r = sent then 1 else 0 :: int" f]
  moreover have "d' = command_outbox_update (update_where (\<lambda>r. ob_id r = ob_id m) f) d" using d'(1) f(1) by simp
  ultimately have "sent_count d' = sent_count d + 1" using f(2) q assms(3) by (simp add: sent_count_def)
  then show ?thesis by (rule that [OF d'(1-4) q d'(5)])
qed

lemma dispatch_all_takes:
  assumes "takes_all env"
  shows "outbox_inv d \<Longrightarrow> batch_of ms d \<Longrightarrow>
   \<exists>d'. dispatch_all cfg env n count ms d = (Inr (n + length ms, count + int (length ms)), d') \<and> outbox_inv d' \<and>
     same_messages d d' \<and> sent_count d' = sent_count d + int (length ms) \<and>
     outbox_work d' + int (length ms) \<le> outbox_work d \<and>
     (\<forall>i. if i \<in> ob_id ` set ms then \<exists>q. outbox_at d' i = Some q \<and> ob_status q = sent
          else outbox_at d' i = outbox_at d i)"
proof (induction ms arbitrary: n count d)
  case (Cons m ms)
  have m: "outbox_at d (ob_id m) = Some m" "ob_status m = publishing" and new: "ob_id m \<notin> ob_id ` set ms"
    using Cons.prems(2) by (auto simp: batch_of_def)
  have "publish env n m = None" using assms by (simp add: takes_all_def)
  then obtain d1 q where d1: "dispatch cfg env n m d = (Inr (), d1)" "outbox_inv d1" "same_messages d d1"
    "outbox_at d1 = (outbox_at d)(ob_id m \<mapsto> q)" "ob_status q = sent" "outbox_work d1 < outbox_work d"
    "sent_count d1 = sent_count d + 1"
    by (rule dispatch_takes [OF Cons.prems(1) m])
  have "ob_id x \<noteq> ob_id m" if "x \<in> set ms" for x using new imageI [OF that, of ob_id] by auto
  then have "batch_of ms d1" using Cons.prems(2) by (simp add: batch_of_def d1(4))
  from Cons.IH [OF d1(2) this, of "Suc n" "count + 1"] obtain d' where
    d': "dispatch_all cfg env (Suc n) (count + 1) ms d1 = (Inr (Suc n + length ms, count + 1 + int (length ms)), d')"
      "outbox_inv d'" "same_messages d1 d'" "sent_count d' = sent_count d1 + int (length ms)"
      "outbox_work d' + int (length ms) \<le> outbox_work d1"
      "\<And>i. if i \<in> ob_id ` set ms then \<exists>q. outbox_at d' i = Some q \<and> ob_status q = sent
          else outbox_at d' i = outbox_at d1 i"
    by blast
  have "same_messages d d'" using d1(3) d'(3) by (rule same_messages_trans)
  moreover have "if i \<in> ob_id ` set (m # ms) then \<exists>q. outbox_at d' i = Some q \<and> ob_status q = sent
          else outbox_at d' i = outbox_at d i" for i
    using d'(6) [of i] d1(4,5) new by (cases "i = ob_id m") auto
  ultimately show ?case
    using d1 d' takes_all_not_stopped [OF assms] by (simp add: bindM_step algebra_simps)
qed simp

lemma drain_sends:
  assumes "takes_all env"
  shows "outbox_inv d \<Longrightarrow> nat (outbox_work d) < fuel \<Longrightarrow>
   \<exists>k d'. drain_available fuel cfg env n count d = Some (Inr (count + k), d') \<and> outbox_inv d' \<and> same_messages d d' \<and>
     outbox_work d' \<le> outbox_work d \<and> 0 \<le> k \<and> sent_count d' = sent_count d + k \<and>
     (\<forall>i r. outbox_at d i = Some r \<longrightarrow> ob_status r = sent \<or> due (clock env n) r \<longrightarrow>
        (\<exists>q. outbox_at d' i = Some q \<and> ob_status q = sent))"
proof (induction fuel arbitrary: n count d)
  case (Suc fuel)
  note go = takes_all_not_stopped [OF assms]
  obtain ms d1 where d1: "claim cfg env n d = (Inr ms, d1)" "outbox_inv d1" "same_messages d d1"
      "outbox_work d1 = outbox_work d" "batch_of ms d1"
      "ms = [] \<Longrightarrow> \<forall>r \<in> set (command_outbox d1). \<not> claimable (clock env n) r"
    by (rule claim_effect [OF Suc.prems(1)]) blast
  have count1: "sent_count d1 = sent_count d" by (rule claim_sent_count [OF Suc.prems(1) d1(1)])
  have row1: "\<exists>q. outbox_at d1 i = Some q \<and> (ob_status q = sent \<or> q \<in> set ms \<or> claimable (clock env n) q)"
    if "outbox_at d i = Some r" "ob_status r = sent \<or> due (clock env n) r" for i r
    using claim_row [OF Suc.prems(1) d1(1) that(1)] that(2) by (auto split: if_splits)
  show ?case
  proof (cases "ms = []")
    case True
    then have "\<not> claimable (clock env n) q" if "outbox_at d1 i = Some q" for i q
      using d1(6) that by (auto simp: outbox_at_def dest: row_of_SomeD)
    then have "\<exists>q. outbox_at d1 i = Some q \<and> ob_status q = sent"
      if "outbox_at d i = Some r" "ob_status r = sent \<or> due (clock env n) r" for i r
      using row1 [OF that] True by auto
    then show ?thesis using True go d1 count1 by (intro exI [of _ 0] exI [of _ d1]) auto
  next
    case False
    obtain d2 where d2: "dispatch_all cfg env (Suc n) count ms d1 =
          (Inr (Suc n + length ms, count + int (length ms)), d2)"
        "outbox_inv d2" "same_messages d1 d2" "sent_count d2 = sent_count d1 + int (length ms)"
        "outbox_work d2 + int (length ms) \<le> outbox_work d1"
        "\<And>i. if i \<in> ob_id ` set ms then \<exists>q. outbox_at d2 i = Some q \<and> ob_status q = sent
          else outbox_at d2 i = outbox_at d1 i"
      using dispatch_all_takes [OF assms d1(2,5), of cfg "Suc n" count] by blast
    have "0 < int (length ms)" using False by simp
    then have "nat (outbox_work d2) < fuel"
      using d2(5) d1(4) Suc.prems(2) outbox_work_nonneg [OF d2(2)] by linarith
    from Suc.IH [OF d2(2) this, of "Suc n + length ms" "count + int (length ms)"] obtain k d' where
      d': "drain_available fuel cfg env (Suc n + length ms) (count + int (length ms)) d2 =
          Some (Inr (count + int (length ms) + k), d')" "outbox_inv d'" "same_messages d2 d'"
        "outbox_work d' \<le> outbox_work d2" "0 \<le> k" "sent_count d' = sent_count d2 + k"
        "\<And>i r. outbox_at d2 i = Some r \<Longrightarrow> ob_status r = sent \<or> due (clock env (Suc n + length ms)) r \<Longrightarrow>
           \<exists>q. outbox_at d' i = Some q \<and> ob_status q = sent"
      by blast
    have later: "clock env n \<le> clock env (Suc n + length ms)"
      using assms by (simp add: takes_all_def monoD)
    have "\<exists>q. outbox_at d' i = Some q \<and> ob_status q = sent"
      if r: "outbox_at d i = Some r" "ob_status r = sent \<or> due (clock env n) r" for i r
    proof -
      obtain q where q: "outbox_at d1 i = Some q" "ob_status q = sent \<or> q \<in> set ms \<or> claimable (clock env n) q"
        using row1 [OF r] by blast
      have "\<exists>q2. outbox_at d2 i = Some q2 \<and> (ob_status q2 = sent \<or> due (clock env (Suc n + length ms)) q2)"
      proof (cases "i \<in> ob_id ` set ms")
        case True
        then show ?thesis using d2(6) [of i] by auto
      next
        case out: False
        then have "q \<notin> set ms" using outbox_at_id [OF q(1)] by auto
        then have "ob_status q = sent \<or> due (clock env n) q" using q(2) by (auto simp: due_def)
        then show ?thesis using d2(6) [of i] out q(1) due_mono [OF _ later] by auto
      qed
      then show ?thesis using d'(7) by blast
    qed
    moreover have "same_messages d d'" using same_messages_trans d1(3) d2(3) d'(3) by blast
    moreover have "drain_available (Suc fuel) cfg env n count d = Some (Inr (count + (int (length ms) + k)), d')"
      using False go d1(1) d2(1) d'(1) by (simp add: add.assoc)
    moreover have "outbox_work d' \<le> outbox_work d" "sent_count d' = sent_count d + (int (length ms) + k)"
      using d'(4,6) d2(4,5) d1(4) count1 by simp_all
    ultimately show ?thesis using d'(2,5)
      by (intro exI [of _ "int (length ms) + k"] exI [of _ d']) simp
  qed
qed simp

section \<open>The loop\<close>

abbreviation processed :: "((error + int) \<times> bool) list \<Rightarrow> int" where
  "processed logged \<equiv> sum_list (map (\<lambda>(r, _). case r of Inl _ \<Rightarrow> 0 | Inr k \<Rightarrow> k) logged)"

lemma relay_run_sends:
  assumes "outbox_inv d" "nat (outbox_work d) < fuel" "\<And>j. j < rest \<Longrightarrow> takes_all (envs (k + j))"
    "stop_is_set (envs (k + rest)) 0" "rest < rounds"
  shows "\<exists>logged d'. relay_run rounds fuel cfg envs k d = Some (logged, d') \<and> length logged = rest \<and>
    outbox_inv d' \<and> same_messages d d' \<and> sent_count d' = sent_count d + processed logged \<and>
    (\<forall>i r. outbox_at d i = Some r \<longrightarrow> ob_status r = sent \<or> 0 < rest \<and> due (clock (envs k) 0) r \<longrightarrow>
        (\<exists>q. outbox_at d' i = Some q \<and> ob_status q = sent))"
  using assms
proof (induction rounds arbitrary: d k rest)
  case (Suc rounds)
  show ?case
  proof (cases rest)
    case 0
    then show ?thesis using Suc.prems by auto
  next
    case (Suc rest')
    have env: "takes_all (envs k)" using Suc.prems(3) [of 0] Suc by simp
    obtain n d1 where d1: "drain_available fuel cfg (envs k) 0 0 d = Some (Inr (0 + n), d1)" "outbox_inv d1"
      "same_messages d d1" "outbox_work d1 \<le> outbox_work d" "0 \<le> n" "sent_count d1 = sent_count d + n"
      "\<And>i r. outbox_at d i = Some r \<Longrightarrow> ob_status r = sent \<or> due (clock (envs k) 0) r \<Longrightarrow>
        \<exists>q. outbox_at d1 i = Some q \<and> ob_status q = sent"
      using drain_sends [OF env Suc.prems(1,2), of cfg 0 0] by blast
    have "nat (outbox_work d1) < fuel" using d1(4) Suc.prems(2) by linarith
    moreover have "takes_all (envs (Suc k + j))" if "j < rest'" for j
      using Suc.prems(3) [of "Suc j"] that Suc by simp
    moreover have "stop_is_set (envs (Suc k + rest')) 0" "rest' < rounds" using Suc.prems(4,5) Suc by simp_all
    ultimately obtain logged d' where d': "relay_run rounds fuel cfg envs (Suc k) d1 = Some (logged, d')"
      "length logged = rest'" "outbox_inv d'" "same_messages d1 d'" "sent_count d' = sent_count d1 + processed logged"
      "\<And>i r. outbox_at d1 i = Some r \<Longrightarrow> ob_status r = sent \<Longrightarrow> \<exists>q. outbox_at d' i = Some q \<and> ob_status q = sent"
      using Suc.IH [OF d1(2), of rest' "Suc k"] by blast
    have "relay_run (Suc rounds) fuel cfg envs k d = Some ((Inr n, sleeps (Inr n)) # logged, d')"
      using takes_all_not_stopped [OF env, of 0] d1(1) d'(1) by simp
    moreover have "same_messages d d'" using d1(3) d'(4) by (rule same_messages_trans)
    moreover have "\<exists>q. outbox_at d' i = Some q \<and> ob_status q = sent"
      if "outbox_at d i = Some r" "ob_status r = sent \<or> due (clock (envs k) 0) r" for i r
      using d1(7) [OF that] d'(6) by blast
    ultimately show ?thesis using d1(6) d'(2,3,5) Suc
      by (intro exI [of _ "(Inr n, sleeps (Inr n)) # logged"] exI [of _ d']) auto
  qed
qed simp

text \<open>
  C23: until it is told to stop, the relay drains the outbox again and again; with a
  broker that takes every message and a clock that does not go back, each message that was due, or
  whose lock had expired, when it started is sent, none that was sent is unsent, and it has published
  exactly as many messages as are newly sent: none twice.
\<close>

theorem relay_delivers:
  assumes "outbox_inv d" "nat (outbox_work d) < fuel" "\<And>k. k < drains \<Longrightarrow> takes_all (envs k)"
    "stop_is_set (envs drains) 0" "0 < drains" "drains < rounds"
  shows "\<exists>logged d'. relay_run rounds fuel cfg envs 0 d = Some (logged, d') \<and> length logged = drains \<and>
    outbox_inv d' \<and> same_messages d d' \<and> sent_count d' = sent_count d + processed logged \<and>
    (\<forall>i r. outbox_at d i = Some r \<longrightarrow> ob_status r = sent \<or> due (clock (envs 0) 0) r \<longrightarrow>
        (\<exists>q. outbox_at d' i = Some q \<and> ob_status q = sent))"
  using relay_run_sends [OF assms(1,2), of drains envs 0 rounds cfg] assms(3-6) by simp

text \<open>One message, sent by the first drain; the second finds nothing.\<close>

definition example_drain :: "nat \<Rightarrow> relay_env" where
  "example_drain k = \<lparr>publish = (\<lambda>n m. None), clock = (\<lambda>n. seconds (int (k + n) + 1)), draw = (\<lambda>_. 0),
     stop_at = (if k < 2 then None else Some 0)\<rparr>"

theorem relay_delivers_witness:
  "\<exists>logged d' q. relay_run 3 6 (outbox_relay 50 30 60 ''relay'') example_drain 0 example_outbox_db = Some (logged, d') \<and>
     length logged = 2 \<and> outbox_at d' 7 = Some q \<and> ob_status q = sent"
proof -
  have work: "nat (outbox_work example_outbox_db) < 6"
    by (simp add: outbox_work_def example_outbox_db_def example_message_def new_outbox_row_def attempts_left_def)
  have envs: "\<forall>k < 2. takes_all (example_drain k)"
    by (auto simp: takes_all_def example_drain_def mono_def seconds_def)
  have stop: "stop_is_set (example_drain 2) 0" by (simp add: stop_is_set_def example_drain_def)
  obtain r where "outbox_at example_outbox_db 7 = Some r" "due (clock (example_drain 0) 0) r"
    by (auto simp: example_outbox_db_def outbox_at_def example_message_def new_outbox_row_def due_def
        claimable_def example_drain_def seconds_def row_of_def)
  then show ?thesis
    using relay_delivers [OF example_outbox_inv work, of 2 example_drain 3 "outbox_relay 50 30 60 ''relay''"] envs stop
    by (simp only: numeral_eq_Suc) force
qed

end
