(* ===== verification/Api_Answers.thy ===== *)
theory Api_Answers
  imports Api_Common
begin

text \<open>
  What the endpoints answer: the response models of \<^verbatim>\<open>api/schemas\<close> and the functions of
  \<^verbatim>\<open>api/routers\<close> that make them from entities.  None carries a password hash.
\<close>

section \<open>Answers\<close>

record instance_response =
  ir_id :: uuid
  ir_name :: "string option"
  ir_cpu :: int
  ir_memory_mib :: int
  ir_disk_gib :: int
  ir_status :: string
  ir_ip_address :: "string option"
  ir_host_node :: string
  ir_created_at :: timestamp
  ir_updated_at :: timestamp

definition to_instance_response :: "vm_instance \<Rightarrow> instance_response" where
  "to_instance_response i =
     \<lparr>ir_id = inst_id i, ir_name = inst_name i, ir_cpu = cpu (inst_spec i),
      ir_memory_mib = memory_mib (inst_spec i), ir_disk_gib = disk_gib (inst_spec i),
      ir_status = instance_status_str (inst_status i), ir_ip_address = inst_ip_address i,
      ir_host_node = inst_host_node i, ir_created_at = inst_created_at i, ir_updated_at = inst_updated_at i\<rparr>"

record task_response =
  tr_id :: uuid
  tr_instance_id :: uuid
  tr_command :: string
  tr_status :: string
  tr_request_id :: uuid
  tr_request_payload :: dict
  tr_result_payload :: json
  tr_error_code :: "string option"
  tr_error_message :: "string option"
  tr_attempt_count :: int
  tr_max_attempts :: int
  tr_created_at :: timestamp
  tr_started_at :: "timestamp option"
  tr_finished_at :: "timestamp option"
  tr_updated_at :: timestamp

definition to_task_response :: "instance_task \<Rightarrow> task_response" where
  "to_task_response t =
     \<lparr>tr_id = task_id t, tr_instance_id = task_instance_id t, tr_command = task_command_str (task_cmd t),
      tr_status = task_status_str (task_stat t), tr_request_id = task_request_id t,
      tr_request_payload = task_request_payload t, tr_result_payload = task_result_payload t,
      tr_error_code = task_error_code t, tr_error_message = task_error_message t,
      tr_attempt_count = task_attempt_count t, tr_max_attempts = task_max_attempts t,
      tr_created_at = task_created_at t, tr_started_at = task_started_at t,
      tr_finished_at = task_finished_at t, tr_updated_at = task_updated_at t\<rparr>"

record user_response =
  ur_id :: uuid
  ur_username :: string
  ur_role :: string
  ur_tenant_id :: "uuid option"
  ur_is_active :: bool
  ur_created_at :: timestamp
  ur_updated_at :: timestamp

definition to_user_response :: "user \<Rightarrow> user_response" where
  "to_user_response u =
     \<lparr>ur_id = usr_id u, ur_username = usr_username u, ur_role = role_str (usr_role u),
      ur_tenant_id = usr_tenant_id u, ur_is_active = usr_is_active u,
      ur_created_at = usr_created_at u, ur_updated_at = usr_updated_at u\<rparr>"

record current_user_response =
  cu_id :: uuid
  cu_name :: string
  cu_role_name :: string
  cu_tenant :: "uuid option"
  cu_active :: bool

definition me :: "user \<Rightarrow> current_user_response" where
  "me u = \<lparr>cu_id = usr_id u, cu_name = usr_username u, cu_role_name = role_str (usr_role u),
     cu_tenant = usr_tenant_id u, cu_active = usr_is_active u\<rparr>"

text \<open>A tenant with its quota, a usage, an audit entry and a pair of tokens.\<close>

record tenant_quota_response =
  qr_tenant_id :: uuid
  qr_max_instances :: int
  qr_max_cpu :: int
  qr_max_memory_mib :: int
  qr_max_disk_gib :: int
  qr_updated_at :: timestamp

definition to_quota_response :: "tenant_quota \<Rightarrow> tenant_quota_response" where
  "to_quota_response q =
     \<lparr>qr_tenant_id = quo_tenant_id q, qr_max_instances = max_instances q, qr_max_cpu = max_cpu q,
      qr_max_memory_mib = max_memory_mib q, qr_max_disk_gib = max_disk_gib q, qr_updated_at = quo_updated_at q\<rparr>"

record tenant_response =
  nr_id :: uuid
  nr_key :: string
  nr_name :: string
  nr_is_active :: bool
  nr_created_at :: timestamp
  nr_updated_at :: timestamp
  nr_quota :: "tenant_quota_response option"

definition to_tenant_response :: "tenant \<times> tenant_quota option \<Rightarrow> tenant_response" where
  "to_tenant_response detail = (case detail of (t, quota) \<Rightarrow>
     \<lparr>nr_id = ten_id t, nr_key = ten_key t, nr_name = ten_name t, nr_is_active = ten_is_active t,
      nr_created_at = ten_created_at t, nr_updated_at = ten_updated_at t,
      nr_quota = map_option to_quota_response quota\<rparr>)"

record tenant_usage_response =
  gr_tenant_id :: uuid
  gr_used_instances :: int
  gr_used_cpu :: int
  gr_used_memory_mib :: int
  gr_used_disk_gib :: int

definition to_tenant_usage_response :: "tenant_usage \<Rightarrow> tenant_usage_response" where
  "to_tenant_usage_response u =
     \<lparr>gr_tenant_id = usage_tenant_id u, gr_used_instances = used_instances u, gr_used_cpu = used_cpu u,
      gr_used_memory_mib = used_memory_mib u, gr_used_disk_gib = used_disk_gib u\<rparr>"

record audit_log_response =
  lr_id :: uuid
  lr_tenant_id :: "uuid option"
  lr_actor_user_id :: "uuid option"
  lr_actor_username :: "string option"
  lr_action :: string
  lr_target_type :: string
  lr_target_id :: "string option"
  lr_request_id :: "uuid option"
  lr_ip_address :: "string option"
  lr_user_agent :: "string option"
  lr_metadata :: dict
  lr_created_at :: timestamp

definition to_audit_log_response :: "audit_log \<Rightarrow> audit_log_response" where
  "to_audit_log_response l =
     \<lparr>lr_id = aud_id l, lr_tenant_id = aud_tenant_id l, lr_actor_user_id = aud_actor_user_id l,
      lr_actor_username = aud_actor_username l, lr_action = aud_action l, lr_target_type = aud_target_type l,
      lr_target_id = aud_target_id l, lr_request_id = aud_request_id l, lr_ip_address = aud_ip_address l,
      lr_user_agent = aud_user_agent l, lr_metadata = aud_metadata l, lr_created_at = aud_created_at l\<rparr>"

record access_token_response =
  ar_access_token :: string
  ar_refresh_token :: string
  ar_token_type :: string
  ar_expires_at :: timestamp

definition to_access_token_response :: "issued_tokens \<Rightarrow> access_token_response" where
  "to_access_token_response tokens =
     \<lparr>ar_access_token = it_access_token tokens, ar_refresh_token = it_refresh_token tokens,
      ar_token_type = ''bearer'', ar_expires_at = it_expires_at tokens\<rparr>"

text \<open>A page of a list, as every list answer carries it.\<close>

record 'a page_response =
  pr_items :: "'a list"
  pr_total :: int
  pr_limit :: int
  pr_offset :: int

definition page_of :: "('r \<Rightarrow> 'a) \<Rightarrow> int \<Rightarrow> int \<Rightarrow> 'r list \<times> int \<Rightarrow> 'a page_response" where
  "page_of f limit offset result =
     \<lparr>pr_items = map f (fst result), pr_total = snd result, pr_limit = limit, pr_offset = offset\<rparr>"

text \<open>The last statement of an endpoint turns the value of its handler into the answer.\<close>

definition answer :: "('a \<Rightarrow> 'b) \<Rightarrow> 'a sess_act \<Rightarrow> 'b sess_act" where
  "answer f m = bindM m (\<lambda>x. returnM (f x))"

lemma keeps_answer [keeps_intros]: "keeps P m \<Longrightarrow> keeps P (answer f m)"
  unfolding answer_def by (intro keeps_bindM keeps_basic)

lemma request_answer:
  "request (answer f m) d = (case request m d of (Inl e, d') \<Rightarrow> (Inl e, d') | (Inr a, d') \<Rightarrow> (Inr (f a), d'))"
  by (auto simp: request_def answer_def bindM_def returnM_def split: prod.splits sum.splits)

lemma request_answered: "request (answer f m) d = (r, d') \<Longrightarrow> \<exists>r'. request m d = (r', d')"
  by (auto simp: request_answer split: prod.splits sum.splits)

end
