(* ===== verification/Queries.thy ===== *)
theory Queries
  imports Tenant_Repo User_Repo Instance_Repo Task_Repo Audit_Trail "HOL-Library.Multiset"
begin

text \<open>
  The \<^verbatim>\<open>list\<close> methods of the repositories and the handlers of
  \<^verbatim>\<open>application/queries\<close>.  A listing selects the rows that meet every condition given,
  newest first, and one page of them, with the number of all of them.

  The order in which PostgreSQL returns rows of equal age is not determined: each listing takes the
  ordering as an argument, of which \<open>newest_first\<close> says what \<^verbatim>\<open>ORDER BY\<close> promises.
\<close>

section \<open>Selecting a page\<close>

definition newest_first :: "('r \<Rightarrow> timestamp) \<Rightarrow> ('r list \<Rightarrow> 'r list) \<Rightarrow> bool" where
  "newest_first created order \<longleftrightarrow>
     (\<forall>rs. mset (order rs) = mset rs \<and> sorted_wrt (\<lambda>a b. created b \<le> created a) (order rs))"

definition select_page :: "('r list \<Rightarrow> 'r list) \<Rightarrow> int \<Rightarrow> int \<Rightarrow> 'r list \<Rightarrow> error + 'r list \<times> int" where
  "select_page order limit offset rows =
     (if limit < 0 then Inl (DataError ''LIMIT must not be negative'')
      else if offset < 0 then Inl (DataError ''OFFSET must not be negative'')
      else Inr (take (nat limit) (drop (nat offset) (order rows)), int (length rows)))"

text \<open>A condition is left out when its argument is absent or, for text, empty.\<close>

definition given :: "'a option \<Rightarrow> ('a \<Rightarrow> bool) \<Rightarrow> bool" where
  "given v p = (case v of None \<Rightarrow> True | Some x \<Rightarrow> p x)"

definition given_text :: "string option \<Rightarrow> (string \<Rightarrow> bool) \<Rightarrow> bool" where
  "given_text v p = (case v of None \<Rightarrow> True | Some x \<Rightarrow> x = [] \<or> p x)"

definition bind_member :: "('a \<Rightarrow> string) \<Rightarrow> 'a list \<Rightarrow> string option \<Rightarrow> error + 'a option" where
  "bind_member str members v =
     (case v of
        None \<Rightarrow> Inr None
      | Some s \<Rightarrow>
          (if s = [] then Inr None
           else case find (\<lambda>m. str m = s) members of
             Some m \<Rightarrow> Inr (Some m)
           | None \<Rightarrow> Inl (StatementError ''not among the defined enum values'')))"

definition all_task_status :: "task_status list" where
  "all_task_status = [task_queued, task_running, cancel_pending, succeeded, failed, canceled]"

definition all_task_command :: "task_command list" where
  "all_task_command = [cmd_create, cmd_update, cmd_delete, cmd_start, cmd_stop]"

section \<open>Pattern matching\<close>

text \<open>\<^verbatim>\<open>LIKE\<close>: a percent sign matches any text, an underscore any character, a backslash
  takes the next character literally.\<close>

function like :: "string \<Rightarrow> string \<Rightarrow> bool" where
  "like [] s = (s = [])"
| "like (p # ps) s =
     (if p = CHR ''%'' then like ps s \<or> (case s of [] \<Rightarrow> False | c # s' \<Rightarrow> like (p # ps) s')
      else if p = CHR 0x5C then
        (case (ps, s) of (q # qs, c # s') \<Rightarrow> c = q \<and> like qs s' | _ \<Rightarrow> False)
      else (case s of [] \<Rightarrow> False | c # s' \<Rightarrow> (p = CHR ''_'' \<or> c = p) \<and> like ps s'))"
  by pat_completeness auto

termination
  by (relation "measure (\<lambda>(p, s). length p + length s)") auto

definition lower :: "char \<Rightarrow> char" where
  "lower c = (let n = of_char c :: nat in if 65 \<le> n \<and> n \<le> 90 then char_of (n + 32) else c)"

definition ilike :: "string \<Rightarrow> string \<Rightarrow> bool" where
  "ilike pattern s = like (map lower pattern) (map lower s)"

text \<open>\<^verbatim>\<open>column.ilike(f"%{x}%")\<close>; a missing column matches nothing.\<close>

definition contains_ci :: "string option \<Rightarrow> string \<Rightarrow> bool" where
  "contains_ci column x = (case column of None \<Rightarrow> False | Some s \<Rightarrow> ilike (''%'' @ x @ ''%'') s)"

section \<open>Listings\<close>

definition instance_list ::
  "(instance_model list \<Rightarrow> instance_model list) \<Rightarrow> int \<Rightarrow> int \<Rightarrow> string option \<Rightarrow> string option \<Rightarrow>
     uuid option \<Rightarrow> (vm_instance list \<times> int) db_act" where
  "instance_list order limit offset status name tenant_id =
     bindM (liftM (bind_member instance_status_str all_instance_status status)) (\<lambda>st.
     bindM (sql_select instances (\<lambda>m. given st (\<lambda>x. im_status m = x) \<and>
       given_text name (contains_ci (im_name m)) \<and> given tenant_id (\<lambda>t. im_tenant_id m = t))) (\<lambda>rows.
     bindM (liftM (select_page order limit offset rows)) (\<lambda>(models, total).
     returnM (map to_instance models, total))))"

definition task_list ::
  "(instance_task_model list \<Rightarrow> instance_task_model list) \<Rightarrow> int \<Rightarrow> int \<Rightarrow> string option \<Rightarrow> uuid option \<Rightarrow>
     string option \<Rightarrow> uuid option \<Rightarrow> (instance_task list \<times> int) db_act" where
  "task_list order limit offset status instance_id command tenant_id =
     bindM (liftM (bind_member task_status_str all_task_status status)) (\<lambda>st.
     bindM (liftM (bind_member task_command_str all_task_command command)) (\<lambda>cmd.
     bindM (getsM (\<lambda>d. [t. t \<leftarrow> instance_tasks d, i \<leftarrow> instances d,
         im_id i = task_instance_id t \<and> given st (\<lambda>x. task_stat t = x) \<and>
         given instance_id (\<lambda>k. task_instance_id t = k) \<and> given cmd (\<lambda>x. task_cmd t = x) \<and>
         given tenant_id (\<lambda>k. im_tenant_id i = k)])) (\<lambda>rows.
     bindM (liftM (select_page order limit offset rows)) (\<lambda>(models, total).
     returnM (map to_task models, total)))))"

definition list_users ::
  "(user list \<Rightarrow> user list) \<Rightarrow> int \<Rightarrow> int \<Rightarrow> string option \<Rightarrow> bool option \<Rightarrow> string option \<Rightarrow> uuid option \<Rightarrow>
     (user list \<times> int) db_act" where
  "list_users order limit offset role is_active username tenant_id =
     bindM (liftM (bind_member role_str [admin, operator, viewer] role)) (\<lambda>r.
     bindM (sql_select users (\<lambda>u. given r (\<lambda>x. usr_role u = x) \<and> given is_active (\<lambda>b. usr_is_active u = b) \<and>
       given_text username (contains_ci (Some (usr_username u))) \<and>
       given tenant_id (\<lambda>t. usr_tenant_id u = Some t))) (\<lambda>rows.
     liftM (select_page order limit offset rows)))"

definition tenant_list ::
  "(tenant list \<Rightarrow> tenant list) \<Rightarrow> int \<Rightarrow> int \<Rightarrow> bool option \<Rightarrow> (tenant list \<times> int) db_act" where
  "tenant_list order limit offset is_active =
     bindM (sql_select tenants (\<lambda>t. given is_active (\<lambda>b. ten_is_active t = b))) (\<lambda>rows.
     liftM (select_page order limit offset rows))"

definition audit_list ::
  "(audit_log list \<Rightarrow> audit_log list) \<Rightarrow> int \<Rightarrow> int \<Rightarrow> uuid option \<Rightarrow> string option \<Rightarrow> string option \<Rightarrow>
     uuid option \<Rightarrow> uuid option \<Rightarrow> (audit_log list \<times> int) db_act" where
  "audit_list order limit offset actor_user_id action target_type request_id tenant_id =
     bindM (sql_select audit_logs (\<lambda>l. given actor_user_id (\<lambda>k. aud_actor_user_id l = Some k) \<and>
       given_text action (\<lambda>a. aud_action l = a) \<and> given_text target_type (\<lambda>a. aud_target_type l = a) \<and>
       given request_id (\<lambda>k. aud_request_id l = Some k) \<and> given tenant_id (\<lambda>k. aud_tenant_id l = Some k))) (\<lambda>rows.
     liftM (select_page order limit offset rows))"

section \<open>Query handlers\<close>

definition get_instance_query :: "uuid \<Rightarrow> vm_instance db_act" where
  "get_instance_query iid =
     bindM (instance_read_get iid None) (\<lambda>i.
     case i of None \<Rightarrow> raiseM (NotFoundError (''instance '' @ uuid_str iid @ '' not found''))
             | Some x \<Rightarrow> returnM x)"

definition get_task_query :: "uuid \<Rightarrow> instance_task db_act" where
  "get_task_query tid =
     bindM (task_get tid) (\<lambda>t.
     case t of None \<Rightarrow> raiseM (NotFoundError (''task '' @ uuid_str tid @ '' not found''))
             | Some x \<Rightarrow> returnM x)"

definition get_tenant_query :: "uuid \<Rightarrow> (tenant \<times> tenant_quota option) db_act" where
  "get_tenant_query tid =
     bindM (tenant_get tid) (\<lambda>t.
     case t of None \<Rightarrow> raiseM (TenantNotFoundError (''tenant '' @ uuid_str tid @ '' not found''))
             | Some x \<Rightarrow> bindM (quota_get tid) (\<lambda>q. returnM (x, q)))"

definition get_user_query :: "uuid \<Rightarrow> user db_act" where
  "get_user_query uid =
     bindM (user_get_by_id uid) (\<lambda>u.
     case u of None \<Rightarrow> raiseM (UserNotFoundError (''user '' @ uuid_str uid @ '' not found''))
             | Some x \<Rightarrow> returnM x)"

definition get_audit_log_query :: "uuid \<Rightarrow> audit_log db_act" where
  "get_audit_log_query lid =
     bindM (audit_get lid) (\<lambda>l.
     case l of None \<Rightarrow> raiseM (AuditLogNotFoundError (''audit log '' @ uuid_str lid @ '' not found''))
             | Some x \<Rightarrow> returnM x)"

primrec with_quotas :: "tenant list \<Rightarrow> (tenant \<times> tenant_quota option) list db_act" where
  "with_quotas [] = returnM []"
| "with_quotas (t # ts) =
     bindM (quota_get (ten_id t)) (\<lambda>q. bindM (with_quotas ts) (\<lambda>r. returnM ((t, q) # r)))"

definition list_tenants_query ::
  "(tenant list \<Rightarrow> tenant list) \<Rightarrow> int \<Rightarrow> int \<Rightarrow> bool option \<Rightarrow> ((tenant \<times> tenant_quota option) list \<times> int) db_act" where
  "list_tenants_query order limit offset is_active =
     bindM (tenant_list order limit offset is_active) (\<lambda>(ts, total).
     bindM (with_quotas ts) (\<lambda>items. returnM (items, total)))"

definition list_roles_query :: "string list" where
  "list_roles_query = [''admin'', ''operator'', ''viewer'']"

text \<open>The queries of the listings; a handler hands the fields of its query to the repository.\<close>

record list_instances_query =
  li_limit :: int
  li_offset :: int
  li_status :: "string option"
  li_name :: "string option"
  li_tenant_id :: "uuid option"

definition list_instances_handle ::
  "(instance_model list \<Rightarrow> instance_model list) \<Rightarrow> list_instances_query \<Rightarrow> (vm_instance list \<times> int) db_act" where
  "list_instances_handle order query =
     bindM (instance_list order (li_limit query) (li_offset query) (li_status query) (li_name query) (li_tenant_id query))
       (\<lambda>(items, total). returnM (items, total))"

record list_tasks_query =
  lt_limit :: int
  lt_offset :: int
  lt_status :: "string option"
  lt_instance_id :: "uuid option"
  lt_command :: "string option"
  lt_tenant_id :: "uuid option"

definition list_tasks_handle ::
  "(instance_task_model list \<Rightarrow> instance_task_model list) \<Rightarrow> list_tasks_query \<Rightarrow> (instance_task list \<times> int) db_act" where
  "list_tasks_handle order query =
     bindM (task_list order (lt_limit query) (lt_offset query) (lt_status query) (lt_instance_id query) (lt_command query)
       (lt_tenant_id query)) (\<lambda>(items, total). returnM (items, total))"

record list_users_query =
  lu_limit :: int
  lu_offset :: int
  lu_role :: "string option"
  lu_is_active :: "bool option"
  lu_username :: "string option"
  lu_tenant_id :: "uuid option"

definition list_users_handle :: "(user list \<Rightarrow> user list) \<Rightarrow> list_users_query \<Rightarrow> (user list \<times> int) db_act" where
  "list_users_handle order query =
     bindM (list_users order (lu_limit query) (lu_offset query) (lu_role query) (lu_is_active query) (lu_username query)
       (lu_tenant_id query)) (\<lambda>(items, total). returnM (items, total))"

record list_audit_logs_query =
  la_limit :: int
  la_offset :: int
  la_actor_user_id :: "uuid option"
  la_action :: "string option"
  la_target_type :: "string option"
  la_request_id :: "uuid option"
  la_tenant_id :: "uuid option"

definition list_audit_logs_handle ::
  "(audit_log list \<Rightarrow> audit_log list) \<Rightarrow> list_audit_logs_query \<Rightarrow> (audit_log list \<times> int) db_act" where
  "list_audit_logs_handle order query =
     bindM (audit_list order (la_limit query) (la_offset query) (la_actor_user_id query) (la_action query)
       (la_target_type query) (la_request_id query) (la_tenant_id query)) (\<lambda>(items, total). returnM (items, total))"

lemma bindM_to_returnM: "bindM m returnM = m"
  by (auto simp: fun_eq_iff bindM_def returnM_def split: prod.split sum.split)

lemma bindM_pair: "bindM m (\<lambda>(a, b). returnM (a, b)) = m"
  by (simp add: bindM_to_returnM)

lemmas listing_handles = list_instances_handle_def list_tasks_handle_def list_users_handle_def list_audit_logs_handle_def
  bindM_pair list_instances_query.simps list_tasks_query.simps

lemma newest_first_sort: "newest_first created (sort_key (\<lambda>r. - created r))"
proof -
  have "sorted_wrt (\<lambda>a b. created b \<le> created a) (sort_key (\<lambda>r. - created r) rs)" for rs
    using sorted_sort_key [of "\<lambda>r. - created r" rs] by (simp add: sorted_map)
  then show ?thesis by (simp add: newest_first_def)
qed

section \<open>What a listing returns\<close>

lemma select_page_facts:
  assumes "newest_first created order" "select_page order limit offset rows = Inr (items, n)"
  shows "set items \<subseteq> set rows" "length items \<le> nat limit" "int (length items) \<le> limit"
    "sorted_wrt (\<lambda>a b. created b \<le> created a) items" "n = int (length rows)" "mset items \<subseteq># mset rows"
proof -
  have items: "items = take (nat limit) (drop (nat offset) (order rows))" and t: "n = int (length rows)"
    and "0 \<le> limit" using assms(2) by (auto simp: select_page_def split: if_splits)
  have order: "mset (order rows) = mset rows" "sorted_wrt (\<lambda>a b. created b \<le> created a) (order rows)"
    using assms(1) by (auto simp: newest_first_def)
  show "mset items \<subseteq># mset rows"
    unfolding items order(1) [symmetric]
    by (metis append_take_drop_id mset_append mset_subset_eq_add_left mset_subset_eq_add_right subset_mset.trans)
  then show "set items \<subseteq> set rows" by (metis set_mset_mono set_mset_mset)
  show "length items \<le> nat limit" "int (length items) \<le> limit" using items \<open>0 \<le> limit\<close> by auto
  show "sorted_wrt (\<lambda>a b. created b \<le> created a) items"
    unfolding items by (intro sorted_wrt_take sorted_wrt_drop order(2))
  show "n = int (length rows)" by (rule t)
qed

text \<open>The pages of a listing, put one after the other, are the listing: nothing is skipped or
  repeated as long as the table and the order of equal rows stay the same.\<close>

lemma pages_cover:
  assumes "0 < limit" "0 \<le> k"
  shows "fst (projr (select_page order limit (k * limit) rows)) @
      drop (nat ((k + 1) * limit)) (order rows) = drop (nat (k * limit)) (order rows)"
proof -
  have "nat ((k + 1) * limit) = nat (k * limit) + nat limit"
    using assms by (simp add: nat_add_distrib algebra_simps)
  moreover have "\<not> k * limit < 0" using assms by (simp add: not_less)
  ultimately show ?thesis using assms
    by (simp add: select_page_def) (metis append_take_drop_id drop_drop add.commute)
qed

lemma instance_list_run:
  assumes "instance_list order limit offset status name tid d = (Inr (items, n), d')"
  shows "d' = d \<and> (\<exists>st models. bind_member instance_status_str all_instance_status status = Inr st \<and>
      select_page order limit offset (filter (\<lambda>m. given st (\<lambda>x. im_status m = x) \<and>
        given_text name (contains_ci (im_name m)) \<and> given tid (\<lambda>t. im_tenant_id m = t)) (instances d)) =
        Inr (models, n) \<and> items = map to_instance models)"
  using assms by (auto simp: instance_list_def bindM_sql_run bindM_run split: sum.splits)

lemma task_list_run:
  assumes "task_list order limit offset status iid cmd tid d = (Inr (items, n), d')"
  shows "d' = d \<and> (\<exists>st c models. bind_member task_status_str all_task_status status = Inr st \<and>
      bind_member task_command_str all_task_command cmd = Inr c \<and>
      select_page order limit offset [t. t \<leftarrow> instance_tasks d, i \<leftarrow> instances d,
         im_id i = task_instance_id t \<and> given st (\<lambda>x. task_stat t = x) \<and>
         given iid (\<lambda>k. task_instance_id t = k) \<and> given c (\<lambda>x. task_cmd t = x) \<and>
         given tid (\<lambda>k. im_tenant_id i = k)] = Inr (models, n) \<and> items = map to_task models)"
  using assms unfolding task_list_def by (auto simp: bindM_run split: sum.splits)

lemma readonly_listings:
  "readonly (instance_list order1 limit offset status name tid)"
  "readonly (task_list order2 limit offset status iid command tid)"
  "readonly (list_users order3 limit offset role active uname tid)"
  "readonly (tenant_list order4 limit offset active)"
  "readonly (audit_list order5 limit offset actor action target req tid)"
  unfolding instance_list_def task_list_def list_users_def tenant_list_def audit_list_def
  by (auto simp: sql_select_def split_beta intro!: readonly_intros readonly_bindM)

section \<open>Searching for a name\<close>

lemma like_all: "like ''%'' s"
proof (induction s)
  case (Cons c s)
  have "like ''%'' (c # s) \<longleftrightarrow> like [] (c # s) \<or> like ''%'' s"
    by (simp only: like.simps(2) [of "CHR ''%''" "[]" "c # s"] simp_thms if_True list.case)
  with Cons show ?case by blast
qed simp

definition plain_char :: "char \<Rightarrow> bool" where
  "plain_char c \<longleftrightarrow> c \<noteq> CHR ''%'' \<and> c \<noteq> CHR 0x5C \<and> c \<noteq> CHR ''_''"

lemma like_prefix: "\<forall>c \<in> set x. plain_char c \<Longrightarrow> like (x @ ''%'') s \<longleftrightarrow> (\<exists>b. s = x @ b)"
proof (induction x arbitrary: s)
  case Nil
  then show ?case by (simp add: like_all del: like.simps(2))
next
  case (Cons c x)
  then show ?case by (cases s) (auto simp: plain_char_def)
qed

lemma like_contains: "\<forall>c \<in> set x. plain_char c \<Longrightarrow> like (''%'' @ x @ ''%'') s \<longleftrightarrow> (\<exists>a b. s = a @ x @ b)"
proof (induction s)
  case Nil
  then show ?case using like_prefix [of x "[]"] by simp
next
  case (Cons c s)
  have "like (''%'' @ x @ ''%'') (c # s) \<longleftrightarrow> like (x @ ''%'') (c # s) \<or> like (''%'' @ x @ ''%'') s" by simp
  also have "\<dots> \<longleftrightarrow> (\<exists>b. c # s = x @ b) \<or> (\<exists>a b. s = a @ x @ b)"
    using Cons like_prefix [of x "c # s"] by blast
  also have "\<dots> \<longleftrightarrow> (\<exists>a b. c # s = a @ x @ b)"
    by (metis append_Cons append_Nil list.exhaust_sel list.inject append_eq_Cons_conv)
  finally show ?case .
qed

text \<open>Searching a listing for a name without wildcard characters finds exactly the rows whose
  name contains it, upper and lower case taken as one.\<close>

theorem name_search_is_substring:
  assumes "\<forall>c \<in> set x. plain_char (lower c)"
  shows "contains_ci column x \<longleftrightarrow> (\<exists>s a b. column = Some s \<and> map lower s = a @ map lower x @ b)"
proof -
  have "map lower (''%'' @ x @ ''%'') = ''%'' @ map lower x @ ''%''" by (simp add: lower_def)
  then show ?thesis using like_contains [of "map lower x"] assms
    by (auto simp: contains_ci_def ilike_def split: option.splits)
qed

theorem name_search_is_substring_witness:
  "contains_ci (Some ''Web-Server'') ''SERV'' \<and> \<not> contains_ci (Some ''Web-Server'') ''x''"
proof -
  have 1: "\<forall>c \<in> set ''SERV''. plain_char (lower c)" "\<forall>c \<in> set ''x''. plain_char (lower c)" by code_simp+
  have "map lower ''Web-Server'' = ''web-'' @ map lower ''SERV'' @ ''er''" "CHR ''x'' \<notin> set (map lower ''Web-Server'')"
    "map lower ''x'' = ''x''" by code_simp+
  then show ?thesis
    unfolding name_search_is_substring [OF 1(1)] name_search_is_substring [OF 1(2)]
    by (metis Un_iff list.set_intros(1) option.inject set_append)
qed

end
