(* ===== verification/Api_Queries.thy ===== *)
theory Api_Queries
  imports Api_Answers Access_Control Queries Samples
begin

text \<open>
  The reading endpoints of \<^verbatim>\<open>api/routers\<close>: lists and single rows of instances, tasks,
  tenants, users and audit entries.
\<close>

section \<open>Instances and tasks\<close>

definition readers :: "role list" where
  "readers = [viewer, operator, admin]"

definition list_instances ::
  "api_env \<Rightarrow> (instance_model list \<Rightarrow> instance_model list) \<Rightarrow> string \<Rightarrow> int \<Rightarrow> int \<Rightarrow> string option \<Rightarrow>
     string option \<Rightarrow> uuid option \<Rightarrow> instance_response page_response sess_act" where
  "list_instances api order token limit offset status name tenant_id =
     authorized api token readers (\<lambda>u.
     bindM (liftM (page_params limit offset)) (\<lambda>_.
     bindM (liftM (resolve_tenant_scope_for_list u tenant_id)) (\<lambda>effective.
     bindM (db_op (list_instances_handle order \<lparr>li_limit = limit, li_offset = offset, li_status = status,
       li_name = name, li_tenant_id = effective\<rparr>)) (\<lambda>result.
     returnM (page_of to_instance_response limit offset result)))))"

definition get_instance :: "api_env \<Rightarrow> string \<Rightarrow> uuid \<Rightarrow> instance_response sess_act" where
  "get_instance api token iid =
     authorized api token readers (\<lambda>u.
     bindM (db_op (get_instance_query iid)) (\<lambda>i.
     bindM (liftM (ensure_instance_access u (inst_tenant_id i))) (\<lambda>_.
     returnM (to_instance_response i))))"

definition list_tasks ::
  "api_env \<Rightarrow> (instance_task_model list \<Rightarrow> instance_task_model list) \<Rightarrow> string \<Rightarrow> int \<Rightarrow> int \<Rightarrow> string option \<Rightarrow>
     uuid option \<Rightarrow> string option \<Rightarrow> uuid option \<Rightarrow> task_response page_response sess_act" where
  "list_tasks api order token limit offset status instance_id command tenant_id =
     authorized api token readers (\<lambda>u.
     bindM (liftM (page_params limit offset)) (\<lambda>_.
     bindM (liftM (resolve_tenant_scope_for_list u tenant_id)) (\<lambda>effective.
     bindM (db_op (list_tasks_handle order \<lparr>lt_limit = limit, lt_offset = offset, lt_status = status,
       lt_instance_id = instance_id, lt_command = command, lt_tenant_id = effective\<rparr>)) (\<lambda>result.
     returnM (page_of to_task_response limit offset result)))))"

definition get_task :: "api_env \<Rightarrow> string \<Rightarrow> uuid \<Rightarrow> task_response sess_act" where
  "get_task api token tid =
     authorized api token readers (\<lambda>u.
     bindM (db_op (get_task_tenant_id_or_raise tid)) (\<lambda>tenant_id.
     bindM (liftM (ensure_task_access u tenant_id)) (\<lambda>_.
     bindM (db_op (get_task_query tid)) (\<lambda>t.
     returnM (to_task_response t)))))"

section \<open>Tenants, users and audit entries\<close>

definition list_tenants ::
  "api_env \<Rightarrow> (tenant list \<Rightarrow> tenant list) \<Rightarrow> string \<Rightarrow> int \<Rightarrow> int \<Rightarrow> bool option \<Rightarrow>
     tenant_response page_response sess_act" where
  "list_tenants api order token limit offset is_active =
     authorized api token [admin] (\<lambda>u.
     bindM (liftM (page_params limit offset)) (\<lambda>_.
     bindM (db_op (list_tenants_query order limit offset is_active)) (\<lambda>result.
     returnM (page_of to_tenant_response limit offset result))))"

definition get_tenant :: "api_env \<Rightarrow> string \<Rightarrow> uuid \<Rightarrow> tenant_response sess_act" where
  "get_tenant api token tid =
     authorized api token [admin] (\<lambda>u.
     answer to_tenant_response (mapErrM (as_http is_tenant_missing 404) (db_op (get_tenant_query tid))))"

definition get_tenant_usage :: "api_env \<Rightarrow> string \<Rightarrow> uuid \<Rightarrow> tenant_usage_response sess_act" where
  "get_tenant_usage api token tid =
     authorized api token [admin] (\<lambda>u. answer to_tenant_usage_response (db_op (get_usage tid)))"

definition list_roles :: "api_env \<Rightarrow> string \<Rightarrow> string list sess_act" where
  "list_roles api token = authorized api token [admin] (\<lambda>u. returnM list_roles_query)"

definition list_users_endpoint ::
  "api_env \<Rightarrow> (user list \<Rightarrow> user list) \<Rightarrow> string \<Rightarrow> int \<Rightarrow> int \<Rightarrow> string option \<Rightarrow> bool option \<Rightarrow>
     string option \<Rightarrow> uuid option \<Rightarrow> user_response page_response sess_act" where
  "list_users_endpoint api order token limit offset role is_active username tenant_id =
     authorized api token [admin] (\<lambda>u.
     bindM (liftM (page_params limit offset)) (\<lambda>_.
     bindM (guardM (case role of None \<Rightarrow> True | Some r \<Rightarrow> r \<in> {''admin'', ''operator'', ''viewer''})
       (HTTPException 422 ''validation error'')) (\<lambda>_.
     bindM (db_op (list_users_handle order \<lparr>lu_limit = limit, lu_offset = offset, lu_role = role,
       lu_is_active = is_active, lu_username = username, lu_tenant_id = tenant_id\<rparr>)) (\<lambda>result.
     returnM (page_of to_user_response limit offset result)))))"

definition get_user :: "api_env \<Rightarrow> string \<Rightarrow> uuid \<Rightarrow> user_response sess_act" where
  "get_user api token uid =
     bindM (db_op (get_current_user (api_auth api) (ae_now (api_audit api)) token)) (\<lambda>u.
     bindM (guardM (\<not> (usr_role u \<noteq> admin \<and> usr_id u \<noteq> uid)) (HTTPException 403 ''forbidden'')) (\<lambda>_.
     bindM (mapErrM (\<lambda>e. if is_user_missing e then HTTPException 404 ''user not found'' else e)
       (db_op (get_user_query uid))) (\<lambda>found.
     returnM (to_user_response found))))"

definition list_audit_logs ::
  "api_env \<Rightarrow> (audit_log list \<Rightarrow> audit_log list) \<Rightarrow> string \<Rightarrow> int \<Rightarrow> int \<Rightarrow> uuid option \<Rightarrow> string option \<Rightarrow>
     string option \<Rightarrow> uuid option \<Rightarrow> uuid option \<Rightarrow> audit_log_response page_response sess_act" where
  "list_audit_logs api order token limit offset actor_user_id action target_type request_id tenant_id =
     authorized api token [admin] (\<lambda>u.
     bindM (liftM (page_params limit offset)) (\<lambda>_.
     bindM (db_op (list_audit_logs_handle order \<lparr>la_limit = limit, la_offset = offset,
       la_actor_user_id = actor_user_id, la_action = action, la_target_type = target_type,
       la_request_id = request_id, la_tenant_id = tenant_id\<rparr>)) (\<lambda>result.
     returnM (page_of to_audit_log_response limit offset result))))"

definition get_audit_log :: "api_env \<Rightarrow> string \<Rightarrow> uuid \<Rightarrow> audit_log_response sess_act" where
  "get_audit_log api token lid =
     authorized api token [admin] (\<lambda>u. answer to_audit_log_response (db_op (get_audit_log_query lid)))"

section \<open>What a list shows\<close>

lemma page_params_ok [simp]: "page_params limit offset = Inr x \<longleftrightarrow> 1 \<le> limit \<and> limit \<le> 200 \<and> 0 \<le> offset"
  by (auto simp: page_params_def)

lemma list_instances_run:
  assumes "request (list_instances api order token limit offset status name tid) d = (Inr pg, d')"
  obtains u effective items n where "admitted api token readers d u" "1 \<le> limit" "limit \<le> 200" "0 \<le> offset"
    "resolve_tenant_scope_for_list u tid = Inr effective"
    "instance_list order limit offset status name effective d = (Inr (items, n), d)"
    "pg = page_of to_instance_response limit offset (items, n)" "d' = d"
proof -
  obtain u where u: "admitted api token readers d u"
    and run: "request (bindM (liftM (page_params limit offset)) (\<lambda>_.
     bindM (liftM (resolve_tenant_scope_for_list u tid)) (\<lambda>effective.
     bindM (db_op (instance_list order limit offset status name effective)) (\<lambda>result.
     returnM (page_of to_instance_response limit offset result))))) d = (Inr pg, d')"
    using request_authorized [OF assms [unfolded list_instances_def listing_handles]] by blast
  from run obtain effective items n d1 where "1 \<le> limit" "limit \<le> 200" "0 \<le> offset"
    "resolve_tenant_scope_for_list u tid = Inr effective"
    "instance_list order limit offset status name effective d = (Inr (items, n), d1)"
    "pg = page_of to_instance_response limit offset (items, n)" "d' = d"
    by (auto simp: request_iff db_op_iff)
  moreover from this(5) have "d1 = d" by (blast dest: instance_list_run)
  ultimately show thesis using that u by blast
qed

lemma list_tasks_run:
  assumes "request (list_tasks api order token limit offset status iid cmd tid) d = (Inr pg, d')"
  obtains u effective items n where "admitted api token readers d u" "1 \<le> limit" "limit \<le> 200" "0 \<le> offset"
    "resolve_tenant_scope_for_list u tid = Inr effective"
    "task_list order limit offset status iid cmd effective d = (Inr (items, n), d)"
    "pg = page_of to_task_response limit offset (items, n)" "d' = d"
proof -
  obtain u where u: "admitted api token readers d u"
    and run: "request (bindM (liftM (page_params limit offset)) (\<lambda>_.
     bindM (liftM (resolve_tenant_scope_for_list u tid)) (\<lambda>effective.
     bindM (db_op (task_list order limit offset status iid cmd effective)) (\<lambda>result.
     returnM (page_of to_task_response limit offset result))))) d = (Inr pg, d')"
    using request_authorized [OF assms [unfolded list_tasks_def listing_handles]] by blast
  from run obtain effective items n d1 where "1 \<le> limit" "limit \<le> 200" "0 \<le> offset"
    "resolve_tenant_scope_for_list u tid = Inr effective"
    "task_list order limit offset status iid cmd effective d = (Inr (items, n), d1)"
    "pg = page_of to_task_response limit offset (items, n)" "d' = d"
    by (auto simp: request_iff db_op_iff)
  moreover from this(5) have "d1 = d" by (blast dest: task_list_run)
  ultimately show thesis using that u by blast
qed

lemma bind_member_given:
  assumes "bind_member str members v = Inr m" "inj str"
  shows "given m (\<lambda>x. y = x) \<longleftrightarrow> given_text v (\<lambda>s. str y = s)"
proof (cases v)
  case None
  then show ?thesis using assms(1) by (auto simp: bind_member_def given_def given_text_def)
next
  case (Some s)
  show ?thesis
  proof (cases "s = []")
    case True
    then show ?thesis using assms(1) Some by (auto simp: bind_member_def given_def given_text_def)
  next
    case False
    then obtain x where x: "find (\<lambda>m. str m = s) members = Some x" "m = Some x"
      using assms(1) Some by (auto simp: bind_member_def split: option.splits)
    then have "str x = s" by (auto simp: find_Some_iff)
    then show ?thesis using Some False x(2) assms(2) by (auto simp: given_def given_text_def dest: injD)
  qed
qed

lemma inj_strs: "inj instance_status_str" "inj task_status_str" "inj task_command_str"
proof -
  show "inj instance_status_str"
  proof (rule injI)
    fix a b assume "instance_status_str a = instance_status_str b"
    then show "a = b" by (cases a; cases b) simp_all
  qed
  show "inj task_status_str"
  proof (rule injI)
    fix a b assume "task_status_str a = task_status_str b"
    then show "a = b" by (cases a; cases b) simp_all
  qed
  show "inj task_command_str"
  proof (rule injI)
    fix a b assume "task_command_str a = task_command_str b"
    then show "a = b" by (cases a; cases b) simp_all
  qed
qed

lemma scope_given:
  assumes "resolve_tenant_scope_for_list u req = Inr scope"
  shows "given scope (\<lambda>t. k = t) \<longleftrightarrow> given req (\<lambda>t. k = t) \<and> may_touch u k"
  using assms by (auto simp: resolve_tenant_scope_for_list_def given_def may_touch_def split: if_splits option.splits)

text \<open>What a caller who asks for instances is to see.\<close>

definition wanted_instance ::
  "user \<Rightarrow> string option \<Rightarrow> string option \<Rightarrow> uuid option \<Rightarrow> instance_model \<Rightarrow> bool" where
  "wanted_instance u status name tid m \<longleftrightarrow> may_touch u (im_tenant_id m) \<and> given tid (\<lambda>t. im_tenant_id m = t) \<and>
     given_text status (\<lambda>s. instance_status_str (im_status m) = s) \<and> given_text name (contains_ci (im_name m))"

definition wanted_task ::
  "user \<Rightarrow> string option \<Rightarrow> uuid option \<Rightarrow> string option \<Rightarrow> uuid option \<Rightarrow> instance_model \<Rightarrow> instance_task_model \<Rightarrow> bool" where
  "wanted_task u status iid cmd tid i t \<longleftrightarrow> im_id i = task_instance_id t \<and> may_touch u (im_tenant_id i) \<and>
     given tid (\<lambda>k. im_tenant_id i = k) \<and> given iid (\<lambda>k. task_instance_id t = k) \<and>
     given_text status (\<lambda>s. task_status_str (task_stat t) = s) \<and>
     given_text cmd (\<lambda>s. task_command_str (task_cmd t) = s)"

text \<open>When a list is refused to a user: no such page, another tenant's scope, no such status.\<close>

definition list_refused :: "user \<Rightarrow> int \<Rightarrow> int \<Rightarrow> string option \<Rightarrow> uuid option \<Rightarrow> bool" where
  "list_refused u limit offset status tid \<longleftrightarrow>
     \<not> (1 \<le> limit \<and> limit \<le> 200 \<and> 0 \<le> offset) \<or>
     usr_role u \<noteq> admin \<and> (usr_tenant_id u = None \<or> tid \<noteq> None \<and> tid \<noteq> usr_tenant_id u) \<or>
     (\<exists>s. status = Some s \<and> s \<noteq> [] \<and> s \<notin> range instance_status_str)"

lemma scope_resolved:
  "(\<exists>scope. resolve_tenant_scope_for_list u tid = Inr scope) \<longleftrightarrow>
     \<not> (usr_role u \<noteq> admin \<and> (usr_tenant_id u = None \<or> tid \<noteq> None \<and> tid \<noteq> usr_tenant_id u))"
  by (auto simp: resolve_tenant_scope_for_list_def split: option.split)

lemma status_bound:
  "(\<exists>st. bind_member instance_status_str all_instance_status status = Inr st) \<longleftrightarrow>
     \<not> (\<exists>s. status = Some s \<and> s \<noteq> [] \<and> s \<notin> range instance_status_str)"
proof -
  have all: "x \<in> set all_instance_status" for x by (cases x) (simp_all add: all_instance_status_def)
  have "status = Some s \<Longrightarrow> ?thesis" for s
  proof (cases "s \<in> range instance_status_str")
    case False
    then have "find (\<lambda>m. instance_status_str m = s) all_instance_status = None" by (auto simp: find_None_iff)
    then show "status = Some s \<Longrightarrow> ?thesis" using False by (simp add: bind_member_def)
  next
    case True
    then have "find (\<lambda>m. instance_status_str m = s) all_instance_status \<noteq> None" using all by (auto simp: find_None_iff)
    then show "status = Some s \<Longrightarrow> ?thesis" using True by (auto simp: bind_member_def)
  qed
  then show ?thesis by (cases status) (simp_all add: bind_member_def)
qed

lemma list_instances_answers:
  assumes "admitted api token readers d u" "\<not> list_refused u limit offset status tid"
  shows "\<exists>pg. request (list_instances api order token limit offset status name tid) d = (Inr pg, d)"
proof -
  obtain effective st where ok: "resolve_tenant_scope_for_list u tid = Inr effective"
    "bind_member instance_status_str all_instance_status status = Inr st"
    using assms(2) scope_resolved [of u tid] status_bound [of status] by (auto simp: list_refused_def)
  have page: "1 \<le> limit \<and> limit \<le> 200 \<and> 0 \<le> offset" using assms(2) by (auto simp: list_refused_def)
  then have "\<exists>items n. instance_list order limit offset status name effective d = (Inr (items, n), d)"
    using ok(2) by (auto simp: instance_list_def bindM_sql_run bindM_run select_page_def)
  then obtain items n where "db_op (instance_list order limit offset status name effective) (open_session d) =
      (Inr (items, n), open_session d)"
    by (auto simp: db_op_iff open_session_def)
  then have "(bindM (liftM (page_params limit offset)) (\<lambda>_.
     bindM (liftM (resolve_tenant_scope_for_list u tid)) (\<lambda>effective.
     bindM (db_op (instance_list order limit offset status name effective)) (\<lambda>result.
     returnM (page_of to_instance_response limit offset result))))) (open_session d) =
       (Inr (page_of to_instance_response limit offset (items, n)), open_session d)"
    using page ok(1) by (simp add: page_params_def bindM_run bindM_step returnM_def)
  then show ?thesis
    unfolding list_instances_def listing_handles request_admitted [OF assms(1)] by (auto simp: request_iff)
qed

text \<open>C32: listing instances shows, out of exactly the instances that match every filter given and
  that the caller may see (his tenant's own unless he is an administrator), in the order of their
  age, newest first, those from the offset on, up to the limit, and tells how many there are in
  all.  A caller who is admitted is refused a list only for page bounds out of range, for
  another tenant's scope, or for a status that is none.  It changes nothing.\<close>

theorem list_instances_shows_own:
  assumes "newest_first im_created_at order"
  shows "case request (list_instances api order token limit offset status name tid) d of
      (Inl _, d') \<Rightarrow> d' = d \<and> (\<forall>u. admitted api token readers d u \<longrightarrow> list_refused u limit offset status tid)
    | (Inr pg, d') \<Rightarrow> d' = d \<and> (\<exists>u rows. admitted api token readers d u \<and>
        1 \<le> limit \<and> limit \<le> 200 \<and> 0 \<le> offset \<and>
        mset rows = mset (filter (wanted_instance u status name tid) (instances d)) \<and>
        sorted_wrt (\<lambda>a b. im_created_at b \<le> im_created_at a) rows \<and>
        pg = \<lparr>pr_items = map (to_instance_response \<circ> to_instance) (take (nat limit) (drop (nat offset) rows)),
          pr_total = int (length rows), pr_limit = limit, pr_offset = offset\<rparr>)"
proof -
  obtain r d' where run: "request (list_instances api order token limit offset status name tid) d = (r, d')"
    by (rule prod.exhaust)
  have same: "d' = d"
    by (rule request_uncommitted [OF _ run]) (simp add: list_instances_def listing_handles commit_intros)
  show ?thesis
  proof (cases r)
    case (Inl e)
    then have "list_refused u limit offset status tid" if "admitted api token readers d u" for u
      using list_instances_answers [OF that, of limit offset status tid order name] run by auto
    then show ?thesis using run same Inl by simp
  next
    case (Inr pg)
    obtain u effective items n where u: "admitted api token readers d u" "1 \<le> limit" "limit \<le> 200" "0 \<le> offset"
        and scope: "resolve_tenant_scope_for_list u tid = Inr effective"
        and list: "instance_list order limit offset status name effective d = (Inr (items, n), d)"
        and pg: "pg = page_of to_instance_response limit offset (items, n)"
      by (rule list_instances_run [OF run [unfolded Inr]])
    let ?rows = "filter (wanted_instance u status name tid) (instances d)"
    obtain st ms where st: "bind_member instance_status_str all_instance_status status = Inr st"
      and page: "select_page order limit offset (filter (\<lambda>m. given st (\<lambda>x. im_status m = x) \<and>
        given_text name (contains_ci (im_name m)) \<and> given effective (\<lambda>t. im_tenant_id m = t)) (instances d)) = Inr (ms, n)"
      and items: "items = map to_instance ms"
      using instance_list_run [OF list] by blast
    have "filter (\<lambda>m. given st (\<lambda>x. im_status m = x) \<and> given_text name (contains_ci (im_name m)) \<and>
        given effective (\<lambda>t. im_tenant_id m = t)) (instances d) = ?rows"
      using bind_member_given [OF st inj_strs(1)] scope_given [OF scope]
      by (intro filter_cong) (auto simp: wanted_instance_def)
    with page have "ms = take (nat limit) (drop (nat offset) (order ?rows))" "n = int (length ?rows)"
      by (auto simp: select_page_def split: if_splits)
    moreover have "mset (order ?rows) = mset ?rows"
      "sorted_wrt (\<lambda>a b. im_created_at b \<le> im_created_at a) (order ?rows)"
      using assms by (auto simp: newest_first_def)
    moreover from this(1) have "length (order ?rows) = length ?rows" by (metis size_mset)
    ultimately show ?thesis
      using run same Inr u pg items by (auto simp: page_of_def intro!: exI [of _ u] exI [of _ "order ?rows"])
  qed
qed

text \<open>The same for tasks: a page, newest first, of the tasks that match the filters and
  whose instance belongs to a tenant the caller may see, and their number.\<close>

theorem list_tasks_shows_own:
  assumes "newest_first task_created_at order"
  shows "case request (list_tasks api order token limit offset status iid cmd tid) d of
      (Inl _, d') \<Rightarrow> d' = d
    | (Inr pg, d') \<Rightarrow> d' = d \<and> (\<exists>u ts. admitted api token readers d u \<and>
        pr_items pg = map (to_task_response \<circ> to_task) ts \<and>
        mset ts \<subseteq># mset [t. t \<leftarrow> instance_tasks d, i \<leftarrow> instances d, wanted_task u status iid cmd tid i t] \<and>
        pr_total pg = int (length [t. t \<leftarrow> instance_tasks d, i \<leftarrow> instances d, wanted_task u status iid cmd tid i t]) \<and>
        int (length ts) \<le> limit \<and> limit \<le> 200 \<and>
        sorted_wrt (\<lambda>a b. task_created_at b \<le> task_created_at a) ts)"
proof -
  obtain r d' where run: "request (list_tasks api order token limit offset status iid cmd tid) d = (r, d')"
    by (rule prod.exhaust)
  have same: "d' = d"
    by (rule request_uncommitted [OF _ run]) (simp add: list_tasks_def listing_handles commit_intros)
  show ?thesis
  proof (cases r)
    case (Inl e)
    then show ?thesis using run same by simp
  next
    case (Inr pg)
    obtain u effective items n where u: "admitted api token readers d u" "limit \<le> 200"
        and scope: "resolve_tenant_scope_for_list u tid = Inr effective"
        and list: "task_list order limit offset status iid cmd effective d = (Inr (items, n), d)"
        and pg: "pg = page_of to_task_response limit offset (items, n)"
      by (rule list_tasks_run [OF run [unfolded Inr]])
    obtain st c ts where st: "bind_member task_status_str all_task_status status = Inr st"
        "bind_member task_command_str all_task_command cmd = Inr c"
      and page: "select_page order limit offset [t. t \<leftarrow> instance_tasks d, i \<leftarrow> instances d,
         im_id i = task_instance_id t \<and> given st (\<lambda>x. task_stat t = x) \<and>
         given iid (\<lambda>k. task_instance_id t = k) \<and> given c (\<lambda>x. task_cmd t = x) \<and>
         given effective (\<lambda>k. im_tenant_id i = k)] = Inr (ts, n)"
      and items: "items = map to_task ts"
      using task_list_run [OF list] by blast
    have "(im_id i = task_instance_id t \<and> given st (\<lambda>x. task_stat t = x) \<and>
         given iid (\<lambda>k. task_instance_id t = k) \<and> given c (\<lambda>x. task_cmd t = x) \<and>
         given effective (\<lambda>k. im_tenant_id i = k)) = wanted_task u status iid cmd tid i t" for i t
      using bind_member_given [OF st(1) inj_strs(2)] bind_member_given [OF st(2) inj_strs(3)] scope_given [OF scope]
      by (auto simp: wanted_task_def)
    note page' = page [unfolded this]
    from select_page_facts [OF assms page'] show ?thesis
      using run same Inr u pg items by (auto simp: page_of_def intro!: exI [of _ u] exI [of _ ts])
  qed
qed

text \<open>C33: an instance is shown to administrators and to its tenant.  For anybody else the answer
  is an error, but not the one for an instance that does not exist: both are 404, the code and the
  message of the body tell an existing instance of another tenant from a missing one.\<close>

theorem get_instance_answer:
  assumes "admitted api token readers d u"
  shows "request (get_instance api token iid) d =
    (case inst_at d iid of
       None \<Rightarrow> (Inl (NotFoundError (''instance '' @ uuid_str iid @ '' not found'')), d)
     | Some i \<Rightarrow> if usr_role u = admin \<or> usr_tenant_id u = Some (inst_tenant_id i)
         then (Inr (to_instance_response i), d)
         else (Inl (InstanceNotFoundError ''instance not found''), d))"
  unfolding get_instance_def request_admitted [OF assms]
  by (auto simp: request_iff get_instance_query_def db_op_def bindM_run instance_read_get_None
      ensure_instance_access_def open_session_def bindM_def liftM_def split: option.splits)

text \<open>Of two instances of the operator's tenant, the second page of one shows the older.\<close>

definition sample_fleet :: db where
  "sample_fleet = sample_users_db\<lparr>instances :=
     [sample_vm 21 1, sample_vm 22 2, sample_vm 23 2\<lparr>im_created_at := 70\<rparr>]\<rparr>"

theorem list_instances_shows_own_witness:
  "request (list_instances sample_api (sort_key (\<lambda>m. - im_created_at m)) sample_bearer 1 1 (Some ''running'')
       None None) sample_fleet =
     (Inr \<lparr>pr_items = [to_instance_response (to_instance (sample_vm 22 2))], pr_total = 2, pr_limit = 1, pr_offset = 1\<rparr>,
      sample_fleet)"
proof -
  let ?r = "request (list_instances sample_api (sort_key (\<lambda>m. - im_created_at m)) sample_bearer 1 1 (Some ''running'')
       None None) sample_fleet"
  let ?new = "sample_vm 23 2\<lparr>im_created_at := 70\<rparr>"
  have adm: "admitted sample_api sample_bearer readers sample_fleet sample_operator"
    by (rule sample_admitted)
      (simp_all add: sample_fleet_def sample_users_db_def user_at_def sample_admin_def sample_operator_def readers_def)
  then have only: "admitted sample_api sample_bearer readers sample_fleet u \<longleftrightarrow> u = sample_operator" for u
    by (auto simp: admitted_def)
  have ok: "\<not> list_refused sample_operator 1 1 (Some ''running'') None"
    using rangeI [of instance_status_str running] by (simp add: list_refused_def sample_operator_def)
  have rows: "filter (wanted_instance sample_operator (Some ''running'') None None) (instances sample_fleet) =
      [sample_vm 22 2, ?new]"
    by (simp add: sample_fleet_def wanted_instance_def may_touch_def given_def given_text_def sample_vm_def sample_operator_def)
  have two: "xs = [?new, sample_vm 22 2]"
    if "mset xs = {#sample_vm 22 2, ?new#}" "sorted_wrt (\<lambda>a b. im_created_at b \<le> im_created_at a) xs" for xs
  proof -
    have "length xs = 2" using arg_cong [OF that(1), of size] by simp
    then obtain x y where "xs = [x, y]" by (auto simp: numeral_2_eq_2 length_Suc_conv)
    then show ?thesis using that by (auto simp: add_eq_conv_ex sample_vm_def)
  qed
  show ?thesis
    using list_instances_shows_own [OF newest_first_sort, where api = sample_api and token = sample_bearer and limit = 1
      and offset = 1 and status = "Some ''running''" and name = None and tid = None and d = sample_fleet] adm ok
    by (auto simp: only rows simp del: mset_filter dest!: two split: prod.splits sum.splits)
qed

theorem list_tasks_shows_own_witness:
  "case request (list_tasks sample_api (sort_key (\<lambda>m. - task_created_at m)) sample_bearer 20 0 None None
       (Some ''create'') None) sample_users_db of
      (Inl _, d') \<Rightarrow> d' = sample_users_db
    | (Inr pg, d') \<Rightarrow> d' = sample_users_db \<and> pr_total pg = 0"
proof -
  let ?r = "request (list_tasks sample_api (sort_key (\<lambda>m. - task_created_at m)) sample_bearer 20 0 None None
       (Some ''create'') None) sample_users_db"
  have no: "instance_tasks sample_users_db = []" by (simp add: sample_users_db_def sample_db_def empty_db_def)
  obtain r d' where run: "?r = (r, d')" by (rule prod.exhaust)
  show ?thesis
    using list_tasks_shows_own [OF newest_first_sort, where api = sample_api and token = sample_bearer and limit = 20
      and offset = 0 and status = None and iid = None and cmd = "Some ''create''" and tid = None and d = sample_users_db] run
    by (cases r) (auto simp: no)
qed

theorem get_instance_answer_witness:
  "request (get_instance sample_api sample_bearer 22) sample_vms_db =
     (Inr (to_instance_response (to_instance (sample_vm 22 2))), sample_vms_db) \<and>
   request (get_instance sample_api sample_bearer 21) sample_vms_db =
     (Inl (InstanceNotFoundError ''instance not found''), sample_vms_db) \<and>
   request (get_instance sample_api sample_bearer 23) sample_vms_db =
     (Inl (NotFoundError (''instance '' @ uuid_str 23 @ '' not found'')), sample_vms_db)"
proof -
  have "admitted sample_api sample_bearer readers sample_vms_db sample_operator"
    by (rule sample_admitted)
      (simp_all add: sample_vms_db_def sample_users_db_def user_at_def sample_admin_def sample_operator_def readers_def)
  note answer = get_instance_answer [OF this]
  have "inst_at sample_vms_db 21 = Some (to_instance (sample_vm 21 1))" "inst_at sample_vms_db 22 = Some (to_instance (sample_vm 22 2))"
    "inst_at sample_vms_db 23 = None"
    by (simp_all add: inst_at_def sample_vms_db_def sample_vm_def)
  then show ?thesis unfolding answer by (simp add: sample_operator_def sample_vm_def)
qed

end
