(* ===== verification/Tenant_Commands.thy ===== *)
theory Tenant_Commands
  imports Tenant_Repo Samples
begin

text \<open>
  \<^verbatim>\<open>application/commands/tenant_commands.py\<close>: creating, changing and deleting a tenant and
  its quota, each in one transaction with its audit entry.  Metadata is listed in the order of the
  source.
\<close>

definition default_tenant_key :: string where
  "default_tenant_key = ''default''"

record create_tenant_command =
  ct_key :: string
  ct_name :: string
  ct_is_active :: bool
  ct_max_instances :: int
  ct_max_cpu :: int
  ct_max_memory_mib :: int
  ct_max_disk_gib :: int
  ct_actor :: user

record update_tenant_command =
  ut_tenant_id :: uuid
  ut_name :: "string option"
  ut_is_active :: "bool option"
  ut_actor :: user

record update_tenant_quota_command =
  uq_tenant_id :: uuid
  uq_max_instances :: int
  uq_max_cpu :: int
  uq_max_memory_mib :: int
  uq_max_disk_gib :: int
  uq_actor :: user

record delete_tenant_command =
  dt_tenant_id :: uuid
  dt_actor :: user

definition quota_entries :: "tenant_quota \<Rightarrow> dict" where
  "quota_entries q = [(''max_instances'', JInt (max_instances q)), (''max_cpu'', JInt (max_cpu q)),
     (''max_memory_mib'', JInt (max_memory_mib q)), (''max_disk_gib'', JInt (max_disk_gib q))]"

definition tenant_entry :: "string \<Rightarrow> uuid \<Rightarrow> user \<Rightarrow> dict \<Rightarrow> audit_entry" where
  "tenant_entry action tid actor metadata =
     (entry action ''tenant'' (Some (uuid_str tid)))
       \<lparr>en_actor_user := Some actor, en_tenant_id := Some tid, en_metadata := metadata\<rparr>"

text \<open>The exceptions the handlers raise under a text of their own.\<close>

definition conflict_as :: "string \<Rightarrow> error \<Rightarrow> error" where
  "conflict_as msg e = (case e of ConflictError _ \<Rightarrow> ConflictError msg | _ \<Rightarrow> e)"

definition no_tenant :: "uuid \<Rightarrow> error" where
  "no_tenant tid = TenantNotFoundError (''tenant '' @ uuid_str tid @ '' not found'')"

definition create_tenant_handle ::
  "audit_env \<Rightarrow> uuid \<Rightarrow> create_tenant_command \<Rightarrow> (tenant \<times> tenant_quota) sess_act" where
  "create_tenant_handle env tid cmd =
     bindM (mapErrM (conflict_as ''tenant key already exists'')
       (db_op (tenant_create tid (ae_now env) (ct_key cmd) (ct_name cmd) (ct_is_active cmd)))) (\<lambda>t.
     bindM (db_op (quota_upsert (ae_now env) (ten_id t) (ct_max_instances cmd) (ct_max_cpu cmd)
       (ct_max_memory_mib cmd) (ct_max_disk_gib cmd))) (\<lambda>q.
     bindM (db_op (audit_write env (tenant_entry ''tenant.create'' (ten_id t) (ct_actor cmd)
       ((''key'', JStr (ten_key t)) # quota_entries q)))) (\<lambda>_.
     bindM commit (\<lambda>_.
     returnM (t, q)))))"

definition update_tenant_handle ::
  "audit_env \<Rightarrow> update_tenant_command \<Rightarrow> (tenant \<times> tenant_quota option) sess_act" where
  "update_tenant_handle env cmd =
     bindM (db_op (tenant_get (ut_tenant_id cmd))) (\<lambda>found.
     case found of
       None \<Rightarrow> raiseM (no_tenant (ut_tenant_id cmd))
     | Some t \<Rightarrow>
       bindM (guardM (\<not> (ten_key t = default_tenant_key \<and> ut_is_active cmd = Some False))
         (ConflictError ''default tenant cannot be deactivated'')) (\<lambda>_.
       bindM (db_op (tenant_update (ae_now env) (ut_tenant_id cmd) (ut_name cmd) (ut_is_active cmd))) (\<lambda>t'.
       bindM (db_op (audit_write env (tenant_entry ''tenant.update'' (ten_id t') (ut_actor cmd)
         [(''name'', JStr (ten_name t')), (''is_active'', JBool (ten_is_active t'))]))) (\<lambda>_.
       bindM commit (\<lambda>_.
       bindM (db_op (quota_get (ten_id t'))) (\<lambda>q.
       returnM (t', q)))))))"

definition update_tenant_quota_handle ::
  "audit_env \<Rightarrow> update_tenant_quota_command \<Rightarrow> tenant_quota sess_act" where
  "update_tenant_quota_handle env cmd =
     bindM (db_op (tenant_get (uq_tenant_id cmd))) (\<lambda>found.
     case found of
       None \<Rightarrow> raiseM (no_tenant (uq_tenant_id cmd))
     | Some _ \<Rightarrow>
       bindM (db_op (get_usage (uq_tenant_id cmd))) (\<lambda>usage.
       bindM (guardM (\<not> uq_max_instances cmd < used_instances usage)
         (QuotaConflictError ''max_instances cannot be lower than current usage'')) (\<lambda>_.
       bindM (guardM (\<not> uq_max_cpu cmd < used_cpu usage)
         (QuotaConflictError ''max_cpu cannot be lower than current usage'')) (\<lambda>_.
       bindM (guardM (\<not> uq_max_memory_mib cmd < used_memory_mib usage)
         (QuotaConflictError ''max_memory_mib cannot be lower than current usage'')) (\<lambda>_.
       bindM (guardM (\<not> uq_max_disk_gib cmd < used_disk_gib usage)
         (QuotaConflictError ''max_disk_gib cannot be lower than current usage'')) (\<lambda>_.
       bindM (db_op (quota_upsert (ae_now env) (uq_tenant_id cmd) (uq_max_instances cmd)
         (uq_max_cpu cmd) (uq_max_memory_mib cmd) (uq_max_disk_gib cmd))) (\<lambda>q.
       bindM (db_op (audit_write env (tenant_entry ''tenant.quota.update'' (uq_tenant_id cmd)
         (uq_actor cmd) (quota_entries q)))) (\<lambda>_.
       bindM commit (\<lambda>_.
       returnM q)))))))))"

definition delete_tenant_handle ::
  "(uuid \<Rightarrow> unit db_act) \<Rightarrow> audit_env \<Rightarrow> delete_tenant_command \<Rightarrow> unit sess_act" where
  "delete_tenant_handle orm_delete env cmd =
     bindM (db_op (tenant_get (dt_tenant_id cmd))) (\<lambda>found.
     case found of
       None \<Rightarrow> raiseM (no_tenant (dt_tenant_id cmd))
     | Some t \<Rightarrow>
       bindM (guardM (ten_key t \<noteq> default_tenant_key) (ConflictError ''default tenant cannot be deleted'')) (\<lambda>_.
       bindM (db_op (count_active_users (dt_tenant_id cmd))) (\<lambda>n.
       bindM (guardM (\<not> n > 0) (ConflictError ''tenant has active users'')) (\<lambda>_.
       bindM (db_op (count_active_instances (dt_tenant_id cmd))) (\<lambda>m.
       bindM (guardM (\<not> m > 0) (ConflictError ''tenant has active instances'')) (\<lambda>_.
       bindM (db_op (tenant_delete orm_delete (dt_tenant_id cmd))) (\<lambda>_.
       bindM (db_op (audit_write env (tenant_entry ''tenant.delete'' (dt_tenant_id cmd) (dt_actor cmd) []))) (\<lambda>_.
       commit))))))))"


section \<open>What the commands do\<close>

lemmas handler_defs = create_tenant_handle_def update_tenant_handle_def update_tenant_quota_handle_def
  delete_tenant_handle_def

lemma bindM_returnM_right: "bindM m returnM = m"
  by (rule ext) (auto simp: bindM_def split: prod.splits sum.splits)

lemma commits_then: "commits_last (bindM commit (\<lambda>_. bindM (db_op (quota_get k)) (\<lambda>q. returnM (t, q))))"
  by (auto simp: commits_last_def bindM_def db_op_def quota_get_run)

lemma tenant_handlers_commit_last:
  "commits_last (create_tenant_handle env tid ccmd)" "commits_last (update_tenant_handle env ucmd)"
  "commits_last (update_tenant_quota_handle env qcmd)" "commits_last (delete_tenant_handle del env dcmd)"
proof -
  have "uncommitted (mapErrM f (db_op m))" for f :: "error \<Rightarrow> error" and m :: "'x db_act"
    by (auto simp: uncommitted_def mapErrM_def catchM_def db_op_def split: prod.splits sum.splits)
  then show "commits_last (create_tenant_handle env tid ccmd)"
    unfolding create_tenant_handle_def by (intro commit_intros)
  show "commits_last (update_tenant_handle env ucmd)"
    unfolding update_tenant_handle_def by (intro commit_intros commits_then)
  show "commits_last (update_tenant_quota_handle env qcmd)" "commits_last (delete_tenant_handle del env dcmd)"
    unfolding update_tenant_quota_handle_def delete_tenant_handle_def by (intro commit_intros)+
qed

lemma update_tenant_quota_effect:
  assumes "request (update_tenant_quota_handle env cmd) d = (Inr q, d')"
  shows "\<exists>u. usage_amount u = tenant_used d (uq_tenant_id cmd) \<and> usage_amount u \<le> quota_amount q \<and>
    quota_at d' = (quota_at d)(uq_tenant_id cmd \<mapsto> q) \<and> instances d' = instances d \<and> tenants d' = tenants d \<and>
    users d' = users d"
proof -
  let ?t = "uq_tenant_id cmd"
  obtain u d1 d2 where u: "get_usage ?t d = (Inr u, d)"
    and le: "used_instances u \<le> uq_max_instances cmd" "used_cpu u \<le> uq_max_cpu cmd"
      "used_memory_mib u \<le> uq_max_memory_mib cmd" "used_disk_gib u \<le> uq_max_disk_gib cmd"
    and q: "quota_upsert (ae_now env) ?t (uq_max_instances cmd) (uq_max_cpu cmd) (uq_max_memory_mib cmd)
        (uq_max_disk_gib cmd) d = (Inr q, d1)"
    and a: "audit_write env (tenant_entry ''tenant.quota.update'' ?t (uq_actor cmd) (quota_entries q)) d1 = (Inr (), d')"
    using assms
    by (auto simp: update_tenant_quota_handle_def request_iff db_op_iff tenant_get_run get_usage_run not_less
        split: option.splits if_splits)
  note qs = quota_upsert_ok [OF q]
  note fr = only_audit_sel [OF audit_write_only [OF a]]
  have "quota_at d' = quota_at d1" using fr by (simp add: quota_at_def fun_eq_iff)
  moreover have "usage_amount u \<le> quota_amount q"
    using le qs(1) by (simp add: usage_amount_def quota_amount_def less_eq_amount_def)
  ultimately show ?thesis using qs(2,3) fr get_usage_amount [OF u] by auto
qed

text \<open>
  An accepted change of a quota leaves the tenant's usage within the new quota
  and touches no other tenant's quota and no instance; a refused one changes nothing.
\<close>

theorem quota_update_covers_usage:
  "case request (update_tenant_quota_handle env cmd) d of
     (Inl e, d') \<Rightarrow> d' = d
   | (Inr q, d') \<Rightarrow> quota_at d' = (quota_at d)(uq_tenant_id cmd \<mapsto> q) \<and> instances d' = instances d \<and>
       tenant_used d' (uq_tenant_id cmd) \<le> quota_amount q"
proof (cases "request (update_tenant_quota_handle env cmd) d")
  case (Pair r d')
  show ?thesis
  proof (cases r)
    case (Inl e)
    then show ?thesis using failed_request [OF tenant_handlers_commit_last(3)] Pair by auto
  next
    case (Inr q)
    from update_tenant_quota_effect [OF Pair [unfolded Inr]] Pair Inr show ?thesis
      by (auto simp: tenant_used_def)
  qed
qed

section \<open>Deleting a tenant\<close>

text \<open>What the code relies on: when the ORM returns, the row is gone.\<close>

definition deletes_tenant :: "(uuid \<Rightarrow> unit db_act) \<Rightarrow> bool" where
  "deletes_tenant orm_delete \<longleftrightarrow> (\<forall>k d d'. orm_delete k d = (Inr (), d') \<longrightarrow> tenant_at d' k = None)"

lemma audit_needs_tenant:
  "audit_write env (tenant_entry action tid actor md) d = (Inr u, d') \<Longrightarrow> tenant_at d tid \<noteq> None"
  by (drule audit_write_run)
     (auto simp: audit_violates_def entry_row_def tenant_entry_def exists_row_def tenant_at_def split: if_splits)

lemma delete_tenant_fails:
  assumes "deletes_tenant orm_delete"
  shows "\<exists>e. request (delete_tenant_handle orm_delete env cmd) d = (Inl e, d)"
proof (cases "request (delete_tenant_handle orm_delete env cmd) d")
  case (Pair r d')
  show ?thesis
  proof (cases r)
    case (Inl e)
    then show ?thesis using failed_request [OF tenant_handlers_commit_last(4)] Pair by blast
  next
    case (Inr u)
    then obtain d1 d2 v where "tenant_delete orm_delete (dt_tenant_id cmd) d = (Inr (), d1)"
      and a: "audit_write env (tenant_entry ''tenant.delete'' (dt_tenant_id cmd) (dt_actor cmd) []) d1 = (Inr v, d2)"
      using Pair
      by (auto simp: delete_tenant_handle_def request_iff db_op_iff tenant_get_run count_active_users_def
          count_active_instances_def split: option.splits)
    then have "tenant_at d1 (dt_tenant_id cmd) = None"
      using assms by (auto simp: tenant_delete_def bindM_sql_run deletes_tenant_def split: option.splits)
    with audit_needs_tenant [OF a] show ?thesis by simp
  qed
qed

text \<open>
  C25: no tenant can be deleted.  The audit entry of the deletion is written after the
  row is gone and refers to it, so its foreign key always fails and the whole request is rolled
  back.
\<close>

theorem delete_tenant_never_commits:
  assumes "deletes_tenant orm_delete"
  shows "\<exists>e. request (delete_tenant_handle orm_delete env cmd) d = (Inl e, d)"
  by (rule delete_tenant_fails [OF assms])

definition sample_orm_delete :: "uuid \<Rightarrow> unit db_act" where
  "sample_orm_delete k d = (Inr (), tenants_update (filter (\<lambda>t. ten_id t \<noteq> k)) d)"

lemma sample_orm_deletes: "deletes_tenant sample_orm_delete"
  by (auto simp: deletes_tenant_def sample_orm_delete_def tenant_at_def row_of_None_iff)

theorem delete_tenant_never_commits_witness:
  "request (delete_tenant_handle sample_orm_delete sample_env
     \<lparr>dt_tenant_id = 2, dt_actor = sample_admin\<rparr>) sample_db =
   (Inl (IntegrityError ''audit_logs_tenant_id_fkey''), sample_db)"
proof -
  let ?m = "delete_tenant_handle sample_orm_delete sample_env \<lparr>dt_tenant_id = 2, dt_actor = sample_admin\<rparr>"
  have "fst (request ?m sample_db) = Inl (IntegrityError ''audit_logs_tenant_id_fkey'')" by code_simp
  moreover obtain e where "request ?m sample_db = (Inl e, sample_db)"
    using delete_tenant_never_commits [OF sample_orm_deletes] by blast
  ultimately show ?thesis by simp
qed

section \<open>The default tenant\<close>

definition default_ok :: "db \<Rightarrow> bool" where
  "default_ok d \<longleftrightarrow> (\<exists>t \<in> set (tenants d). ten_key t = default_tenant_key \<and> ten_is_active t)"

definition directory_ok :: "db \<Rightarrow> bool" where
  "directory_ok d \<longleftrightarrow> tenants_ok d \<and> default_ok d"

lemma directory_frame:
  "tenants d' = tenants d \<Longrightarrow> tenant_quotas d' = tenant_quotas d \<Longrightarrow> directory_ok d' = directory_ok d"
  by (simp add: directory_ok_def tenants_ok_def default_ok_def)

lemma directory_audit: "only_audit d d' \<Longrightarrow> directory_ok d' = directory_ok d"
  using directory_frame [OF only_audit_sel(1,2)] .

lemma tenant_create_ok:
  assumes "tenant_create tid now key name act d = (Inr t, d')" "directory_ok d"
  shows "directory_ok d'" "ten_id t = tid" "d' = tenants_update (\<lambda>ts. ts @ [t]) d"
proof -
  have t: "d' = tenants_update (\<lambda>ts. ts @ [t]) d" "ten_id t = tid"
    "tid \<notin> ten_id ` set (tenants d)" "ten_key t \<notin> ten_key ` set (tenants d)"
    using assms(1) by (auto simp: tenant_create_def sql_run sql_insert_def tenant_violates_def exists_row_iff
        find_key row_of_None_iff split: option.splits if_splits)
  then show "d' = tenants_update (\<lambda>ts. ts @ [t]) d" "ten_id t = tid" by blast+
  show "directory_ok d'" using assms(2) t by (auto simp: directory_ok_def tenants_ok_def default_ok_def)
qed

lemma quota_upsert_directory:
  assumes "quota_upsert now tid n c m g d = (Inr q, d')" "directory_ok d"
  shows "directory_ok d'"
proof (cases "quota_at d tid")
  case None
  then have "d' = tenant_quotas_update (\<lambda>qs. qs @ [q]) d" "tenant_at d tid \<noteq> None" "quo_tenant_id q = tid"
    using assms(1) by (auto simp: quota_upsert_def Let_def bindM_run bindM_sql_run find_key quota_at_def
        tenant_at_def split: if_splits)
  with None assms(2) show ?thesis
    by (auto simp: directory_ok_def tenants_ok_def default_ok_def quota_at_def tenant_at_def row_of_None_iff
        dest!: row_of_SomeD)
next
  case (Some r)
  then have "d' = tenant_quotas_update (update_where (\<lambda>r. quo_tenant_id r = tid) (\<lambda>_. q)) d" "quo_tenant_id q = tid"
    using assms(1) by (auto simp: quota_upsert_def Let_def bindM_run bindM_sql_run find_key quota_at_def
        quo_t.update_one_run split: if_splits)
  moreover have "map quo_tenant_id (update_where (\<lambda>r. quo_tenant_id r = tid) (\<lambda>_. q) qs) = map quo_tenant_id qs"
    if "quo_tenant_id q = tid" for qs
    using that by (induction qs) auto
  moreover have "quo_tenant_id ` set (update_where (\<lambda>r. quo_tenant_id r = tid) (\<lambda>_. q) qs) = quo_tenant_id ` set qs"
    if "quo_tenant_id q = tid" for qs
    using that by (induction qs) auto
  ultimately show ?thesis using assms(2) by (simp add: directory_ok_def tenants_ok_def default_ok_def)
qed

lemma create_tenant_directory:
  assumes "request (create_tenant_handle env tid cmd) d = (r, d')" "directory_ok d"
  shows "directory_ok d' \<and> users d' = users d \<and> refresh_tokens d' = refresh_tokens d"
proof (cases r)
  case (Inl e)
  then show ?thesis using failed_request [OF tenant_handlers_commit_last(1)] assms by blast
next
  case (Inr tq)
  then obtain t q d1 d2 v where t: "tenant_create tid (ae_now env) (ct_key cmd) (ct_name cmd) (ct_is_active cmd) d = (Inr t, d1)"
    and q: "quota_upsert (ae_now env) (ten_id t) (ct_max_instances cmd) (ct_max_cpu cmd)
        (ct_max_memory_mib cmd) (ct_max_disk_gib cmd) d1 = (Inr q, d2)"
    and a: "audit_write env v d2 = (Inr (), d')"
    using assms(1) by (auto simp: create_tenant_handle_def request_iff db_op_iff)
  have "directory_ok d2" by (rule quota_upsert_directory [OF q tenant_create_ok(1) [OF t assms(2)]])
  then show ?thesis
    using directory_audit [OF audit_write_only [OF a]] only_audit_sel [OF audit_write_only [OF a]]
      quota_upsert_ok(3) [OF q] tenant_create_ok(3) [OF t assms(2)] by auto
qed

lemma set_tenant_directory:
  assumes "directory_ok d" "tenant_at d tid = Some t" "\<not> (ten_key t = default_tenant_key \<and> act = Some False)"
  shows "directory_ok (tenants_update (update_where (\<lambda>t. ten_id t = tid) (set_tenant now name act)) d)"
proof -
  let ?f = "set_tenant now name act"
  have keys: "ten_id ` set (update_where (\<lambda>t. ten_id t = tid) ?f ts) = ten_id ` set ts" for ts
    by (induction ts) auto
  obtain x where x: "x \<in> set (tenants d)" "ten_key x = default_tenant_key" "ten_is_active x"
    using assms(1) by (auto simp: directory_ok_def default_ok_def)
  have "\<exists>y \<in> set (update_where (\<lambda>t. ten_id t = tid) ?f (tenants d)). ten_key y = default_tenant_key \<and> ten_is_active y"
  proof (cases "ten_id x = tid")
    case True
    then have "x = t" using assms(1,2) x(1) row_of_unique [of ten_id "tenants d" x]
      by (simp add: directory_ok_def tenants_ok_def tenant_at_def)
    with x True assms(3) show ?thesis
      by (intro bexI [of _ "?f x"]) (auto simp: set_update_where split: option.splits)
  next
    case False
    with x show ?thesis by (intro bexI [of _ x]) (auto simp: set_update_where)
  qed
  then show ?thesis using assms(1) keys
    by (simp add: directory_ok_def tenants_ok_def default_ok_def map_update_where_key)
qed

lemma update_tenant_directory:
  assumes "request (update_tenant_handle env cmd) d = (r, d')" "directory_ok d"
  shows "directory_ok d' \<and> users d' = users d \<and> refresh_tokens d' = refresh_tokens d"
proof (cases r)
  case (Inl e)
  then show ?thesis using failed_request [OF tenant_handlers_commit_last(2)] assms by blast
next
  case (Inr tq)
  let ?d1 = "tenants_update (update_where (\<lambda>t. ten_id t = ut_tenant_id cmd)
      (set_tenant (ae_now env) (ut_name cmd) (ut_is_active cmd))) d"
  from Inr obtain t v where t: "tenant_at d (ut_tenant_id cmd) = Some t"
      "\<not> (ten_key t = default_tenant_key \<and> ut_is_active cmd = Some False)"
    and a: "audit_write env v ?d1 = (Inr (), d')"
    using assms(1) by (auto simp: update_tenant_handle_def request_iff db_op_iff tenant_get_run
        tenant_update_run quota_get_run split: option.splits if_splits)
  show ?thesis
    using set_tenant_directory [OF assms(2) t] directory_audit [OF audit_write_only [OF a]]
      only_audit_sel [OF audit_write_only [OF a]] by simp
qed

lemma update_quota_directory:
  assumes "request (update_tenant_quota_handle env cmd) d = (r, d')" "directory_ok d"
  shows "directory_ok d' \<and> users d' = users d \<and> refresh_tokens d' = refresh_tokens d"
proof (cases r)
  case (Inl e)
  then show ?thesis using failed_request [OF tenant_handlers_commit_last(3)] assms by blast
next
  case (Inr q)
  then obtain d1 v where q: "quota_upsert (ae_now env) (uq_tenant_id cmd) (uq_max_instances cmd) (uq_max_cpu cmd)
        (uq_max_memory_mib cmd) (uq_max_disk_gib cmd) d = (Inr q, d1)"
    and a: "audit_write env v d1 = (Inr (), d')"
    using assms(1)
    by (auto simp: update_tenant_quota_handle_def request_iff db_op_iff tenant_get_run get_usage_run
        split: option.splits if_splits)
  show ?thesis
    using quota_upsert_directory [OF q assms(2)] directory_audit [OF audit_write_only [OF a]]
      only_audit_sel [OF audit_write_only [OF a]] quota_upsert_ok(3) [OF q] by auto
qed

end
