(* ===== verification/User_Commands.thy ===== *)
theory User_Commands
  imports User_Repo Samples
begin

text \<open>
  \<^verbatim>\<open>application/commands/user_commands.py\<close>: creating, changing and deactivating users.
  \<open>hash_password\<close> is an argument of the handlers, its random salt already drawn.
\<close>

record create_user_command =
  cu_username :: string
  cu_password :: string
  cu_role :: string
  cu_tenant_id :: "uuid option"
  cu_is_active :: bool
  cu_actor :: user

record update_user_command =
  uu_user_id :: uuid
  uu_role :: "string option"
  uu_tenant_id :: "uuid option"
  uu_is_active :: "bool option"
  uu_password :: "string option"
  uu_actor :: user

record deactivate_user_command =
  du_user_id :: uuid
  du_actor :: user

definition user_entry :: "string \<Rightarrow> uuid \<Rightarrow> user \<Rightarrow> uuid option \<Rightarrow> dict \<Rightarrow> audit_entry" where
  "user_entry action uid actor tid metadata =
     (entry action ''user'' (Some (uuid_str uid)))
       \<lparr>en_actor_user := Some actor, en_tenant_id := tid, en_metadata := metadata\<rparr>"

definition username_taken :: "error \<Rightarrow> error" where
  "username_taken e = (case e of ConflictError _ \<Rightarrow> ConflictError ''username already exists'' | _ \<Rightarrow> e)"

definition no_user :: "uuid \<Rightarrow> error" where
  "no_user uid = UserNotFoundError (''user '' @ uuid_str uid @ '' not found'')"

definition create_user_handle ::
  "(string \<Rightarrow> string) \<Rightarrow> audit_env \<Rightarrow> uuid \<Rightarrow> create_user_command \<Rightarrow> user sess_act" where
  "create_user_handle hash env uid cmd = transact (
     bindM (guardM (\<not> (cu_role cmd = ''admin'' \<and> cu_tenant_id cmd \<noteq> None))
       (ConflictError ''admin user must not have tenant_id'')) (\<lambda>_.
     bindM (guardM (\<not> (cu_role cmd \<in> {''operator'', ''viewer''} \<and> cu_tenant_id cmd = None))
       (ConflictError ''tenant_id is required for non-admin user'')) (\<lambda>_.
     bindM (mapErrM username_taken (create_user uid (ae_now env) (cu_username cmd)
       (hash (cu_password cmd)) (cu_role cmd) (cu_is_active cmd) (cu_tenant_id cmd))) (\<lambda>u.
     bindM (audit_write env (user_entry ''user.create'' (usr_id u) (cu_actor cmd) (usr_tenant_id u)
       [(''role'', JStr (role_str (usr_role u))), (''is_active'', JBool (usr_is_active u))])) (\<lambda>_.
     returnM u)))))"

text \<open>The guard both changes of a user share: the last active administrator stays.\<close>

definition guard_last_admin :: "bool \<Rightarrow> unit db_act" where
  "guard_last_admin applies =
     (if applies then
        bindM (count_active_admins) (\<lambda>n.
        guardM (\<not> n \<le> 1) (ConflictError ''at least one active admin is required''))
      else returnM ())"

definition update_user_handle ::
  "(string \<Rightarrow> string) \<Rightarrow> audit_env \<Rightarrow> update_user_command \<Rightarrow> user sess_act" where
  "update_user_handle hash env cmd = transact (
     bindM (user_get_by_id (uu_user_id cmd)) (\<lambda>found.
     case found of
       None \<Rightarrow> raiseM (no_user (uu_user_id cmd))
     | Some target \<Rightarrow>
       let new_role = (case uu_role cmd of Some r \<Rightarrow> r | None \<Rightarrow> role_str (usr_role target));
           new_active = (case uu_is_active cmd of Some b \<Rightarrow> b | None \<Rightarrow> usr_is_active target);
           new_tenant = (case uu_tenant_id cmd of Some t \<Rightarrow> Some t | None \<Rightarrow> usr_tenant_id target) in
       bindM (guardM (\<not> (new_role = ''admin'' \<and> uu_tenant_id cmd \<noteq> None))
         (ConflictError ''admin user must not have tenant_id'')) (\<lambda>_.
       bindM (guardM (\<not> (new_role \<noteq> ''admin'' \<and> new_tenant = None))
         (ConflictError ''tenant_id is required for non-admin user'')) (\<lambda>_.
       bindM (guardM (\<not> (usr_id (uu_actor cmd) = usr_id target \<and> \<not> new_active))
         (ConflictError ''cannot deactivate yourself'')) (\<lambda>_.
       bindM (guard_last_admin (active_admin target \<and> (new_role \<noteq> ''admin'' \<or> \<not> new_active))) (\<lambda>_.
       let password_hash = (case uu_password cmd of
             None \<Rightarrow> None | Some p \<Rightarrow> if p = [] then None else Some (hash p)) in
       bindM (update_user (ae_now env) (uu_user_id cmd) (uu_role cmd) (uu_is_active cmd) password_hash
         (if new_role = ''admin'' then None else new_tenant)) (\<lambda>updated.
       bindM (if uu_role cmd \<noteq> None \<or> uu_is_active cmd = Some False \<or> uu_password cmd \<noteq> None
              then bindM (revoke_all_for_user (ae_now env) (uu_user_id cmd)) (\<lambda>_. returnM ())
              else returnM ()) (\<lambda>_.
       bindM (audit_write env (user_entry ''user.update'' (usr_id updated) (uu_actor cmd)
         (usr_tenant_id updated)
         [(''role'', JStr (role_str (usr_role updated))), (''is_active'', JBool (usr_is_active updated)),
          (''password_changed'', JBool (uu_password cmd \<noteq> None))])) (\<lambda>_.
       returnM updated)))))))))"

definition deactivate_user_handle :: "audit_env \<Rightarrow> deactivate_user_command \<Rightarrow> unit sess_act" where
  "deactivate_user_handle env cmd = transact (
     bindM (user_get_by_id (du_user_id cmd)) (\<lambda>found.
     case found of
       None \<Rightarrow> raiseM (no_user (du_user_id cmd))
     | Some target \<Rightarrow>
       bindM (guardM (usr_id (du_actor cmd) \<noteq> usr_id target) (ConflictError ''cannot deactivate yourself'')) (\<lambda>_.
       bindM (guard_last_admin (active_admin target)) (\<lambda>_.
       bindM (if usr_is_active target then
                bindM (update_user (ae_now env) (du_user_id cmd) None (Some False) None None) (\<lambda>_.
                bindM (revoke_all_for_user (ae_now env) (du_user_id cmd)) (\<lambda>_.
                audit_write env (user_entry ''user.deactivate'' (du_user_id cmd) (du_actor cmd)
                  (usr_tenant_id target) [])))
              else returnM ()) (\<lambda>_.
       returnM ())))))"

section \<open>What the commands do\<close>

lemma guard_last_admin_iff:
  "guard_last_admin a d = (Inr (), d') \<longleftrightarrow> d' = d \<and> (a \<longrightarrow> \<not> length (filter active_admin (users d)) \<le> 1)"
  "guard_last_admin a d = (Inl e, d') \<Longrightarrow> d' = d"
  by (auto simp: guard_last_admin_def count_active_admins_def bindM_run split: if_splits)

lemma keeps_guard_last_admin [keeps_intros]: "keeps P (guard_last_admin a)"
  unfolding guard_last_admin_def count_active_admins_def by (intro keeps_intros)

lemma keeps_transact [keeps_intros]: "keeps P m \<Longrightarrow> keeps (both P) (transact m)"
  unfolding transact_def by (intro keeps_intros)

lemma keeps_users_frame [keeps_intros]:
  "keeps users_ok (user_get_by_id k)" "keeps users_ok (audit_write env e)"
  "keeps users_ok (revoke_all_for_user now k)"
  by (auto simp: user_get_by_id_def intro: keeps_intros keeps_audit_frame)

lemma user_handlers_keep_users:
  "keeps (both users_ok) (create_user_handle hash env uid ccmd)"
  "keeps (both users_ok) (update_user_handle hash env ucmd)"
  "keeps (both users_ok) (deactivate_user_handle env dcmd)"
  unfolding create_user_handle_def update_user_handle_def deactivate_user_handle_def Let_def
  by (intro keeps_intros)+

text \<open>The tokens a user had before are gone.\<close>

definition sessions_ended :: "uuid \<Rightarrow> db \<Rightarrow> bool" where
  "sessions_ended k d \<longleftrightarrow> (\<forall>t \<in> set (refresh_tokens d). rt_user_id t = k \<longrightarrow> rt_revoked_at t \<noteq> None)"

lemma revoke_all_ends:
  assumes "revoke_all_for_user now k d = (r, d')"
  shows "sessions_ended k d' \<and> users d' = users d \<and> (\<exists>n. r = Inr n)"
proof -
  have "rt_revoked_at (revoked_row now t) \<noteq> None" for t
    by (simp add: revoked_row_def split: option.splits)
  then show ?thesis using assms revoke_all_run [of now k d]
    by (auto simp: sessions_ended_def set_update_where)
qed

lemma sessions_ended_audit: "only_audit d d' \<Longrightarrow> sessions_ended k d' = sessions_ended k d"
  by (simp add: sessions_ended_def only_audit_sel)

lemma create_user_effect:
  assumes "request (create_user_handle hash env uid cmd) d = (Inr u, d')"
  shows "users d' = users d @ [u] \<and> refresh_tokens d' = refresh_tokens d"
proof -
  have run: "\<exists>d1. create_user uid (ae_now env) (cu_username cmd) (hash (cu_password cmd)) (cu_role cmd)
      (cu_is_active cmd) (cu_tenant_id cmd) d = (Inr u, d1) \<and> only_audit d1 d'"
    using assms by (auto simp: create_user_handle_def bindM_Inr_iff split: if_splits dest!: audit_write_only)
  then obtain d1 where "create_user uid (ae_now env) (cu_username cmd) (hash (cu_password cmd)) (cu_role cmd)
      (cu_is_active cmd) (cu_tenant_id cmd) d = (Inr u, d1)" "only_audit d1 d'" by blast
  then show ?thesis by (auto dest!: create_user_ok simp: only_audit_sel)
qed

lemma guard_passed: "(if c then Inr a else Inl e) = Inr b \<longleftrightarrow> c \<and> a = b"
  by simp

lemma role_of_admin [simp]: "role_of s = Some admin \<longleftrightarrow> s = ''admin''" "role_str r = ''admin'' \<longleftrightarrow> r = admin"
  by (auto simp: role_of_def) (cases r; simp)+

lemma admin_after_set:
  assumes "case r of None \<Rightarrow> rl = None | Some s \<Rightarrow> rl = role_of s \<and> rl \<noteq> None"
  shows "active_admin (set_user now rl act h tid u) \<longleftrightarrow>
    (case r of Some s \<Rightarrow> s | None \<Rightarrow> role_str (usr_role u)) = ''admin'' \<and>
    (case act of Some b \<Rightarrow> b | None \<Rightarrow> usr_is_active u)"
    "usr_is_active (set_user now rl act h tid u) = (case act of Some b \<Rightarrow> b | None \<Rightarrow> usr_is_active u)"
proof -
  have "(case rl of Some x \<Rightarrow> x | None \<Rightarrow> usr_role u) = admin \<longleftrightarrow>
      (case r of Some s \<Rightarrow> s | None \<Rightarrow> role_str (usr_role u)) = ''admin''"
    using assms role_of_admin(1) [of "the r"] by (cases r; cases rl) (auto simp del: role_of_admin(1) split: option.splits)
  then show "active_admin (set_user now rl act h tid u) \<longleftrightarrow>
    (case r of Some s \<Rightarrow> s | None \<Rightarrow> role_str (usr_role u)) = ''admin'' \<and>
    (case act of Some b \<Rightarrow> b | None \<Rightarrow> usr_is_active u)"
    "usr_is_active (set_user now rl act h tid u) = (case act of Some b \<Rightarrow> b | None \<Rightarrow> usr_is_active u)"
    by (simp_all add: active_admin_def set_user_def Let_def)
qed

text \<open>What both changes of a user do to the tables.\<close>

definition changes_user :: "uuid \<Rightarrow> uuid \<Rightarrow> db \<Rightarrow> db \<Rightarrow> bool" where
  "changes_user actor k d d' \<longleftrightarrow> (\<exists>u f. user_at d k = Some u \<and> (\<forall>m. usr_id (f m) = usr_id m) \<and>
     users d' = update_where (\<lambda>m. usr_id m = k) f (users d) \<and>
     (actor = k \<longrightarrow> usr_is_active (f u)) \<and>
     (active_admin u \<longrightarrow> active_admin (f u) \<or> 2 \<le> length (filter active_admin (users d))))"

lemma changes_userI:
  assumes "user_at d k = Some u" "\<And>m. usr_id (f m) = usr_id m"
    "users d' = update_where (\<lambda>m. usr_id m = k) f (users d)" "actor = k \<longrightarrow> usr_is_active (f u)"
    "active_admin u \<and> \<not> active_admin (f u) \<longrightarrow> \<not> length (filter active_admin (users d)) \<le> 1"
  shows "changes_user actor k d d'"
  unfolding changes_user_def using assms by (intro exI [of _ u] exI [of _ f]) (simp, linarith)

lemma update_user_effect:
  assumes "request (update_user_handle hash env cmd) d = (Inr v, d')"
  shows "changes_user (usr_id (uu_actor cmd)) (uu_user_id cmd) d d'"
    and "uu_role cmd \<noteq> None \<or> uu_is_active cmd = Some False \<or> uu_password cmd \<noteq> None \<Longrightarrow>
      sessions_ended (uu_user_id cmd) d'"
proof -
  let ?k = "uu_user_id cmd"
  obtain u where u: "user_at d ?k = Some u"
    using assms by (auto simp: update_user_handle_def user_at_get split: option.splits)
  define flag where "flag = (uu_role cmd = None \<longrightarrow> uu_is_active cmd = Some False \<or> uu_password cmd \<noteq> None)"
  define act where "act = (case uu_is_active cmd of Some b \<Rightarrow> b | None \<Rightarrow> usr_is_active u)"
  define rol where "rol = (case uu_role cmd of Some r \<Rightarrow> r | None \<Rightarrow> role_str (usr_role u))"
  obtain h tid d1 d2 where run: "update_user (ae_now env) ?k (uu_role cmd) (uu_is_active cmd) h tid d = (Inr v, d1)"
    and rev: "(if flag then bindM (revoke_all_for_user (ae_now env) ?k) (\<lambda>_. returnM ())
              else returnM ()) d1 = (Inr (), d2)"
    and aud: "only_audit d2 d'"
    and self: "usr_id (uu_actor cmd) = usr_id u \<longrightarrow> act"
    and last: "active_admin u \<and> (rol \<noteq> ''admin'' \<or> \<not> act) \<longrightarrow> \<not> length (filter active_admin (users d)) \<le> 1"
    using assms u
    by (simp add: update_user_handle_def user_at_get Let_def guard_last_admin_iff
        guard_passed flip: act_def rol_def flag_def del: not_None_eq) (blast dest: audit_write_only)
  from rev have d2: "users d2 = users d1" and ended: "flag \<longrightarrow> sessions_ended ?k d2"
    by (auto split: if_splits dest!: revoke_all_ends)
  from ended aud show "uu_role cmd \<noteq> None \<or> uu_is_active cmd = Some False \<or> uu_password cmd \<noteq> None \<Longrightarrow>
      sessions_ended ?k d'"
    by (auto simp: sessions_ended_audit flag_def)
  from run show "changes_user (usr_id (uu_actor cmd)) ?k d d'"
  proof (rule update_user_ok)
    fix u2 rl
    assume u2: "user_at d ?k = Some u2" and rl: "case uu_role cmd of None \<Rightarrow> rl = None | Some s \<Rightarrow> rl = role_of s \<and> rl \<noteq> None"
      and d1: "d1 = users_update (update_where (\<lambda>m. usr_id m = ?k) (set_user (ae_now env) rl (uu_is_active cmd) h tid)) d"
    have "usr_id u = ?k" using u by (auto simp: user_at_def dest: row_of_SomeD)
    let ?f = "set_user (ae_now env) rl (uu_is_active cmd) h tid"
    note f = admin_after_set [OF rl, of "ae_now env" "uu_is_active cmd" h tid u, folded act_def rol_def]
    show ?thesis
    proof (rule changes_userI [OF u])
      show "users d' = update_where (\<lambda>m. usr_id m = ?k) ?f (users d)"
        using d1 d2 aud by (simp add: only_audit_sel)
      show "usr_id (uu_actor cmd) = ?k \<longrightarrow> usr_is_active (?f u)"
        using self f(2) \<open>usr_id u = ?k\<close> by simp
      show "active_admin u \<and> \<not> active_admin (?f u) \<longrightarrow> \<not> length (filter active_admin (users d)) \<le> 1"
        using last f(1) by blast
    qed simp
  qed
qed

lemma set_user_inactive: "\<not> active_admin (set_user now None (Some False) None None u)"
  by (simp add: active_admin_def set_user_def Let_def)

lemma deactivate_user_effect:
  assumes "request (deactivate_user_handle env cmd) d = (Inr x, d')" "user_at d (du_user_id cmd) = Some u"
  shows "if usr_is_active u
    then changes_user (usr_id (du_actor cmd)) (du_user_id cmd) d d' \<and> sessions_ended (du_user_id cmd) d' \<and>
      (\<exists>v. user_at d' (du_user_id cmd) = Some v \<and> \<not> usr_is_active v)
    else d' = d"
proof (cases "usr_is_active u")
  case False
  then show ?thesis using assms
    by (simp add: deactivate_user_handle_def user_at_get guard_last_admin_iff guard_passed)
next
  case True
  let ?k = "du_user_id cmd" let ?f = "set_user (ae_now env) None (Some False) None None"
  obtain v d1 n d2 where other: "usr_id (du_actor cmd) \<noteq> usr_id u"
    and last: "active_admin u \<longrightarrow> \<not> length (filter active_admin (users d)) \<le> 1"
    and run: "update_user (ae_now env) ?k None (Some False) None None d = (Inr v, d1)"
    and rev: "revoke_all_for_user (ae_now env) ?k d1 = (Inr n, d2)" and aud: "only_audit d2 d'"
    using assms True
    by (simp add: deactivate_user_handle_def user_at_get guard_last_admin_iff guard_passed)
      (blast dest: audit_write_only)
  from run have d1: "d1 = users_update (update_where (\<lambda>m. usr_id m = ?k) ?f) d"
    by (rule update_user_ok) simp
  have us: "users d' = update_where (\<lambda>m. usr_id m = ?k) ?f (users d)"
    using revoke_all_ends [OF rev] aud d1 by (simp add: only_audit_sel)
  have "changes_user (usr_id (du_actor cmd)) ?k d d'"
  proof (rule changes_userI [OF assms(2) _ us])
    show "usr_id (du_actor cmd) = ?k \<longrightarrow> usr_is_active (?f u)"
      using other assms(2) by (auto simp: user_at_def dest: row_of_SomeD)
  qed (use last in auto)
  moreover have "user_at d' ?k = Some (?f u)"
    using assms(2) us by (simp add: user_at_def row_of_update_where)
  moreover have "sessions_ended ?k d'"
    using revoke_all_ends [OF rev] aud by (simp add: sessions_ended_audit)
  ultimately show ?thesis using True by (simp add: set_user_def Let_def)
qed

section \<open>There is always an administrator\<close>

definition admins_ok :: "db \<Rightarrow> bool" where
  "admins_ok d \<longleftrightarrow> users_ok d \<and> (\<exists>u \<in> set (users d). active_admin u)"

lemma two_admins:
  assumes "distinct (map usr_id us)" "2 \<le> length (filter active_admin us)"
  shows "\<exists>w \<in> set us. active_admin w \<and> usr_id w \<noteq> k"
proof (rule ccontr)
  assume "\<not> ?thesis"
  then have "set (map usr_id (filter active_admin us)) \<subseteq> {k}" by auto
  moreover have "distinct (map usr_id (filter active_admin us))" using assms(1) by (simp add: distinct_map_filter)
  ultimately have "length (map usr_id (filter active_admin us)) \<le> card {k}"
    by (metis card_mono distinct_card finite.emptyI finite_insert)
  then show False using assms(2) by simp
qed

lemma changes_user_keeps_admin:
  assumes "changes_user actor k d d'" "users_ok d" "\<exists>u \<in> set (users d). active_admin u"
  shows "\<exists>u \<in> set (users d'). active_admin u"
proof -
  from assms(1) obtain u f where u: "user_at d k = Some u"
    and us: "users d' = update_where (\<lambda>m. usr_id m = k) f (users d)"
    and last: "active_admin u \<longrightarrow> active_admin (f u) \<or> 2 \<le> length (filter active_admin (users d))"
    unfolding changes_user_def by blast
  have mem: "u \<in> set (users d)" "usr_id u = k" using u by (auto simp: user_at_def dest: row_of_SomeD)
  have only: "w = u" if "w \<in> set (users d)" "usr_id w = k" for w
    using that row_of_unique [of usr_id "users d" w] assms(2) u by (simp add: users_ok_def user_at_def)
  obtain w where w: "w \<in> set (users d)" "active_admin w" using assms(3) by blast
  show ?thesis
  proof (cases "active_admin (f u)")
    case True
    then show ?thesis using mem us by (auto simp: set_update_where intro!: bexI [of _ "f u"])
  next
    case False
    then have "\<exists>w \<in> set (users d). active_admin w \<and> usr_id w \<noteq> k"
      using w last two_admins [of "users d" k] assms(2) only mem unfolding users_ok_def by metis
    then show ?thesis using us by (auto simp: set_update_where)
  qed
qed

lemma user_handlers_commit_last:
  "commits_last (create_user_handle hash env uid ccmd)" "commits_last (update_user_handle hash env ucmd)"
  "commits_last (deactivate_user_handle env dcmd)"
  unfolding create_user_handle_def update_user_handle_def deactivate_user_handle_def
  by (rule commit_intros)+

lemma user_request_keeps_admins:
  assumes "admins_ok d" "request m d = (r, d')" "keeps (both users_ok) m" "commits_last m"
    and "\<And>x. r = Inr x \<Longrightarrow> d' = d \<or> (\<exists>w. users d' = users d @ [w]) \<or> (\<exists>a k. changes_user a k d d')"
  shows "admins_ok d'"
proof (cases r)
  case (Inl e)
  then show ?thesis using failed_request [OF assms(4)] assms(1,2) by auto
next
  case (Inr x)
  have ok: "users_ok d" "\<exists>u \<in> set (users d). active_admin u" using assms(1) by (auto simp: admins_ok_def)
  have "users_ok d'" using keeps_request [OF assms(3) ok(1) assms(2)] .
  moreover have "\<exists>u \<in> set (users d'). active_admin u"
    using assms(5) [OF Inr] ok by (elim disjE exE) (simp_all add: changes_user_keeps_admin bex_Un)
  ultimately show ?thesis by (simp add: admins_ok_def)
qed

lemma create_user_admins:
  assumes "admins_ok d" "request (create_user_handle hash env uid cmd) d = (r, d')"
  shows "admins_ok d'"
  using create_user_effect assms(2)
  by (intro user_request_keeps_admins [OF assms user_handlers_keep_users(1) user_handlers_commit_last(1)]) blast

lemma update_user_admins:
  assumes "admins_ok d" "request (update_user_handle hash env cmd) d = (r, d')"
  shows "admins_ok d'"
  using update_user_effect(1) assms(2)
  by (intro user_request_keeps_admins [OF assms user_handlers_keep_users(2) user_handlers_commit_last(2)]) blast

lemma deactivate_user_admins:
  assumes "admins_ok d" "request (deactivate_user_handle env cmd) d = (r, d')"
  shows "admins_ok d'"
proof (rule user_request_keeps_admins [OF assms user_handlers_keep_users(3) user_handlers_commit_last(3)])
  fix x assume x: "r = Inr x"
  then obtain u where "user_at d (du_user_id cmd) = Some u"
    using assms(2) by (auto simp: deactivate_user_handle_def user_at_get split: option.splits)
  from deactivate_user_effect [OF assms(2) [unfolded x] this]
  show "d' = d \<or> (\<exists>w. users d' = users d @ [w]) \<or> (\<exists>a k. changes_user a k d d')"
    by (auto split: if_splits)
qed

section \<open>Properties\<close>

text \<open>Whatever the three user commands are asked to do, by whom and with which outcome, the
  user table stays well formed (unique keys and names, a tenant exactly for non-administrators) and
  at least one active administrator remains.\<close>

theorem user_commands_keep_an_admin:
  assumes "admins_ok d"
  shows "admins_ok (snd (request (create_user_handle hash env uid ccmd) d)) \<and>
    admins_ok (snd (request (update_user_handle hash env ucmd) d)) \<and>
    admins_ok (snd (request (deactivate_user_handle env dcmd) d))"
  using create_user_admins [OF assms prod.collapse [symmetric]]
    update_user_admins [OF assms prod.collapse [symmetric]]
    deactivate_user_admins [OF assms prod.collapse [symmetric]] by blast

theorem user_commands_keep_an_admin_witness:
  "admins_ok (snd (request (create_user_handle (\<lambda>p. p) sample_env 102
      \<lparr>cu_username = ''eve'', cu_password = ''pw'', cu_role = ''viewer'', cu_tenant_id = Some 2,
       cu_is_active = True, cu_actor = sample_admin\<rparr>) sample_users_db)) \<and>
    admins_ok (snd (request (update_user_handle (\<lambda>p. p) sample_env
      \<lparr>uu_user_id = 100, uu_role = Some ''viewer'', uu_tenant_id = Some 2, uu_is_active = None,
       uu_password = None, uu_actor = sample_admin\<rparr>) sample_users_db)) \<and>
    admins_ok (snd (request (deactivate_user_handle sample_env
      \<lparr>du_user_id = 101, du_actor = sample_admin\<rparr>) sample_users_db))"
proof -
  have "admins_ok sample_users_db"
    by (simp add: admins_ok_def users_ok_def sample_users_db_def sample_db_def sample_admin_def
        sample_operator_def active_admin_def user_role_check_def)
  then show ?thesis by (rule user_commands_keep_an_admin)
qed

text \<open>C26: a request that changes a user's role or password, or deactivates him, leaves none of
  his refresh tokens valid; nobody deactivates himself by it, and one that raises changes nothing.\<close>

theorem user_update_ends_sessions:
  assumes "uu_role cmd \<noteq> None \<or> uu_is_active cmd = Some False \<or> uu_password cmd \<noteq> None"
  shows "case request (update_user_handle hash env cmd) d of
      (Inl _, d') \<Rightarrow> d' = d
    | (Inr v, d') \<Rightarrow> sessions_ended (uu_user_id cmd) d' \<and>
        changes_user (usr_id (uu_actor cmd)) (uu_user_id cmd) d d'"
  using update_user_effect [of hash env cmd d] assms failed_request [OF user_handlers_commit_last(2)]
  by (auto split: prod.splits sum.splits)

definition sample_password_change :: update_user_command where
  "sample_password_change = \<lparr>uu_user_id = 101, uu_role = None, uu_tenant_id = None, uu_is_active = None,
     uu_password = Some ''new password'', uu_actor = sample_admin\<rparr>"

theorem user_update_ends_sessions_witness:
  "case request (update_user_handle (\<lambda>p. ''h:'' @ p) sample_env sample_password_change) sample_users_db of
      (Inl _, d') \<Rightarrow> d' = sample_users_db
    | (Inr v, d') \<Rightarrow> sessions_ended (uu_user_id sample_password_change) d' \<and>
        changes_user (usr_id (uu_actor sample_password_change)) (uu_user_id sample_password_change) sample_users_db d'"
  by (rule user_update_ends_sessions) (simp add: sample_password_change_def)

text \<open>Deactivating a user either changes nothing (he is unknown, is the caller, is the last
  active administrator, or is inactive already) or leaves him inactive with every refresh token
  revoked.\<close>

theorem deactivate_user_outcome:
  "case (user_at d (du_user_id cmd), request (deactivate_user_handle env cmd) d) of
      (_, (Inl _, d')) \<Rightarrow> d' = d
    | (None, (Inr _, d')) \<Rightarrow> False
    | (Some u, (Inr _, d')) \<Rightarrow> usr_id (du_actor cmd) \<noteq> usr_id u \<and>
        (if usr_is_active u
         then sessions_ended (du_user_id cmd) d' \<and>
           (\<exists>v. user_at d' (du_user_id cmd) = Some v \<and> \<not> usr_is_active v)
         else d' = d)"
proof -
  obtain r d' where run: "request (deactivate_user_handle env cmd) d = (r, d')" by (rule prod.exhaust)
  show ?thesis
  proof (cases r)
    case (Inl e)
    then show ?thesis using run failed_request [OF user_handlers_commit_last(3)] by (auto split: option.splits)
  next
    case (Inr x)
    with run obtain u where u: "user_at d (du_user_id cmd) = Some u" "usr_id (du_actor cmd) \<noteq> usr_id u"
      by (auto simp: deactivate_user_handle_def user_at_get guard_passed split: option.splits)
    from deactivate_user_effect [OF run [unfolded Inr] u(1)] run u Inr show ?thesis
      by (auto split: if_splits)
  qed
qed

end
