(* ===== verification/Api_Admin.thy ===== *)
theory Api_Admin
  imports Api_Answers Tenant_Commands User_Commands Lifecycle
begin

text \<open>
  \<^verbatim>\<open>api/routers/tenants.py\<close>, \<^verbatim>\<open>users.py\<close> and \<^verbatim>\<open>auth.py\<close>: the endpoints
  that change tenants, users and sessions, and the system they form.
\<close>

section \<open>Tenants\<close>

record create_tenant_request =
  bt_key :: string
  bt_name :: string
  bt_is_active :: bool
  bt_max_instances :: int
  bt_max_cpu :: int
  bt_max_memory_mib :: int
  bt_max_disk_gib :: int

definition create_tenant ::
  "api_env \<Rightarrow> string \<Rightarrow> uuid \<Rightarrow> create_tenant_request \<Rightarrow> tenant_response sess_act" where
  "create_tenant api token new_id body = authorized api token [admin] (\<lambda>u.
     answer (\<lambda>(tenant, quota). to_tenant_response (tenant, Some quota))
       (mapErrM (as_http is_conflict 409) (create_tenant_handle (api_audit api) new_id
         \<lparr>ct_key = bt_key body, ct_name = bt_name body, ct_is_active = bt_is_active body,
          ct_max_instances = bt_max_instances body, ct_max_cpu = bt_max_cpu body,
          ct_max_memory_mib = bt_max_memory_mib body, ct_max_disk_gib = bt_max_disk_gib body, ct_actor = u\<rparr>)))"

definition update_tenant ::
  "api_env \<Rightarrow> string \<Rightarrow> uuid \<Rightarrow> string option \<Rightarrow> bool option \<Rightarrow> tenant_response sess_act" where
  "update_tenant api token tid name is_active = authorized api token [admin] (\<lambda>u.
     answer to_tenant_response (mapErrM (\<lambda>e. as_http is_conflict 409 (as_http is_tenant_missing 404 e))
       (update_tenant_handle (api_audit api)
         \<lparr>ut_tenant_id = tid, ut_name = name, ut_is_active = is_active, ut_actor = u\<rparr>)))"

definition update_tenant_quota ::
  "api_env \<Rightarrow> string \<Rightarrow> uuid \<Rightarrow> int \<Rightarrow> int \<Rightarrow> int \<Rightarrow> int \<Rightarrow> tenant_quota_response sess_act" where
  "update_tenant_quota api token tid n c m g = authorized api token [admin] (\<lambda>u.
     answer to_quota_response (mapErrM (as_http is_tenant_missing 404) (update_tenant_quota_handle (api_audit api)
       \<lparr>uq_tenant_id = tid, uq_max_instances = n, uq_max_cpu = c, uq_max_memory_mib = m,
        uq_max_disk_gib = g, uq_actor = u\<rparr>)))"

definition delete_tenant :: "(uuid \<Rightarrow> unit db_act) \<Rightarrow> api_env \<Rightarrow> string \<Rightarrow> uuid \<Rightarrow> unit sess_act" where
  "delete_tenant orm_delete api token tid = authorized api token [admin] (\<lambda>u.
     mapErrM (\<lambda>e. as_http is_conflict 409 (as_http is_tenant_missing 404 e))
       (delete_tenant_handle orm_delete (api_audit api) \<lparr>dt_tenant_id = tid, dt_actor = u\<rparr>))"

section \<open>Users\<close>

record create_user_request =
  bc_username :: string
  bc_password :: string
  bc_role :: string
  bc_tenant_id :: "uuid option"
  bc_is_active :: bool

record update_user_request =
  bp_role :: "string option"
  bp_tenant_id :: "uuid option"
  bp_is_active :: "bool option"
  bp_password :: "string option"

definition raise_conflict_as_http :: "error \<Rightarrow> error" where
  "raise_conflict_as_http e =
     (if is_conflict e then
        HTTPException (if error_text e \<in> {''admin user must not have tenant_id'',
          ''tenant_id is required for non-admin user''} then 400 else 409) (error_text e)
      else e)"

definition user_not_found :: "error \<Rightarrow> error" where
  "user_not_found e = (if is_user_missing e then HTTPException 404 ''user not found'' else e)"

definition create_user_endpoint ::
  "(string \<Rightarrow> string) \<Rightarrow> api_env \<Rightarrow> string \<Rightarrow> uuid \<Rightarrow> create_user_request \<Rightarrow> user_response sess_act" where
  "create_user_endpoint hash api token new_id body = authorized api token [admin] (\<lambda>u.
     answer to_user_response (mapErrM raise_conflict_as_http (create_user_handle hash (api_audit api) new_id
       \<lparr>cu_username = bc_username body, cu_password = bc_password body, cu_role = bc_role body,
        cu_tenant_id = bc_tenant_id body, cu_is_active = bc_is_active body, cu_actor = u\<rparr>)))"

definition update_user_endpoint ::
  "(string \<Rightarrow> string) \<Rightarrow> api_env \<Rightarrow> string \<Rightarrow> uuid \<Rightarrow> update_user_request \<Rightarrow> user_response sess_act" where
  "update_user_endpoint hash api token uid body = authorized api token [admin] (\<lambda>u.
     answer to_user_response (mapErrM (\<lambda>e. raise_conflict_as_http (user_not_found e))
       (update_user_handle hash (api_audit api)
         \<lparr>uu_user_id = uid, uu_role = bp_role body, uu_tenant_id = bp_tenant_id body,
          uu_is_active = bp_is_active body, uu_password = bp_password body, uu_actor = u\<rparr>)))"

definition deactivate_user :: "api_env \<Rightarrow> string \<Rightarrow> uuid \<Rightarrow> unit sess_act" where
  "deactivate_user api token uid = authorized api token [admin] (\<lambda>u.
     mapErrM (\<lambda>e. as_http is_conflict 409 (user_not_found e))
       (deactivate_user_handle (api_audit api) \<lparr>du_user_id = uid, du_actor = u\<rparr>))"

section \<open>Sessions\<close>

definition auth_error_as_http :: "error \<Rightarrow> error" where
  "auth_error_as_http e = (case e of AuthCommandError st m \<Rightarrow> HTTPException st m | _ \<Rightarrow> e)"

definition login :: "api_env \<Rightarrow> login_command \<Rightarrow> access_token_response sess_act" where
  "login api body = answer to_access_token_response
     (mapErrM auth_error_as_http (login_handle (api_auth api) (api_audit api) body))"

definition refresh :: "api_env \<Rightarrow> refresh_token_command \<Rightarrow> access_token_response sess_act" where
  "refresh api body = answer to_access_token_response
     (mapErrM auth_error_as_http (refresh_handle (api_auth api) (api_audit api) body))"

definition logout :: "api_env \<Rightarrow> string \<Rightarrow> string \<Rightarrow> unit sess_act" where
  "logout api token refresh_token =
     bindM (db_op (get_current_user (api_auth api) (ae_now (api_audit api)) token)) (\<lambda>u.
     logout_handle (api_auth api) (api_audit api) \<lparr>lo_refresh_token = refresh_token, lo_current_user = u\<rparr>)"

section \<open>The system\<close>

text \<open>Every request that may change tenants, users or sessions, whatever it answers.\<close>

inductive admin_step :: "db \<Rightarrow> db \<Rightarrow> bool" where
  tenant_created: "request (create_tenant api token new_id tbody) d = (r1, d') \<Longrightarrow> admin_step d d'"
| tenant_updated: "request (update_tenant api token tid name act) d = (r2, d') \<Longrightarrow> admin_step d d'"
| quota_updated: "request (update_tenant_quota api token tid n c m g) d = (r3, d') \<Longrightarrow> admin_step d d'"
| tenant_deleted: "deletes_tenant del \<Longrightarrow> request (delete_tenant del api token tid) d = (r4, d') \<Longrightarrow> admin_step d d'"
| user_created: "request (create_user_endpoint hash api token new_id cbody) d = (r5, d') \<Longrightarrow> admin_step d d'"
| user_updated: "request (update_user_endpoint hash api token uid ubody) d = (r6, d') \<Longrightarrow> admin_step d d'"
| user_deactivated: "request (deactivate_user api token uid) d = (r7, d') \<Longrightarrow> admin_step d d'"
| logged_in: "request (login api lbody) d = (r8, d') \<Longrightarrow> admin_step d d'"
| refreshed: "request (refresh api rbody) d = (r9, d') \<Longrightarrow> admin_step d d'"
| logged_out: "request (logout api token rt) d = (r10, d') \<Longrightarrow> admin_step d d'"

text \<open>The rows of the token table only come, and once revoked stay revoked.\<close>

definition tokens_grow :: "db \<Rightarrow> db \<Rightarrow> bool" where
  "tokens_grow d d' \<longleftrightarrow> (\<forall>h t. token_at d h = Some t \<longrightarrow> (\<exists>t'. token_at d' h = Some t' \<and>
     rt_user_id t' = rt_user_id t \<and> (rt_revoked_at t \<noteq> None \<longrightarrow> rt_revoked_at t' \<noteq> None)))"

definition admin_inv :: "db \<Rightarrow> bool" where
  "admin_inv d \<longleftrightarrow> directory_ok d \<and> admins_ok d \<and> tokens_ok d"

lemma tokens_grow_refl [simp]: "tokens_grow d d"
  by (simp add: tokens_grow_def)

lemma tokens_grow_trans: "tokens_grow d d1 \<Longrightarrow> tokens_grow d1 d' \<Longrightarrow> tokens_grow d d'"
  unfolding tokens_grow_def by metis

lemma tokens_grow_same: "refresh_tokens d' = refresh_tokens d \<Longrightarrow> tokens_grow d d'"
  by (simp add: tokens_grow_def token_at_def)

lemma revoked_row_revoked [simp]: "rt_revoked_at (revoked_row now t) \<noteq> None"
  by (simp add: revoked_row_def split: option.splits)

lemma tokens_grow_update:
  "tokens_grow d (refresh_tokens_update (update_where p (revoked_row now)) d)"
proof -
  have "row_of rt_token_hash h (update_where p (revoked_row now) ts) =
      map_option (\<lambda>t. if p t then revoked_row now t else t) (row_of rt_token_hash h ts)" for h ts
    by (induction ts) auto
  then show ?thesis by (auto simp: tokens_grow_def token_at_def simp del: not_None_eq)
qed

lemma tokens_grow_grants: "grants ax env u toks d d' \<Longrightarrow> tokens_grow d d'"
  by (auto simp: grants_def tokens_grow_def token_at_def row_of_append)

section \<open>What the requests keep\<close>

definition user_frame :: "(db \<Rightarrow> bool) \<Rightarrow> bool" where
  \<comment> \<open>does not depend on users and log, and survives revocations\<close>
  "user_frame P \<longleftrightarrow> (\<forall>d f. P (users_update f d) = P d) \<and> (\<forall>d f. P (audit_logs_update f d) = P d) \<and>
     (\<forall>now k. keeps P (revoke_all_for_user now k))"

lemma user_handlers_keep:
  assumes "user_frame P"
  shows "keeps (both P) (create_user_handle hash env uid ccmd)" "keeps (both P) (update_user_handle hash env ucmd)"
    "keeps (both P) (deactivate_user_handle env dcmd)"
proof -
  have fr: "P (users_update f d) = P d" "P (audit_logs_update g d) = P d" for d f g
    using assms by (simp_all add: user_frame_def)
  have 1: "keeps P (create_user uid now n h r act tid)" for uid now n h r act tid
    by (rule keepsI, rename_tac d res d', case_tac res)
       (auto dest!: create_user_fail create_user_ok simp: fr)
  have 2: "keeps P (update_user now uid r act h tid)" for now uid r act h tid
    by (rule keepsI, rename_tac d res d', case_tac res)
       (auto dest!: update_user_fail simp: fr elim!: update_user_ok)
  have 3: "keeps P (user_get_by_id k)" for k by (simp add: user_get_by_id_def keeps_sql_read)
  have 4: "keeps P (audit_write env e)" for env e
    using assms by (intro keeps_audit_frame) (simp add: user_frame_def)
  have 5: "keeps P (revoke_all_for_user now k)" for now k using assms by (simp add: user_frame_def)
  note rules = keeps_transact keeps_bindM keeps_basic keeps_mapErrM keeps_if keeps_case_option
    keeps_guard_last_admin 1 2 3 4 5
  show "keeps (both P) (create_user_handle hash env uid ccmd)" unfolding create_user_handle_def by (intro rules)
  show "keeps (both P) (update_user_handle hash env ucmd)" unfolding update_user_handle_def Let_def by (intro rules)
  show "keeps (both P) (deactivate_user_handle env dcmd)" unfolding deactivate_user_handle_def by (intro rules)
qed

lemma directory_updates [simp]:
  "directory_ok (users_update f d) = directory_ok d" "directory_ok (audit_logs_update g d) = directory_ok d"
  "directory_ok (refresh_tokens_update h d) = directory_ok d"
  by (simp_all add: directory_ok_def tenants_ok_def default_ok_def)

lemma revoke_all_form:
  "revoke_all_for_user now k d = (r, d') \<Longrightarrow> d' = refresh_tokens_update
     (update_where (\<lambda>t. rt_user_id t = k \<and> rt_revoked_at t = None) (revoked_row now)) d"
  using revoke_all_run [of now k d] by auto

lemma revoke_all_keeps:
  "keeps directory_ok (revoke_all_for_user now k)" "keeps tokens_ok (revoke_all_for_user now k)"
  "keeps (tokens_grow d0) (revoke_all_for_user now k)"
proof -
  show "keeps directory_ok (revoke_all_for_user now k)"
    by (rule keepsI, drule revoke_all_form) simp
  show "keeps tokens_ok (revoke_all_for_user now k)"
    by (rule keepsI, drule revoke_all_form) simp
  show "keeps (tokens_grow d0) (revoke_all_for_user now k)"
    by (rule keepsI, drule revoke_all_form) (simp add: tokens_grow_trans [OF _ tokens_grow_update])
qed

lemma user_frames: "user_frame directory_ok" "user_frame tokens_ok" "user_frame (tokens_grow d0)"
  using revoke_all_keeps by (simp_all add: user_frame_def tokens_ok_def tokens_grow_def token_at_def)

lemma user_request_keeps:
  assumes "request m d = (r, d')" "admin_inv d" "admins_ok d'"
    "keeps (both directory_ok) m" "keeps (both tokens_ok) m" "keeps (both (tokens_grow d)) m"
  shows "admin_inv d' \<and> tokens_grow d d'"
  using keeps_request [OF assms(4) _ assms(1)] keeps_request [OF assms(5) _ assms(1)]
    keeps_request [OF assms(6) _ assms(1)] assms(2,3) by (simp add: admin_inv_def)

lemma user_requests_keep:
  assumes "admin_inv d"
  shows "request (create_user_handle hash env uid ccmd) d = (r, d') \<Longrightarrow> admin_inv d' \<and> tokens_grow d d'"
    "request (update_user_handle hash env ucmd) d = (r, d') \<Longrightarrow> admin_inv d' \<and> tokens_grow d d'"
    "request (deactivate_user_handle env dcmd) d = (r2, d') \<Longrightarrow> admin_inv d' \<and> tokens_grow d d'"
proof -
  have ok: "admins_ok d" using assms by (simp add: admin_inv_def)
  note k = user_handlers_keep [OF user_frames(1)] user_handlers_keep [OF user_frames(2)] user_handlers_keep [OF user_frames(3)]
  show "admin_inv d' \<and> tokens_grow d d'" if "request (create_user_handle hash env uid ccmd) d = (r, d')"
    by (rule user_request_keeps [OF that assms create_user_admins [OF ok that] k(1,4,7)])
  show "admin_inv d' \<and> tokens_grow d d'" if "request (update_user_handle hash env ucmd) d = (r, d')"
    by (rule user_request_keeps [OF that assms update_user_admins [OF ok that] k(2,5,8)])
  show "admin_inv d' \<and> tokens_grow d d'" if "request (deactivate_user_handle env dcmd) d = (r2, d')"
    by (rule user_request_keeps [OF that assms deactivate_user_admins [OF ok that] k(3,6,9)])
qed

lemma admin_inv_same:
  assumes "directory_ok d'" "users d' = users d" "refresh_tokens d' = refresh_tokens d" "admin_inv d"
  shows "admin_inv d' \<and> tokens_grow d d'"
  using assms by (simp add: admin_inv_def admins_ok_def users_ok_def tokens_ok_def tokens_grow_same)

lemma admin_inv_audit: "only_audit d d' \<Longrightarrow> admin_inv d \<Longrightarrow> admin_inv d' \<and> tokens_grow d d'"
  by (rule admin_inv_same) (auto simp: admin_inv_def directory_audit only_audit_sel)

lemma grants_keeps:
  assumes "grants ax env u toks d d'" "admin_inv d" "tenant_quotas d' = tenant_quotas d"
  shows "admin_inv d' \<and> tokens_grow d d'"
  using assms grants_tokens_ok [OF assms(1)] tokens_grow_grants [OF assms(1)] directory_frame [of d' d]
  by (auto simp: grants_def admin_inv_def admins_ok_def users_ok_def)

lemma request_mapped: "request (mapErrM f m) d = (r, d') \<Longrightarrow> \<exists>r'. request m d = (r', d')"
  by (auto simp: request_mapErrM split: prod.splits sum.splits)

lemma endpoint_cases:
  assumes "request (authorized api token roles (\<lambda>u. mapErrM f (m u))) d = (r, d')"
  shows "d' = d \<or> (\<exists>u r'. request (m u) d = (r', d'))"
  using request_authorized [OF assms] request_mapped by blast

lemma answered_cases:
  assumes "request (authorized api token roles (\<lambda>u. answer g (mapErrM f (m u)))) d = (r, d')"
  shows "d' = d \<or> (\<exists>u r'. request (m u) d = (r', d'))"
  using request_authorized [OF assms] request_mapped request_answered by metis

lemma tenant_requests_keep:
  assumes "admin_inv d"
  shows "request (create_tenant_handle env tid ccmd) d = (r1, d') \<Longrightarrow> admin_inv d' \<and> tokens_grow d d'"
    "request (update_tenant_handle env ucmd) d = (r2, d') \<Longrightarrow> admin_inv d' \<and> tokens_grow d d'"
    "request (update_tenant_quota_handle env qcmd) d = (r3, d') \<Longrightarrow> admin_inv d' \<and> tokens_grow d d'"
proof -
  have dir: "directory_ok d" using assms by (simp add: admin_inv_def)
  have *: "admin_inv d' \<and> tokens_grow d d'"
    if "directory_ok d' \<and> users d' = users d \<and> refresh_tokens d' = refresh_tokens d"
    using admin_inv_same that assms by blast
  show "admin_inv d' \<and> tokens_grow d d'" if "request (create_tenant_handle env tid ccmd) d = (r1, d')"
    by (rule * [OF create_tenant_directory [OF that dir]])
  show "admin_inv d' \<and> tokens_grow d d'" if "request (update_tenant_handle env ucmd) d = (r2, d')"
    by (rule * [OF update_tenant_directory [OF that dir]])
  show "admin_inv d' \<and> tokens_grow d d'" if "request (update_tenant_quota_handle env qcmd) d = (r3, d')"
    by (rule * [OF update_quota_directory [OF that dir]])
qed

lemma keeps_issue:
  assumes "\<And>d f. P (refresh_tokens_update f d) = P d"
  shows "keeps P (issue_tokens ax env u)"
  unfolding issue_tokens_def Let_def by (auto split: prod.splits intro!: keeps_bindM keeps_basic keeps_tokens assms)

lemma keeps_ensure_login: "keeps P (ensure_login_allowed u)"
  unfolding ensure_login_allowed_def tenant_get_def
  by (intro keeps_if keeps_basic keeps_case_option keeps_bindM keeps_sql_read)

lemma keeps_reject:
  assumes "\<And>d f. P (audit_logs_update f d) = P d"
  shows "keeps (both P) (reject env e err)"
  unfolding reject_def by (intro keeps_bindM keeps_transact keeps_audit_frame keeps_basic assms)

lemma auth_handlers_keep:
  assumes P: "\<And>d f. P (refresh_tokens_update f d) = P d" "\<And>d g. P (audit_logs_update g d) = P d"
  shows "keeps (both P) (login_handle ax env lcmd)" "keeps (both P) (refresh_handle ax env rcmd)"
proof -
  have get: "keeps P (user_get_by_username n)" "keeps P (user_get_by_id k)" "keeps P (get_active_by_hash now h)" for n k now h
    by (simp_all add: user_get_by_username_def user_get_by_id_def get_active_by_hash_def keeps_sql_read)
  have aud: "keeps P (audit_write env e)" for e by (rule keeps_audit_frame) (rule P(2))
  have rev: "keeps P (revoke_by_hash now h)" for now h by (rule keeps_tokens) (rule P(1))
  note rules = keeps_bindM keeps_db_op keeps_basic keeps_case_option keeps_if keeps_transact get aud rev
    keeps_reject [OF P(2)] keeps_issue [OF P(1)] keeps_ensure_login
  show "keeps (both P) (login_handle ax env lcmd)" unfolding login_handle_def by (intro rules)
  show "keeps (both P) (refresh_handle ax env rcmd)" unfolding refresh_handle_def Let_def
    by (cases "decode_refresh_token (au_jwt ax) (ae_now env) (rf_refresh_token rcmd) (au_jwt_secret ax) [au_jwt_algorithm ax]")
       (simp_all, (intro rules)+)
qed

lemma auth_request_keeps:
  assumes "request m d = (r, d')" "keeps (both directory_ok) m" "keeps (both admins_ok) m" "admin_inv d"
    "tokens_ok d \<Longrightarrow> tokens_ok d' \<and> tokens_grow d d'"
  shows "admin_inv d' \<and> tokens_grow d d'"
  using assms keeps_request [OF assms(2) _ assms(1)] keeps_request [OF assms(3) _ assms(1)] by (simp add: admin_inv_def)

lemma admins_updates [simp]:
  "admins_ok (refresh_tokens_update f d) = admins_ok d" "admins_ok (audit_logs_update g d) = admins_ok d"
  by (simp_all add: admins_ok_def)

lemma token_frames: "tokens_ok d \<Longrightarrow> logged a d d' \<Longrightarrow> tokens_ok d' \<and> tokens_grow d d'"
  by (drule logged_only) (simp add: token_at_audit tokens_grow_same only_audit_sel)

lemma revoke_row_grow [simp]: "tokens_grow d (revoke_row now h d)"
  by (simp add: revoke_row_def tokens_grow_update)

lemma login_keeps:
  assumes "request (login_handle ax env cmd) d = (r, d')" "admin_inv d"
  shows "admin_inv d' \<and> tokens_grow d d'"
proof (rule auth_request_keeps [OF assms(1) auth_handlers_keep(1) auth_handlers_keep(1) assms(2)])
  assume ok: "tokens_ok d"
  show "tokens_ok d' \<and> tokens_grow d d'"
  proof (cases r)
    case (Inl e)
    then show ?thesis using login_run [OF assms(1)] token_frames [OF ok] ok by auto
  next
    case (Inr toks)
    then obtain u where g: "grants ax env u toks d d'" using login_run [OF assms(1)] by auto
    show ?thesis using grants_tokens_ok [OF g ok] tokens_grow_grants [OF g] by simp
  qed
qed simp_all

lemma refresh_keeps:
  assumes "request (refresh_handle ax env cmd) d = (r, d')" "admin_inv d"
  shows "admin_inv d' \<and> tokens_grow d d'"
proof (rule auth_request_keeps [OF assms(1) auth_handlers_keep(2) auth_handlers_keep(2) assms(2)])
  assume ok: "tokens_ok d"
  show "tokens_ok d' \<and> tokens_grow d d'"
  proof (cases r)
    case (Inl e)
    then show ?thesis using refresh_run [OF ok assms(1)] token_frames ok by auto
  next
    case (Inr toks)
    then obtain u where g: "grants ax env u toks (revoke_row (ae_now env) (hash_token (au_sha256 ax) (rf_refresh_token cmd)) d) d'"
      using refresh_run [OF ok assms(1)] by auto
    show ?thesis using grants_tokens_ok [OF g] ok tokens_grow_trans [OF revoke_row_grow tokens_grow_grants [OF g]] by simp
  qed
qed simp_all

lemma logout_keeps:
  assumes "request (logout_handle ax env cmd) d = (r, d')" "admin_inv d"
  shows "admin_inv d' \<and> tokens_grow d d'"
proof (cases r)
  case (Inl e)
  have "commits_last (logout_handle ax env cmd)" unfolding logout_handle_def by (rule commit_intros)
  then show ?thesis using failed_request assms Inl by force
next
  case (Inr x)
  have ok: "tokens_ok d" using assms(2) by (simp add: admin_inv_def)
  note run = logout_run [OF ok assms(1) [unfolded Inr]]
  have "admin_inv (revoke_row now h d)" for now h
    using assms(2) by (simp add: admin_inv_def) (simp add: revoke_row_def)
  then show ?thesis
    using run assms(2) admin_inv_audit tokens_grow_trans [OF revoke_row_grow] logged_only
    by (metis (no_types, lifting))
qed

lemma admin_step_keeps: "admin_step d d' \<Longrightarrow> admin_inv d \<Longrightarrow> admin_inv d' \<and> tokens_grow d d'"
proof (induction rule: admin_step.induct)
  case (tenant_created api token new_id tbody d r1 d')
  from answered_cases [OF tenant_created(1) [unfolded create_tenant_def]] show ?case
    using tenant_requests_keep(1) [OF tenant_created(2)] tenant_created(2) by auto
next
  case (tenant_updated api token tid name act d r2 d')
  from answered_cases [OF tenant_updated(1) [unfolded update_tenant_def]] show ?case
    using tenant_requests_keep(2) [OF tenant_updated(2)] tenant_updated(2) by auto
next
  case (quota_updated api token tid n c m g d r3 d')
  from answered_cases [OF quota_updated(1) [unfolded update_tenant_quota_def]] show ?case
    using tenant_requests_keep(3) [OF quota_updated(2)] quota_updated(2) by auto
next
  case (tenant_deleted del api token tid d r4 d')
  from endpoint_cases [OF tenant_deleted(2) [unfolded delete_tenant_def]] show ?case
    using delete_tenant_fails [OF tenant_deleted(1)] tenant_deleted(3) by (metis prod.inject tokens_grow_refl)
next
  case (user_created hash api token new_id cbody d r5 d')
  from answered_cases [OF user_created(1) [unfolded create_user_endpoint_def]] show ?case
    using user_requests_keep(1) user_created(2) by auto
next
  case (user_updated hash api token uid ubody d r6 d')
  from answered_cases [OF user_updated(1) [unfolded update_user_endpoint_def]] show ?case
    using user_requests_keep(2) user_updated(2) by auto
next
  case (user_deactivated api token uid d r7 d')
  from endpoint_cases [OF user_deactivated(1) [unfolded deactivate_user_def]] show ?case
    using user_requests_keep(3) user_deactivated(2) by auto
next
  case (logged_in api lbody d r8 d')
  then show ?case using login_keeps request_mapped request_answered unfolding login_def by metis
next
  case (refreshed api rbody d r9 d')
  then show ?case using refresh_keeps request_mapped request_answered unfolding refresh_def by metis
next
  case (logged_out api token rt d r10 d')
  let ?get = "get_current_user (api_auth api) (ae_now (api_audit api)) token"
  obtain x dx where g: "?get d = (x, dx)" by (rule prod.exhaust)
  then have g': "?get d = (x, d)" using get_current_user_run by blast
  show ?case
  proof (cases x)
    case (Inl e)
    from logged_out(1) [unfolded logout_def request_read_fail [of ?get, OF g' [unfolded Inl]]] logged_out(2)
    show ?thesis by simp
  next
    case (Inr u)
    from logged_out(1) [unfolded logout_def request_read [of ?get, OF g' [unfolded Inr]]] logged_out(2)
    show ?thesis by (rule logout_keeps)
  qed
qed

text \<open>A fresh installation: the default tenant and one administrator.\<close>

definition installed :: "db \<Rightarrow> bool" where
  "installed d \<longleftrightarrow> (\<exists>t u. tenants d = [t] \<and> ten_key t = default_tenant_key \<and> ten_is_active t \<and>
     (\<forall>q \<in> set (tenant_quotas d). quo_tenant_id q = ten_id t) \<and> length (tenant_quotas d) \<le> 1 \<and>
     users d = [u] \<and> active_admin u \<and> usr_tenant_id u = None \<and> refresh_tokens d = [])"

lemma installed_inv: "installed d \<Longrightarrow> admin_inv d"
  unfolding installed_def
  by (elim exE conjE, cases "tenant_quotas d")
     (auto simp: admin_inv_def directory_ok_def tenants_ok_def default_ok_def admins_ok_def users_ok_def
       tokens_ok_def active_admin_def user_role_check_def)

interpretation admin: invariant_system admin_step installed admin_inv
proof (unfold_locales, goal_cases)
  case (1 s)
  then show ?case by (rule installed_inv)
next
  case (2 s s')
  then show ?case using admin_step_keeps by blast
qed

lemma admin_steps_grow: "admin_step\<^sup>*\<^sup>* d d' \<Longrightarrow> admin_inv d \<Longrightarrow> tokens_grow d d'"
proof (induction rule: rtranclp_induct)
  case (step y z)
  then show ?case using admin_step_keeps admin.steps_inv tokens_grow_trans by meson
qed simp

text \<open>C31: a refresh token that was ever spent, logged out or revoked is dead: after any further
  requests its row is still there and revoked, and presenting the token again is refused and
  changes no token.\<close>

theorem spent_token_is_dead:
  assumes "admin_inv d" "admin_step\<^sup>*\<^sup>* d d'" "token_at d h = Some t" "rt_revoked_at t \<noteq> None"
    "hash_token (au_sha256 (api_auth api)) (rf_refresh_token body) = h"
  shows "(\<exists>t'. token_at d' h = Some t' \<and> rt_revoked_at t' \<noteq> None) \<and>
    (\<exists>e d''. request (refresh api body) d' = (Inl e, d'') \<and> refresh_tokens d'' = refresh_tokens d')"
proof -
  obtain t' where t': "token_at d' h = Some t'" "rt_revoked_at t' \<noteq> None"
    using admin_steps_grow [OF assms(2,1)] assms(3,4) unfolding tokens_grow_def by blast
  have ok: "tokens_ok d'" using admin.steps_inv [OF assms(2,1)] by (simp add: admin_inv_def)
  obtain r d'' where run: "request (refresh_handle (api_auth api) (api_audit api) body) d' = (r, d'')" by (rule prod.exhaust)
  note ref = refresh_run [OF ok run, unfolded assms(5)]
  show ?thesis
  proof (cases r)
    case (Inl e)
    then have "refresh_tokens d'' = refresh_tokens d'" using ref by (auto dest!: logged_only simp: only_audit_sel)
    then show ?thesis using t' run Inl by (simp add: refresh_def request_answer request_mapErrM)
  next
    case (Inr toks)
    then have "token_active (ae_now (api_audit api)) t'" using ref t'(1) by auto
    then show ?thesis using t'(2) by (simp add: token_active_def)
  qed
qed

section \<open>The properties at work\<close>

definition sample_installation :: db where
  "sample_installation = empty_db\<lparr>tenants := [sample_tenant 1 ''default''], users := [sample_admin]\<rparr>"

lemma sample_installed: "installed sample_installation"
  by (simp add: installed_def sample_installation_def empty_db_def sample_tenant_def default_tenant_key_def
      sample_admin_def active_admin_def)

definition sample_spent_db :: db where
  "sample_spent_db = sample_installation\<lparr>refresh_tokens :=
     [sample_token\<lparr>rt_token_hash := ''00'', rt_revoked_at := Some 7\<rparr>]\<rparr>"

theorem spent_token_is_dead_witness:
  "\<exists>e d''. request (refresh sample_api \<lparr>rf_refresh_token = []\<rparr>) sample_spent_db = (Inl e, d'') \<and>
     refresh_tokens d'' = refresh_tokens sample_spent_db"
proof -
  have "admin_inv sample_installation" using installed_inv sample_installed by blast
  then have inv: "admin_inv sample_spent_db"
    by (simp add: admin_inv_def sample_spent_db_def admins_ok_def users_ok_def tokens_ok_def
        directory_ok_def tenants_ok_def default_ok_def)
  have h: "hash_token (au_sha256 (api_auth sample_api)) (rf_refresh_token \<lparr>rf_refresh_token = []\<rparr>) = ''00''"
    by (simp add: hash_token_def sample_api_def sample_auth_def utf8_def hex_digit_def)
  have "token_at sample_spent_db ''00'' = Some (sample_token\<lparr>rt_token_hash := ''00'', rt_revoked_at := Some 7\<rparr>)"
    by (simp add: token_at_def sample_spent_db_def)
  from spent_token_is_dead [OF inv rtranclp.rtrancl_refl this _ h] show ?thesis by simp
qed

end
