(* ===== verification/Console.thy ===== *)
theory Console
  imports Security Queries
begin

text \<open>
  Access to the graphical console of an instance: the in-memory store of one-time tickets
  (\<^verbatim>\<open>adapters/console_ticket_store.py\<close>), the port an instance's VNC server listens on
  (\<^verbatim>\<open>services/console_port.py\<close>) and the proxy between a websocket and that port
  (\<^verbatim>\<open>proxy_instance_console\<close> in \<^verbatim>\<open>api/routers/instances.py\<close>).  The ticket text
  (\<^verbatim>\<open>secrets.token_urlsafe(32)\<close>) and the clock are arguments.
\<close>

unbundle bit_operations_syntax

section \<open>Tickets\<close>

record console_ticket =
  tk_ticket :: string
  tk_instance_id :: uuid
  tk_issued_by :: uuid
  tk_expires_at :: timestamp
  tk_used :: bool

type_synonym ticket_store = "string \<rightharpoonup> console_ticket"

definition no_tickets :: ticket_store where
  "no_tickets = (\<lambda>_. None)"

definition prune :: "timestamp \<Rightarrow> ticket_store \<Rightarrow> ticket_store" where
  "prune now st = (\<lambda>k. case st k of
      None \<Rightarrow> None
    | Some v \<Rightarrow> if tk_used v \<or> tk_expires_at v \<le> now then None else Some v)"

definition ticket_expiry :: "timestamp \<Rightarrow> int \<Rightarrow> timestamp" where
  "ticket_expiry now ttl_seconds = now + seconds (max ttl_seconds 1)"

definition issue_ticket ::
  "timestamp \<Rightarrow> string \<Rightarrow> uuid \<Rightarrow> uuid \<Rightarrow> int \<Rightarrow> ticket_store \<Rightarrow> console_ticket \<times> ticket_store" where
  "issue_ticket now fresh instance_id issued_by ttl_seconds st =
     (let r = \<lparr>tk_ticket = fresh, tk_instance_id = instance_id, tk_issued_by = issued_by,
               tk_expires_at = ticket_expiry now ttl_seconds, tk_used = False\<rparr>
      in (r, (prune now st)(fresh \<mapsto> r)))"

definition consume_ticket ::
  "timestamp \<Rightarrow> string \<Rightarrow> uuid \<Rightarrow> ticket_store \<Rightarrow> console_ticket option \<times> ticket_store" where
  "consume_ticket now ticket instance_id st =
     (let st' = prune now st in
      case st' ticket of
        None \<Rightarrow> (None, st')
      | Some r \<Rightarrow>
          if tk_instance_id r \<noteq> instance_id then (None, st')
          else if tk_used r \<or> tk_expires_at r \<le> now then (None, st')
          else (Some (r\<lparr>tk_used := True\<rparr>), st'(ticket \<mapsto> r\<lparr>tk_used := True\<rparr>)))"

section \<open>Histories of the store\<close>

datatype ticket_call =
    Issue (called_at: timestamp) string uuid uuid int
  | Consume (called_at: timestamp) string uuid

fun ticket_step :: "ticket_call \<Rightarrow> ticket_store \<Rightarrow> ticket_store" where
  "ticket_step (Issue now fresh iid uid ttl) st = snd (issue_ticket now fresh iid uid ttl st)"
| "ticket_step (Consume now t iid) st = snd (consume_ticket now t iid st)"

definition store_after :: "ticket_call list \<Rightarrow> ticket_store" where
  "store_after cs = fold ticket_step cs no_tickets"

text \<open>A ticket stays redeemable through a call that comes before its expiry, does not redeem it and
  does not issue its text again.\<close>

definition spares :: "string \<Rightarrow> uuid \<Rightarrow> timestamp \<Rightarrow> ticket_call \<Rightarrow> bool" where
  "spares t iid expires c \<longleftrightarrow> called_at c < expires \<and>
     (case c of Issue _ t' _ _ _ \<Rightarrow> t' \<noteq> t | Consume _ t' iid' \<Rightarrow> \<not> (t' = t \<and> iid' = iid))"

definition unused :: "ticket_store \<Rightarrow> string \<Rightarrow> console_ticket option" where
  "unused st t = (case st t of Some r \<Rightarrow> if tk_used r then None else Some r | None \<Rightarrow> None)"

lemma unused_issue:
  "unused (snd (issue_ticket now t' iid uid ttl st)) t =
     (if t = t' then Some (fst (issue_ticket now t' iid uid ttl st))
      else case unused st t of Some r \<Rightarrow> if tk_expires_at r \<le> now then None else Some r | None \<Rightarrow> None)"
  by (auto simp: unused_def issue_ticket_def prune_def Let_def split: option.splits)

lemma unused_consume:
  "unused (snd (consume_ticket now t' iid st)) t =
     (case unused st t of
        Some r \<Rightarrow> if tk_expires_at r \<le> now \<or> t' = t \<and> tk_instance_id r = iid then None else Some r
      | None \<Rightarrow> None)"
  by (auto simp: unused_def consume_ticket_def prune_def Let_def split: option.splits)

text \<open>A step keeps a redeemable ticket exactly when it spares it.\<close>

lemma unused_step:
  "unused (ticket_step c st) t = Some r \<longleftrightarrow>
     (\<exists>now iid uid ttl. c = Issue now t iid uid ttl \<and> r = fst (issue_ticket now t iid uid ttl st)) \<or>
     unused st t = Some r \<and> spares t (tk_instance_id r) (tk_expires_at r) c"
  by (cases c) (auto simp: unused_issue unused_consume spares_def split: option.splits if_splits)

definition new_ticket :: "timestamp \<Rightarrow> string \<Rightarrow> uuid \<Rightarrow> uuid \<Rightarrow> int \<Rightarrow> console_ticket" where
  "new_ticket now t iid uid ttl = fst (issue_ticket now t iid uid ttl no_tickets)"

lemma issue_ticket_fst: "fst (issue_ticket now t iid uid ttl st) = new_ticket now t iid uid ttl"
  by (simp add: new_ticket_def issue_ticket_def Let_def)

lemma new_ticket_sel [simp]:
  "tk_ticket (new_ticket now t iid uid ttl) = t" "tk_instance_id (new_ticket now t iid uid ttl) = iid"
  "tk_issued_by (new_ticket now t iid uid ttl) = uid" "tk_used (new_ticket now t iid uid ttl) = False"
  "tk_expires_at (new_ticket now t iid uid ttl) = ticket_expiry now ttl"
  by (simp_all add: new_ticket_def issue_ticket_def Let_def)

lemma store_after_snoc: "store_after (cs @ [c]) = ticket_step c (store_after cs)"
  by (simp add: store_after_def)

lemma unused_store_after:
  "unused (store_after cs) t = Some r \<longleftrightarrow>
     (\<exists>before now iid uid ttl since. cs = before @ Issue now t iid uid ttl # since \<and>
        r = new_ticket now t iid uid ttl \<and> (\<forall>c \<in> set since. spares t iid (ticket_expiry now ttl) c))"
    (is "_ \<longleftrightarrow> ?spec cs")
proof (induction cs rule: rev_induct)
  case Nil
  then show ?case by (simp add: store_after_def no_tickets_def unused_def)
next
  case (snoc c cs)
  have "?spec (cs @ [c]) \<longleftrightarrow> (\<exists>now iid uid ttl. c = Issue now t iid uid ttl \<and> r = new_ticket now t iid uid ttl) \<or>
      ?spec cs \<and> spares t (tk_instance_id r) (tk_expires_at r) c" (is "_ \<longleftrightarrow> ?new \<or> ?old")
  proof
    assume "?spec (cs @ [c])"
    then obtain before now iid uid ttl since where h: "cs @ [c] = before @ Issue now t iid uid ttl # since"
      "r = new_ticket now t iid uid ttl" "\<forall>c \<in> set since. spares t iid (ticket_expiry now ttl) c" by blast
    show "?new \<or> ?old"
    proof (cases since rule: rev_exhaust)
      case Nil
      then show ?thesis using h by auto
    next
      case (snoc since' c')
      then have "cs = before @ Issue now t iid uid ttl # since'" "c = c'" using h by simp_all
      moreover have "\<forall>c \<in> set since'. spares t iid (ticket_expiry now ttl) c" "spares t iid (ticket_expiry now ttl) c'"
        using h snoc by simp_all
      ultimately have ?old using h(2) by (simp only: new_ticket_sel) blast
      then show ?thesis ..
    qed
  next
    assume "?new \<or> ?old"
    then show "?spec (cs @ [c])"
    proof
      assume ?new
      then show ?thesis by (intro exI [of _ cs]) auto
    next
      assume ?old
      then obtain before now iid uid ttl since where "cs = before @ Issue now t iid uid ttl # since"
        "r = new_ticket now t iid uid ttl" "\<forall>c \<in> set since. spares t iid (ticket_expiry now ttl) c"
        "spares t (tk_instance_id r) (tk_expires_at r) c" by blast
      then show ?thesis
        by (intro exI [of _ before] exI [of _ now] exI [of _ iid] exI [of _ uid] exI [of _ ttl] exI [of _ "since @ [c]"]) auto
    qed
  qed
  then show ?case by (simp add: store_after_snoc unused_step issue_ticket_fst snoc.IH)
qed

lemma consume_unused:
  "fst (consume_ticket now t iid st) =
     (case unused st t of
        Some r \<Rightarrow> if now < tk_expires_at r \<and> tk_instance_id r = iid then Some (r\<lparr>tk_used := True\<rparr>) else None
      | None \<Rightarrow> None)"
  by (auto simp: unused_def consume_ticket_def prune_def Let_def split: option.splits)

lemma consume_issued:
  "fst (consume_ticket now' t iid' (snd (issue_ticket now t iid uid ttl st))) \<noteq> None \<longleftrightarrow>
     iid' = iid \<and> now' < ticket_expiry now ttl"
  by (auto simp: consume_unused unused_issue issue_ticket_fst)

text \<open>Ticket histories, for the clients of the store.\<close>

lemma redeemed_iff:
  "fst (consume_ticket now t iid (store_after cs)) = Some r \<longleftrightarrow>
     (\<exists>before issued uid ttl since. cs = before @ Issue issued t iid uid ttl # since \<and>
        r = (new_ticket issued t iid uid ttl)\<lparr>tk_used := True\<rparr> \<and>
        now < ticket_expiry issued ttl \<and>
        (\<forall>c \<in> set since. spares t iid (ticket_expiry issued ttl) c))"
proof -
  have "fst (consume_ticket now t iid (store_after cs)) = Some r \<longleftrightarrow>
      (\<exists>q. unused (store_after cs) t = Some q \<and> now < tk_expires_at q \<and> tk_instance_id q = iid \<and> r = q\<lparr>tk_used := True\<rparr>)"
    by (auto simp: consume_unused split: option.splits)
  then show ?thesis unfolding unused_store_after by fastforce
qed

lemma redeemable_iff:
  "fst (consume_ticket now t iid (store_after cs)) \<noteq> None \<longleftrightarrow>
     (\<exists>before issued uid ttl since. cs = before @ Issue issued t iid uid ttl # since \<and>
        now < ticket_expiry issued ttl \<and> (\<forall>c \<in> set since. spares t iid (ticket_expiry issued ttl) c))"
  by (simp only: option.simps not_None_eq redeemed_iff) blast

text \<open>Whatever calls the store has seen, redeeming a ticket for an instance succeeds exactly when
  the ticket was issued for that instance, its lifetime (at least a second) is not over, and no
  call since has come after its end, redeemed it for that instance or issued the same text again.
  In particular a ticket opens one console, once, and a wrong instance does not spend it.\<close>

theorem ticket_redeemed_iff:
  "fst (consume_ticket now t iid (store_after cs)) = Some r \<longleftrightarrow>
     (\<exists>before issued uid ttl since. cs = before @ Issue issued t iid uid ttl # since \<and>
        r = (new_ticket issued t iid uid ttl)\<lparr>tk_used := True\<rparr> \<and>
        now < ticket_expiry issued ttl \<and>
        (\<forall>c \<in> set since. spares t iid (ticket_expiry issued ttl) c))"
  by (rule redeemed_iff)

text \<open>A ticket, asked for its own instance before it expired: redeemed once, refused after.\<close>

lemma ticket_twice:
  "fst (consume_ticket 1500 ''secret'' 7 (store_after [Issue 1000 ''secret'' 7 100 300, Consume 1200 ''secret'' 8])) \<noteq> None"
  "fst (consume_ticket 1500 ''secret'' 7 (store_after [Issue 1000 ''secret'' 7 100 300, Consume 1200 ''secret'' 7])) = None"
  by code_simp+

section \<open>The port of a console\<close>

definition fnv_step :: "int \<Rightarrow> 8 word \<Rightarrow> int" where
  "fnv_step v b = ((v XOR uint b) * 16777619) AND 0xFFFFFFFF"

definition compute_console_vnc_port :: "string \<Rightarrow> int \<Rightarrow> int \<Rightarrow> int" where
  "compute_console_vnc_port instance_id base extent =
     (let base = (if base \<le> 0 then 20000 else base);
          extent = (if extent \<le> 0 then 40000 else extent);
          v = fold (\<lambda>b v. fnv_step v b) (utf8 instance_id) 2166136261
      in base + v mod extent)"

text \<open>The reference: the hash FNV-1a on 32-bit words.\<close>

definition fnv1a :: "bytes \<Rightarrow> 32 word" where
  "fnv1a bs = fold (\<lambda>b h. (h XOR ucast b) * 16777619) bs 2166136261"

lemma and_mask32: "(x :: int) AND 0xFFFFFFFF = take_bit 32 x"
proof -
  have "(0xFFFFFFFF :: int) = mask 32" by (simp add: mask_eq_exp_minus_1)
  then show ?thesis by (simp only: take_bit_eq_mask)
qed

lemma fnv_step_word: "fnv_step (uint h) b = uint ((h XOR ucast b) * 16777619 :: 32 word)"
proof -
  have "uint (ucast b :: 32 word) = uint b"
    by (rule uint_up_ucast) (simp add: is_up)
  then show ?thesis
    by (simp add: fnv_step_def and_mask32 uint_word_ariths(3) take_bit_eq_mod uint_xor)
qed

lemma fnv_fold_word:
  "fold (\<lambda>b v. fnv_step v b) bs (uint h) = uint (fold (\<lambda>b h. (h XOR ucast b) * 16777619) bs (h :: 32 word))"
  by (induction bs arbitrary: h) (simp_all add: fnv_step_word)

text \<open>C40: the console port of an instance is the base port plus the 32-bit FNV-1a hash of the
  identifier's bytes, reduced to the span; it lies in the configured range, and a base or a span
  that is not positive stands for its default.\<close>

theorem console_port_is_fnv1a:
  "compute_console_vnc_port s base extent =
     (if 0 < base then base else 20000) + uint (fnv1a (utf8 s)) mod (if 0 < extent then extent else 40000) \<and>
   (if 0 < base then base else 20000) \<le> compute_console_vnc_port s base extent \<and>
   compute_console_vnc_port s base extent < (if 0 < base then base else 20000) + (if 0 < extent then extent else 40000)"
proof -
  have "(2166136261 :: int) = uint (2166136261 :: 32 word)" by simp
  then have "fold (\<lambda>b v. fnv_step v b) (utf8 s) 2166136261 = uint (fnv1a (utf8 s))"
    by (simp only: fnv_fold_word fnv1a_def)
  then show ?thesis by (auto simp: compute_console_vnc_port_def Let_def)
qed

text \<open>Two instances can share a port.\<close>

lemma console_ports_collide:
  "compute_console_vnc_port (uuid_str 45) 20000 40000 = compute_console_vnc_port (uuid_str 248) 20000 40000"
  by code_simp

section \<open>The proxy\<close>

text \<open>What \<^verbatim>\<open>websocket.receive()\<close> returns, and what \<^verbatim>\<open>reader.read(4096)\<close> returns (nothing at
  the end of the stream).\<close>

datatype ws_message = Ws_disconnect | Ws_receive "bytes option" "string option"

datatype proxy_event = From_client ws_message | From_vnc bytes

record proxy =
  to_vnc :: bytes
  to_client :: "bytes list"
  running_proxy :: bool

definition client_to_vnc :: "ws_message \<Rightarrow> proxy \<Rightarrow> proxy" where
  "client_to_vnc message s =
     (case message of
        Ws_disconnect \<Rightarrow> s\<lparr>running_proxy := False\<rparr>
      | Ws_receive (Some chunk) _ \<Rightarrow> s\<lparr>to_vnc := to_vnc s @ chunk\<rparr>
      | Ws_receive None (Some txt) \<Rightarrow> s\<lparr>to_vnc := to_vnc s @ utf8 txt\<rparr>
      | Ws_receive None None \<Rightarrow> s)"

definition vnc_to_client :: "bytes \<Rightarrow> proxy \<Rightarrow> proxy" where
  "vnc_to_client chunk s =
     (if chunk = [] then s\<lparr>running_proxy := False\<rparr> else s\<lparr>to_client := to_client s @ [chunk]\<rparr>)"

text \<open>The two loops run until the first of them returns.\<close>

fun proxy_step :: "proxy_event \<Rightarrow> proxy \<Rightarrow> proxy" where
  "proxy_step (From_client message) s = (if running_proxy s then client_to_vnc message s else s)"
| "proxy_step (From_vnc chunk) s = (if running_proxy s then vnc_to_client chunk s else s)"

definition proxy_run :: "proxy_event list \<Rightarrow> proxy" where
  "proxy_run es = fold proxy_step es \<lparr>to_vnc = [], to_client = [], running_proxy = True\<rparr>"

fun ends_proxy :: "proxy_event \<Rightarrow> bool" where
  "ends_proxy (From_client m) = (m = Ws_disconnect)"
| "ends_proxy (From_vnc chunk) = (chunk = [])"

fun client_payload :: "proxy_event \<Rightarrow> bytes" where
  "client_payload (From_client (Ws_receive (Some chunk) _)) = chunk"
| "client_payload (From_client (Ws_receive None (Some txt))) = utf8 txt"
| "client_payload _ = []"

fun vnc_payload :: "proxy_event \<Rightarrow> bytes list" where
  "vnc_payload (From_vnc chunk) = [chunk]"
| "vnc_payload _ = []"

lemma proxy_stopped: "\<not> running_proxy s \<Longrightarrow> fold proxy_step es s = s"
proof (induction es)
  case (Cons e es)
  then show ?case by (cases e) auto
qed simp

lemma proxy_from:
  assumes "running_proxy s"
  shows "to_vnc (fold proxy_step es s) = to_vnc s @ concat (map client_payload (takeWhile (\<lambda>e. \<not> ends_proxy e) es)) \<and>
    to_client (fold proxy_step es s) = to_client s @ concat (map vnc_payload (takeWhile (\<lambda>e. \<not> ends_proxy e) es)) \<and>
    running_proxy (fold proxy_step es s) = (\<forall>e \<in> set es. \<not> ends_proxy e)"
  using assms
proof (induction es arbitrary: s)
  case (Cons e es)
  show ?case
  proof (cases "ends_proxy e")
    case True
    then have "proxy_step e s = s\<lparr>running_proxy := False\<rparr>" using Cons.prems
      by (cases e) (auto simp: client_to_vnc_def vnc_to_client_def)
    then show ?thesis using True by (simp add: proxy_stopped)
  next
    case False
    then have "running_proxy (proxy_step e s)" "to_vnc (proxy_step e s) = to_vnc s @ client_payload e"
      "to_client (proxy_step e s) = to_client s @ vnc_payload e" using Cons.prems
      by (cases e rule: client_payload.cases; auto simp: client_to_vnc_def vnc_to_client_def split: ws_message.splits option.splits)+
    then show ?thesis using Cons.IH False by simp
  qed
qed simp

text \<open>Whatever the interleaving, each side receives what the other sent, in order and complete, up to the
  first disconnect or end of stream.\<close>

lemma proxy_relays:
  "to_vnc (proxy_run es) = concat (map client_payload (takeWhile (\<lambda>e. \<not> ends_proxy e) es))"
  "to_client (proxy_run es) = concat (map vnc_payload (takeWhile (\<lambda>e. \<not> ends_proxy e) es))"
  "running_proxy (proxy_run es) = (\<forall>e \<in> set es. \<not> ends_proxy e)"
  using proxy_from [of "\<lparr>to_vnc = [], to_client = [], running_proxy = True\<rparr>" es] by (simp_all add: proxy_run_def)

section \<open>The properties at work\<close>

text \<open>A ticket that was tried at another instance is still good at its own.\<close>

theorem ticket_redeemed_iff_witness:
  "fst (consume_ticket 1500 ''secret'' 7 (store_after [Issue 1000 ''secret'' 7 100 300, Consume 1200 ''secret'' 8])) =
     Some ((new_ticket 1000 ''secret'' 7 100 300)\<lparr>tk_used := True\<rparr>)"
proof -
  have "spares ''secret'' 7 (ticket_expiry 1000 300) (Consume 1200 ''secret'' 8)" "1500 < ticket_expiry 1000 300"
    by (simp_all add: spares_def ticket_expiry_def seconds_def)
  then show ?thesis by (subst ticket_redeemed_iff) (intro exI [of _ "[]"], auto)
qed

end
