(* ===== verification/Api_Console.thy ===== *)
theory Api_Console
  imports Api_Common Access_Control Console Samples
begin

text \<open>
  The two console endpoints of \<^verbatim>\<open>api/routers/instances.py\<close>.  A request for a ticket works on the
  database session and on the ticket store of the application; the store is shared memory, so what
  it did to the store stays when the request fails.  A websocket connection needs no bearer token:
  the ticket is its only credential.
\<close>

section \<open>Requests that use the ticket store\<close>

record console_app =
  app_session :: session
  app_tickets :: ticket_store

type_synonym 'a console_act = "(error, console_app, 'a) act"

definition in_session :: "'a sess_act \<Rightarrow> 'a console_act" where
  "in_session m s = (case m (app_session s) of (r, x) \<Rightarrow> (r, s\<lparr>app_session := x\<rparr>))"

definition in_tickets :: "(ticket_store \<Rightarrow> 'a \<times> ticket_store) \<Rightarrow> 'a console_act" where
  "in_tickets f s = (case f (app_tickets s) of (a, st) \<Rightarrow> (Inr a, s\<lparr>app_tickets := st\<rparr>))"

definition console_request :: "'a console_act \<Rightarrow> db \<Rightarrow> ticket_store \<Rightarrow> (error + 'a) \<times> db \<times> ticket_store" where
  "console_request m d st = (case m \<lparr>app_session = open_session d, app_tickets = st\<rparr> of
     (r, s) \<Rightarrow> (r, durable (app_session s), app_tickets s))"

section \<open>Asking for a ticket\<close>

record console_ticket_response =
  ct_ticket :: string
  ct_expires_at :: timestamp
  ct_websocket_path :: string

definition issue_console_ticket ::
  "api_env \<Rightarrow> int \<Rightarrow> string \<Rightarrow> string \<Rightarrow> uuid \<Rightarrow> console_ticket_response console_act" where
  "issue_console_ticket api ttl_seconds fresh token iid =
     bindM (in_session (authorized api token [operator, admin] returnM)) (\<lambda>u.
     bindM (in_session (db_op (get_instance_query iid))) (\<lambda>i.
     bindM (liftM (ensure_instance_access u (inst_tenant_id i))) (\<lambda>_.
     bindM (guardM (inst_status i = running)
       (HTTPException 409 ''console is available only when instance status is running'')) (\<lambda>_.
     bindM (in_tickets (issue_ticket (ae_now (api_audit api)) fresh iid (usr_id u) ttl_seconds)) (\<lambda>tk.
     bindM (in_session (db_op (audit_write (api_audit api)
       (request_entry ''instance.console.ticket_issued'' ''instance'' iid u (inst_tenant_id i)
          [(''expires_at'', JStr (isoformat (tk_expires_at tk)))])))) (\<lambda>_.
     bindM (in_session commit) (\<lambda>_.
     returnM \<lparr>ct_ticket = tk_ticket tk, ct_expires_at = tk_expires_at tk,
       ct_websocket_path = ''/instances/'' @ uuid_str iid @ ''/console/ws?ticket='' @ tk_ticket tk\<rparr>)))))))"

definition may_console :: "api_env \<Rightarrow> string \<Rightarrow> uuid \<Rightarrow> db \<Rightarrow> user \<Rightarrow> vm_instance \<Rightarrow> bool" where
  "may_console api token iid d u i \<longleftrightarrow> admitted api token [operator, admin] d u \<and> inst_at d iid = Some i \<and>
     inst_status i = running \<and> (usr_role u = admin \<or> usr_tenant_id u = Some (inst_tenant_id i))"

section \<open>Opening a console\<close>

record console_config =
  cc_proxy_host :: string
  cc_port_base :: int
  cc_port_span :: int

datatype console_answer =
    Console_closed int string
  | Console_accepted "string option" string int

definition requested_subprotocols :: "string option \<Rightarrow> string list" where
  "requested_subprotocols header =
     map (\<lambda>item. map lower (py_strip item))
       (filter (\<lambda>item. py_strip item \<noteq> [])
          (let raw = (case header of None \<Rightarrow> [] | Some h \<Rightarrow> h) in split_max (length raw) (CHR '','') raw))"

definition proxy_instance_console ::
  "console_config \<Rightarrow> (string \<Rightarrow> int \<Rightarrow> bool) \<Rightarrow> timestamp \<Rightarrow> string option \<Rightarrow> uuid \<Rightarrow> string \<Rightarrow> ticket_store \<Rightarrow>
     console_answer \<times> ticket_store" where
  "proxy_instance_console cfg connects now header iid ticket st =
     (if length ticket < 8 then (Console_closed 1008 ''validation error'', st)
      else case consume_ticket now ticket iid st of
        (None, st') \<Rightarrow> (Console_closed 1008 ''invalid or expired ticket'', st')
      | (Some _, st') \<Rightarrow>
          (let vnc_port = compute_console_vnc_port (uuid_str iid) (cc_port_base cfg) (cc_port_span cfg) in
           if \<not> connects (cc_proxy_host cfg) vnc_port
           then (Console_closed 1011 ''console backend unavailable'', st')
           else (Console_accepted (if ''binary'' \<in> set (requested_subprotocols header) then Some ''binary'' else None)
                   (cc_proxy_host cfg) vnc_port, st')))"

section \<open>What a ticket request does\<close>

definition ticket_entry :: "api_env \<Rightarrow> uuid \<Rightarrow> user \<Rightarrow> vm_instance \<Rightarrow> console_ticket \<Rightarrow> audit_entry" where
  "ticket_entry api iid u i tk = request_entry ''instance.console.ticket_issued'' ''instance'' iid u (inst_tenant_id i)
     [(''expires_at'', JStr (isoformat (tk_expires_at tk)))]"

definition ticket_answer :: "uuid \<Rightarrow> console_ticket \<Rightarrow> console_ticket_response" where
  "ticket_answer iid tk = \<lparr>ct_ticket = tk_ticket tk, ct_expires_at = tk_expires_at tk,
     ct_websocket_path = ''/instances/'' @ uuid_str iid @ ''/console/ws?ticket='' @ tk_ticket tk\<rparr>"

definition ticket_granted ::
  "api_env \<Rightarrow> int \<Rightarrow> string \<Rightarrow> string \<Rightarrow> uuid \<Rightarrow> db \<Rightarrow> (user \<times> vm_instance) option" where
  "ticket_granted api ttl fresh token iid d =
     (case get_current_user (api_auth api) (ae_now (api_audit api)) token d of
        (Inr u, _) \<Rightarrow>
          (case inst_at d iid of
             Some i \<Rightarrow> if usr_role u \<in> {operator, admin} \<and> inst_status i = running \<and>
                 (usr_role u = admin \<or> usr_tenant_id u = Some (inst_tenant_id i)) then Some (u, i) else None
           | None \<Rightarrow> None)
      | _ \<Rightarrow> None)"

lemma ticket_granted_may_console:
  "ticket_granted api ttl fresh token iid d = Some (u, i) \<Longrightarrow> may_console api token iid d u i"
  using get_current_user_run
  by (fastforce simp: ticket_granted_def may_console_def admitted_def split: prod.splits sum.splits option.splits if_splits)

lemma ticket_request:
  "console_request (issue_console_ticket api ttl fresh token iid) d st =
     (case ticket_granted api ttl fresh token iid d of
        None \<Rightarrow> (fst (console_request (issue_console_ticket api ttl fresh token iid) d st), d, st)
      | Some (u, i) \<Rightarrow>
          (case issue_ticket (ae_now (api_audit api)) fresh iid (usr_id u) ttl st of (tk, st') \<Rightarrow>
             (case audit_write (api_audit api) (ticket_entry api iid u i tk) d of
                (Inl e, _) \<Rightarrow> (Inl e, d, st')
              | (Inr _, d') \<Rightarrow> (Inr (ticket_answer iid tk), d', st'))))"
proof -
  obtain x dx where g: "get_current_user (api_auth api) (ae_now (api_audit api)) token d = (x, dx)"
    by (rule prod.exhaust)
  then have "dx = d" using get_current_user_run by blast
  note g = g [unfolded this]
  show ?thesis
    by (cases x; cases "inst_at d iid")
      (simp_all add: g console_request_def issue_console_ticket_def in_session_def in_tickets_def authorized_def
        bindM_def db_op_def liftM_def require_roles_def ticket_granted_def get_instance_query_def
        instance_read_get_None open_session_def ensure_instance_access_def guardM_def ticket_entry_def
        ticket_answer_def split: prod.splits sum.splits if_splits option.splits)
qed

text \<open>The only calls of the store an endpoint makes.\<close>

lemma ticket_request_store:
  "snd (snd (console_request (issue_console_ticket api ttl fresh token iid) d st)) =
     (case ticket_granted api ttl fresh token iid d of
        None \<Rightarrow> st
      | Some (u, i) \<Rightarrow> ticket_step (Issue (ae_now (api_audit api)) fresh iid (usr_id u) ttl) st)"
  by (subst ticket_request) (auto split: option.splits prod.splits sum.splits)

lemma ticket_request_refused:
  assumes "console_request (issue_console_ticket api ttl fresh token iid) d st = (r, d', st')"
    "ticket_granted api ttl fresh token iid d = None"
  shows "d' = d \<and> st' = st"
  using assms ticket_request [of api ttl fresh token iid d st] by simp

lemma ticket_refused_error:
  assumes "console_request (issue_console_ticket api ttl fresh token iid) d st = (r, d', st')"
    "ticket_granted api ttl fresh token iid d = None"
  shows "r \<noteq> Inr a"
  using assms get_current_user_run
  by (cases "inst_at d iid")
    (fastforce simp: console_request_def issue_console_ticket_def in_session_def in_tickets_def authorized_def
      bindM_def db_op_def liftM_def require_roles_def ticket_granted_def get_instance_query_def
      instance_read_get_None open_session_def ensure_instance_access_def guardM_def
      split: prod.splits sum.splits if_splits option.splits)+

text \<open>A ticket is handed out only to an active operator or administrator, for a running instance
  that is his tenant's (or any, for an administrator); it is on record in the audit trail, and
  presented in time it opens the console of that instance and of no other.  A refused request
  leaves the database alone.\<close>

theorem console_ticket_outcome:
  "case console_request (issue_console_ticket api ttl fresh token iid) d st of (r, d', st') \<Rightarrow>
     case r of
       Inl e \<Rightarrow> d' = d
     | Inr resp \<Rightarrow> \<exists>u i. may_console api token iid d u i \<and> ct_ticket resp = fresh \<and>
         ct_expires_at resp = ticket_expiry (ae_now (api_audit api)) ttl \<and>
         logged ''instance.console.ticket_issued'' d d' \<and>
         (\<forall>now iid'. fst (consume_ticket now fresh iid' st') \<noteq> None \<longleftrightarrow> iid' = iid \<and> now < ct_expires_at resp)"
proof (cases "ticket_granted api ttl fresh token iid d")
  case None
  obtain r d' st' where run: "console_request (issue_console_ticket api ttl fresh token iid) d st = (r, d', st')"
    by (metis prod_cases3)
  obtain e where "r = Inl e" using ticket_refused_error [OF run None] by (cases r) auto
  then show ?thesis using ticket_request_refused [OF run None] by (simp add: run)
next
  case (Some ui)
  obtain u i where ui: "ui = (u, i)" by (cases ui)
  note ok = ticket_granted_may_console [OF Some [unfolded ui]]
  obtain tk st' where tk: "issue_ticket (ae_now (api_audit api)) fresh iid (usr_id u) ttl st = (tk, st')" by (rule prod.exhaust)
  have "tk = new_ticket (ae_now (api_audit api)) fresh iid (usr_id u) ttl"
    using issue_ticket_fst [of "ae_now (api_audit api)" fresh iid "usr_id u" ttl st] tk by simp
  then have sel: "tk_ticket tk = fresh" "tk_expires_at tk = ticket_expiry (ae_now (api_audit api)) ttl" by simp_all
  have redeem: "fst (consume_ticket now fresh iid' st') \<noteq> None \<longleftrightarrow> iid' = iid \<and> now < tk_expires_at tk" for now iid'
    using consume_issued [of now fresh iid' "ae_now (api_audit api)" iid "usr_id u" ttl st] by (simp add: tk sel)
  obtain w d' where w: "audit_write (api_audit api) (ticket_entry api iid u i tk) d = (w, d')" by (rule prod.exhaust)
  have action: "en_action (ticket_entry api iid u i tk) = ''instance.console.ticket_issued''"
    by (simp add: ticket_entry_def request_entry_def entry_def)
  show ?thesis
    using ok audit_write_logged [of "api_audit api" "ticket_entry api iid u i tk" d] redeem
    by (cases w) (auto simp: ticket_request [of api ttl fresh token iid d st] Some ui tk w ticket_answer_def sel action)
qed

section \<open>Consoles over the life of the application\<close>

text \<open>What the clients do, in the order the store sees it; the database a ticket request finds is
  arbitrary, other requests may have run in between.\<close>

datatype console_event =
    Ask api_env int string string uuid db
  | Connect console_config "string \<Rightarrow> int \<Rightarrow> bool" timestamp "string option" uuid string

fun console_step :: "console_event \<Rightarrow> ticket_store \<Rightarrow> ticket_store" where
  "console_step (Ask api ttl fresh token iid d) st =
     snd (snd (console_request (issue_console_ticket api ttl fresh token iid) d st))"
| "console_step (Connect cfg connects now header iid t) st =
     snd (proxy_instance_console cfg connects now header iid t st)"

definition tickets_after :: "console_event list \<Rightarrow> ticket_store" where
  "tickets_after es = fold console_step es no_tickets"

fun presents :: "string \<Rightarrow> uuid \<Rightarrow> console_event \<Rightarrow> bool" where
  "presents t iid (Connect _ _ _ _ iid' t') = (t' = t \<and> iid' = iid)"
| "presents t iid (Ask _ _ _ _ _ _) = False"

fun store_calls :: "console_event \<Rightarrow> ticket_call list" where
  "store_calls (Ask api ttl fresh token iid d) =
     (case ticket_granted api ttl fresh token iid d of
        None \<Rightarrow> [] | Some (u, i) \<Rightarrow> [Issue (ae_now (api_audit api)) fresh iid (usr_id u) ttl])"
| "store_calls (Connect cfg connects now header iid t) = (if length t < 8 then [] else [Consume now t iid])"

lemma console_step_calls: "console_step e st = fold ticket_step (store_calls e) st"
proof (cases e)
  case (Ask api ttl fresh token iid d)
  then show ?thesis by (auto simp: ticket_request_store simp del: ticket_step.simps split: option.splits)
next
  case (Connect cfg connects now header iid t)
  then show ?thesis by (auto simp: proxy_instance_console_def Let_def split: prod.splits option.splits)
qed

lemma tickets_after_calls: "tickets_after es = store_after (concat (map store_calls es))"
proof -
  have "fold console_step es st = fold ticket_step (concat (map store_calls es)) st" for st
    by (induction es arbitrary: st) (simp_all add: console_step_calls)
  then show ?thesis by (simp add: tickets_after_def store_after_def)
qed

lemma store_calls_at_most_one: "length (store_calls e) \<le> 1"
  by (cases e) (auto split: option.splits)

text \<open>A call in the history comes from one event.\<close>

lemma concat_split:
  assumes "\<And>x. length (f x) \<le> 1" "concat (map f xs) = before @ c # since"
  shows "\<exists>xs1 x xs2. xs = xs1 @ x # xs2 \<and> f x = [c] \<and> concat (map f xs2) = since"
  using assms(2)
proof (induction xs arbitrary: before)
  case (Cons x xs)
  show ?case
  proof (cases "f x")
    case Nil
    then obtain xs1 y xs2 where "xs = xs1 @ y # xs2" "f y = [c]" "concat (map f xs2) = since"
      using Cons by auto
    then show ?thesis by (intro exI [of _ "x # xs1"]) auto
  next
    case (Cons a as)
    then have a: "f x = [a]" using assms(1) [of x] by auto
    show ?thesis
    proof (cases before)
      case Nil
      then show ?thesis using Cons.prems a by (intro exI [of _ "[]"]) auto
    next
      case (Cons b bs)
      then obtain xs1 y xs2 where "xs = xs1 @ y # xs2" "f y = [c]" "concat (map f xs2) = since"
        using Cons.IH [of bs] \<open>concat (map f (x # xs)) = before @ c # since\<close> a by auto
      then show ?thesis by (intro exI [of _ "x # xs1"]) auto
    qed
  qed
qed simp

lemma proxy_accepts:
  assumes "fst (proxy_instance_console cfg connects now header iid t st) = Console_accepted sub host port"
  shows "8 \<le> length t \<and> fst (consume_ticket now t iid st) \<noteq> None \<and> host = cc_proxy_host cfg \<and>
    port = compute_console_vnc_port (uuid_str iid) (cc_port_base cfg) (cc_port_span cfg)"
  using assms by (auto simp: proxy_instance_console_def Let_def split: if_splits prod.splits option.splits)

text \<open>C34: whatever ticket requests and connections, well or ill meant, come in whatever order, a
  console of an instance opens only with a ticket that an earlier request was given for that
  instance by a user allowed to use it at that time, before the ticket expires, and at the first
  connection that presents it there.\<close>

theorem console_needs_ticket:
  assumes "fst (proxy_instance_console cfg connects now header iid t (tickets_after es)) = Console_accepted sub host port"
  shows "\<exists>earlier api ttl token d later u i. es = earlier @ Ask api ttl t token iid d # later \<and>
    may_console api token iid d u i \<and> now < ticket_expiry (ae_now (api_audit api)) ttl \<and>
    (\<forall>e \<in> set later. \<not> presents t iid e) \<and>
    port = compute_console_vnc_port (uuid_str iid) (cc_port_base cfg) (cc_port_span cfg)"
proof -
  have ok: "8 \<le> length t" "fst (consume_ticket now t iid (tickets_after es)) \<noteq> None"
    "port = compute_console_vnc_port (uuid_str iid) (cc_port_base cfg) (cc_port_span cfg)"
    using proxy_accepts [OF assms] by auto
  obtain before issued uid ttl since where h: "concat (map store_calls es) = before @ Issue issued t iid uid ttl # since"
    "now < ticket_expiry issued ttl" "\<forall>c \<in> set since. spares t iid (ticket_expiry issued ttl) c"
    using ok(2) [unfolded tickets_after_calls redeemable_iff] by (elim exE conjE) (rule that)
  obtain es1 e es2 where e: "es = es1 @ e # es2" "store_calls e = [Issue issued t iid uid ttl]"
    "concat (map store_calls es2) = since"
    using concat_split [OF store_calls_at_most_one h(1)] by blast
  then obtain api token d u i where ask: "e = Ask api ttl t token iid d" "issued = ae_now (api_audit api)"
    "ticket_granted api ttl t token iid d = Some (u, i)"
    by (cases e) (auto split: option.splits if_splits)
  have "\<not> presents t iid e'" if "e' \<in> set es2" for e'
  proof
    assume "presents t iid e'"
    then obtain now' where "Consume now' t iid \<in> set (store_calls e')" using ok(1) by (cases e') auto
    then have "Consume now' t iid \<in> set since" using that e(3) by auto
    then show False using h(3) by (auto simp: spares_def)
  qed
  then have later: "\<forall>e' \<in> set es2. \<not> presents t iid e'" by blast
  have "es = es1 @ Ask api ttl t token iid d # es2" "may_console api token iid d u i"
    "now < ticket_expiry (ae_now (api_audit api)) ttl"
    using e(1) ask h(2) ticket_granted_may_console [OF ask(3)] by simp_all
  then show ?thesis using later ok(3) by (intro exI conjI)
qed

text \<open>The operator of the sample asks for a ticket of his running instance and connects with it.\<close>

lemma sample_granted:
  "ticket_granted sample_api 300 ''one-time-secret'' sample_bearer 22 sample_vms_db =
     Some (sample_operator, to_instance (sample_vm 22 2))"
proof -
  have "admitted sample_api sample_bearer [operator] sample_vms_db sample_operator"
    by (rule sample_admitted)
      (simp_all add: sample_vms_db_def sample_users_db_def user_at_def sample_admin_def sample_operator_def)
  moreover have "inst_at sample_vms_db 22 = Some (to_instance (sample_vm 22 2))"
    by (simp add: inst_at_def sample_vms_db_def sample_vm_def)
  ultimately show ?thesis
    by (simp add: ticket_granted_def admitted_def) (simp add: sample_operator_def sample_vm_def to_instance_def)
qed

theorem console_needs_ticket_witness:
  "let es = [Ask sample_api 300 ''one-time-secret'' sample_bearer 22 sample_vms_db];
       cfg = \<lparr>cc_proxy_host = ''vnc'', cc_port_base = 20000, cc_port_span = 40000\<rparr>;
       answer = proxy_instance_console cfg (\<lambda>_ _. True) 6000 (Some ''base64, Binary'') 22 ''one-time-secret'' (tickets_after es)
   in fst answer = Console_accepted (Some ''binary'') ''vnc'' (compute_console_vnc_port (uuid_str 22) 20000 40000) \<and>
      (\<exists>earlier api ttl token d later u i. es = earlier @ Ask api ttl ''one-time-secret'' token 22 d # later \<and>
         may_console api token 22 d u i \<and> 6000 < ticket_expiry (ae_now (api_audit api)) ttl)"
proof -
  let ?es = "[Ask sample_api 300 ''one-time-secret'' sample_bearer 22 sample_vms_db]"
  let ?cfg = "\<lparr>cc_proxy_host = ''vnc'', cc_port_base = 20000, cc_port_span = 40000\<rparr>"
  have now: "ae_now (api_audit sample_api) = 5000" by (simp add: sample_api_def sample_env_def)
  have binary: "''binary'' \<in> set (requested_subprotocols (Some ''base64, Binary''))" by code_simp
  have st: "tickets_after ?es = store_after [Issue 5000 ''one-time-secret'' 22 (usr_id sample_operator) 300]"
    by (simp add: tickets_after_calls sample_granted now)
  have "fst (consume_ticket 6000 ''one-time-secret'' 22 (tickets_after ?es)) \<noteq> None"
    unfolding st by code_simp
  then obtain r st' where "consume_ticket 6000 ''one-time-secret'' 22 (tickets_after ?es) = (Some r, st')"
    by (cases "consume_ticket 6000 ''one-time-secret'' 22 (tickets_after ?es)") auto
  then have opened: "fst (proxy_instance_console ?cfg (\<lambda>_ _. True) 6000 (Some ''base64, Binary'') 22 ''one-time-secret'' (tickets_after ?es))
      = Console_accepted (Some ''binary'') ''vnc'' (compute_console_vnc_port (uuid_str 22) 20000 40000)"
    by (simp add: proxy_instance_console_def binary)
  show ?thesis using opened console_needs_ticket [OF opened] by (simp only: Let_def) blast
qed

end
