(* ===== verification/Image_Catalog.thy ===== *)
theory Image_Catalog
  imports Security
begin

text \<open>
  The catalog of VM images (\<^verbatim>\<open>services/vm_image_catalog.py\<close>), read from a setting when
  the service starts.  \<^verbatim>\<open>json.loads\<close>, the text of a float and the check of the host part of
  a URL (\<^verbatim>\<open>urllib\<close>'s bracket and normalization rules) are parameters.
\<close>

section \<open>Python text\<close>

definition py_lower_char :: "char \<Rightarrow> char" where
  "py_lower_char c = (let n = of_char c :: nat in
     if 65 \<le> n \<and> n \<le> 90 \<or> 192 \<le> n \<and> n \<le> 222 \<and> n \<noteq> 215 then char_of (n + 32) else c)"

definition py_lower :: "string \<Rightarrow> string" where
  "py_lower = map py_lower_char"

definition repr_char :: "char \<Rightarrow> char \<Rightarrow> string" where
  "repr_char quote c = (let n = of_char c :: nat in
     if c = quote \<or> n = 92 then [char_of (92 :: nat), c]
     else if n = 9 then [char_of (92 :: nat), CHR ''t'']
     else if n = 10 then [char_of (92 :: nat), CHR ''n'']
     else if n = 13 then [char_of (92 :: nat), CHR ''r'']
     else if n < 32 \<or> 127 \<le> n \<and> n \<le> 160 \<or> n = 173
       then [char_of (92 :: nat), CHR ''x'', hex_digit (n div 16), hex_digit (n mod 16)]
     else [c])"

definition repr_str :: "string \<Rightarrow> string" where
  "repr_str s = (let apostrophe = char_of (39 :: nat); quotation = char_of (34 :: nat);
     quote = (if apostrophe \<in> set s \<and> quotation \<notin> set s then quotation else apostrophe)
   in [quote] @ concat (map (repr_char quote) s) @ [quote])"

fun commas :: "string list \<Rightarrow> string" where
  "commas [] = []"
| "commas [s] = s"
| "commas (s # t # ss) = s @ '', '' @ commas (t # ss)"

text \<open>\<^verbatim>\<open>repr(v)\<close>, and \<^verbatim>\<open>str(v)\<close>, which differs on strings only.\<close>

fun py_repr :: "(rat \<Rightarrow> string) \<Rightarrow> json \<Rightarrow> string"
  and repr_items :: "(rat \<Rightarrow> string) \<Rightarrow> json list \<Rightarrow> string list"
  and repr_pairs :: "(rat \<Rightarrow> string) \<Rightarrow> (string \<times> json) list \<Rightarrow> string list" where
  "py_repr ft JNull = ''None''"
| "py_repr ft (JBool b) = (if b then ''True'' else ''False'')"
| "py_repr ft (JInt n) = int_str n"
| "py_repr ft (JFloat q) = ft q"
| "py_repr ft (JStr s) = repr_str s"
| "py_repr ft (JList vs) = ''['' @ commas (repr_items ft vs) @ '']''"
| "py_repr ft (JObj d) = ''{'' @ commas (repr_pairs ft d) @ ''}''"
| "repr_items ft [] = []"
| "repr_items ft (v # vs) = py_repr ft v # repr_items ft vs"
| "repr_pairs ft [] = []"
| "repr_pairs ft (kv # d) = (repr_str (fst kv) @ '': '' @ py_repr ft (snd kv)) # repr_pairs ft d"

definition py_str :: "(rat \<Rightarrow> string) \<Rightarrow> json \<Rightarrow> string" where
  "py_str ft v = (case v of JStr s \<Rightarrow> s | _ \<Rightarrow> py_repr ft v)"

section \<open>Patterns and URLs\<close>

definition lower_or_digit :: "char \<Rightarrow> bool" where
  "lower_or_digit c \<longleftrightarrow> (let n = of_char c :: nat in 97 \<le> n \<and> n \<le> 122 \<or> 48 \<le> n \<and> n \<le> 57)"

text \<open>\<^verbatim>\<open>^[a-z0-9][a-z0-9._-]{0,63}$\<close> and \<^verbatim>\<open>^[a-f0-9]{64}$\<close>, for text without a newline at its end.\<close>

definition image_id_ok :: "string \<Rightarrow> bool" where
  "image_id_ok s \<longleftrightarrow> s \<noteq> [] \<and> length s \<le> 64 \<and> lower_or_digit (hd s) \<and>
     (\<forall>c \<in> set s. lower_or_digit c \<or> c \<in> {CHR ''.'', CHR ''_'', CHR ''-''})"

definition sha256_ok :: "string \<Rightarrow> bool" where
  "sha256_ok s \<longleftrightarrow> length s = 64 \<and>
     (\<forall>c \<in> set s. lower_or_digit c \<and> (of_char c :: nat) \<le> 102)"

definition ascii_letter :: "char \<Rightarrow> bool" where
  "ascii_letter c \<longleftrightarrow> (let n = of_char c :: nat in 65 \<le> n \<and> n \<le> 90 \<or> 97 \<le> n \<and> n \<le> 122)"

definition scheme_char :: "char \<Rightarrow> bool" where
  "scheme_char c \<longleftrightarrow> ascii_letter c \<or> digit_val c \<noteq> None \<or> c \<in> {CHR ''+'', CHR ''-'', CHR ''.''}"

text \<open>\<^verbatim>\<open>urlparse(url)\<close>: scheme and network location.\<close>

definition urlparse :: "(string \<Rightarrow> bool) \<Rightarrow> string \<Rightarrow> error + string \<times> string" where
  "urlparse netloc_ok url =
     (let url = filter (\<lambda>c. c \<notin> {CHR 0x09, CHR 0x0A, CHR 0x0D})
            (dropWhile (\<lambda>c. (of_char c :: nat) \<le> 32) url);
          before = takeWhile (\<lambda>c. c \<noteq> CHR '':'') url;
          has_scheme = CHR '':'' \<in> set url \<and> before \<noteq> [] \<and> ascii_letter (hd before) \<and> list_all scheme_char before;
          scheme = (if has_scheme then py_lower before else []);
          rest = (if has_scheme then drop (length before + 1) url else url);
          netloc = (if take 2 rest = ''//''
            then takeWhile (\<lambda>c. c \<notin> {CHR ''/'', CHR ''?'', CHR ''#''}) (drop 2 rest) else [])
      in if netloc = [] \<or> netloc_ok netloc then Inr (scheme, netloc) else Inl (ValueError ''invalid network location''))"

section \<open>Loading the catalog\<close>

record catalog_settings =
  cs_catalog_json :: string
  cs_default_id :: string
  cs_base_image_url :: string
  cs_allow_no_checksum :: bool

record vm_image_entry =
  img_id :: string
  img_url :: string
  img_sha256 :: "string option"
  img_format :: string
  img_description :: "string option"

record vm_image_catalog =
  cat_entries :: "vm_image_entry list"
  cat_default_id :: string

record python_lib =
  pl_json_loads :: "string \<Rightarrow> json option"
  pl_float_text :: "rat \<Rightarrow> string"
  pl_netloc_ok :: "string \<Rightarrow> bool"

record catalog_state =
  by_id :: "(string \<times> vm_image_entry) list"
  ordered_ids :: "string list"
  default_candidates :: "string list"

definition builtin_entries :: "string \<Rightarrow> json list" where
  "builtin_entries base_image_url =
     [JObj [(''id'', JStr ''ubuntu-24.04''), (''url'', JStr base_image_url), (''format'', JStr ''qcow2''),
        (''is_default'', JBool True)],
      JObj [(''id'', JStr ''ubuntu-22.04''),
        (''url'', JStr ''https://cloud-images.ubuntu.com/jammy/current/jammy-server-cloudimg-amd64.img''),
        (''format'', JStr ''qcow2''), (''is_default'', JBool False)]]"

definition text_or_none :: "string \<Rightarrow> string option" where
  "text_or_none s = (if s = [] then None else Some s)"

definition load_entry ::
  "python_lib \<Rightarrow> bool \<Rightarrow> bool \<Rightarrow> json \<Rightarrow> catalog_state \<Rightarrow> error + catalog_state" where
  "load_entry lib configured allow_no_checksum raw s =
     (case raw of
        JObj d \<Rightarrow>
          (let field = (\<lambda>k. py_strip (py_str (pl_float_text lib) (dget_default d k (JStr []))));
               image_id = field ''id'' in
           if \<not> image_id_ok image_id then Inl (ValueError (''invalid image id: '' @ image_id))
           else if map_of (by_id s) image_id \<noteq> None then Inl (ValueError (''duplicate image id: '' @ image_id))
           else let image_url = field ''url'' in
           case urlparse (pl_netloc_ok lib) image_url of
             Inl e \<Rightarrow> Inl e
           | Inr (scheme, netloc) \<Rightarrow>
           if scheme \<notin> {''http'', ''https''} \<or> netloc = [] then Inl (ValueError (''invalid image url for '' @ image_id))
           else let lowered = py_lower (py_strip (py_str (pl_float_text lib) (dget_default d ''format'' (JStr ''qcow2''))));
                    image_format = (if lowered = [] then ''qcow2'' else lowered) in
           if image_format \<noteq> ''qcow2''
           then Inl (ValueError (''unsupported image format for '' @ image_id @ '': '' @ image_format))
           else let sha256_value = text_or_none (py_lower (field ''sha256'')) in
           if sha256_value = None \<and> configured \<and> \<not> allow_no_checksum
           then Inl (ValueError (''sha256 is required for image '' @ image_id))
           else if \<not> (case sha256_value of None \<Rightarrow> True | Some h \<Rightarrow> sha256_ok h)
           then Inl (ValueError (''invalid sha256 for image '' @ image_id))
           else let e = \<lparr>img_id = image_id, img_url = image_url, img_sha256 = sha256_value,
                    img_format = image_format, img_description = text_or_none (field ''description'')\<rparr>;
                    s1 = s\<lparr>by_id := by_id s @ [(image_id, e)], ordered_ids := ordered_ids s @ [image_id]\<rparr> in
           case dget_default d ''is_default'' (JBool False) of
             JBool b \<Rightarrow> Inr (if b then s1\<lparr>default_candidates := default_candidates s @ [image_id]\<rparr> else s1)
           | _ \<Rightarrow> Inl (ValueError (''is_default must be boolean for '' @ image_id)))
      | _ \<Rightarrow> Inl (ValueError ''image catalog entry must be an object''))"

fun load_entries ::
  "python_lib \<Rightarrow> bool \<Rightarrow> bool \<Rightarrow> json list \<Rightarrow> catalog_state \<Rightarrow> error + catalog_state" where
  "load_entries lib configured allow [] s = Inr s"
| "load_entries lib configured allow (raw # rest) s =
     (case load_entry lib configured allow raw s of
        Inl e \<Rightarrow> Inl e
      | Inr s' \<Rightarrow> load_entries lib configured allow rest s')"

definition choose_default :: "string \<Rightarrow> catalog_state \<Rightarrow> error + string" where
  "choose_default default_id s =
     (if default_id \<noteq> [] then
        (if map_of (by_id s) default_id = None then Inl (ValueError (''VM_IMAGE_DEFAULT_ID not found: '' @ default_id))
         else Inr default_id)
      else if length (default_candidates s) > 1 then Inl (ValueError ''multiple default images configured'')
      else case default_candidates s of
        k # _ \<Rightarrow> Inr k
      | [] \<Rightarrow> (case ordered_ids s of [k] \<Rightarrow> Inr k | _ \<Rightarrow> Inl (ValueError ''no default image configured'')))"

text \<open>Every ordered identifier is in \<open>by_id\<close>, so looking them up drops nothing.\<close>

definition load_vm_image_catalog :: "python_lib \<Rightarrow> catalog_settings \<Rightarrow> error + vm_image_catalog" where
  "load_vm_image_catalog lib st =
     (let configured = (py_strip (cs_catalog_json st) \<noteq> []) in
      case (if configured then pl_json_loads lib (cs_catalog_json st)
            else Some (JList (builtin_entries (cs_base_image_url st)))) of
        None \<Rightarrow> Inl (ValueError ''invalid VM_IMAGE_CATALOG_JSON'')
      | Some raw_entries \<Rightarrow>
      case raw_entries of
        JList (raw # rest) \<Rightarrow>
          (case load_entries lib configured (cs_allow_no_checksum st) (raw # rest)
                  \<lparr>by_id = [], ordered_ids = [], default_candidates = []\<rparr> of
             Inl e \<Rightarrow> Inl e
           | Inr s \<Rightarrow>
             (case choose_default (py_strip (cs_default_id st)) s of
                Inl e \<Rightarrow> Inl e
              | Inr k \<Rightarrow> Inr \<lparr>cat_entries = List.map_filter (map_of (by_id s)) (ordered_ids s), cat_default_id = k\<rparr>))
      | _ \<Rightarrow> Inl (ValueError ''image catalog must be a non-empty list''))"

section \<open>What a catalog guarantees\<close>

definition entry_ok :: "python_lib \<Rightarrow> bool \<Rightarrow> bool \<Rightarrow> vm_image_entry \<Rightarrow> bool" where
  "entry_ok lib configured allow e \<longleftrightarrow> image_id_ok (img_id e) \<and> img_format e = ''qcow2'' \<and>
     (\<exists>scheme netloc. urlparse (pl_netloc_ok lib) (img_url e) = Inr (scheme, netloc) \<and>
        scheme \<in> {''http'', ''https''} \<and> netloc \<noteq> []) \<and>
     (case img_sha256 e of None \<Rightarrow> \<not> configured \<or> allow | Some h \<Rightarrow> sha256_ok h) \<and>
     img_description e \<noteq> Some []"

definition loaded_ok :: "python_lib \<Rightarrow> bool \<Rightarrow> bool \<Rightarrow> catalog_state \<Rightarrow> bool" where
  "loaded_ok lib configured allow s \<longleftrightarrow> map fst (by_id s) = ordered_ids s \<and> distinct (ordered_ids s) \<and>
     (\<forall>(k, e) \<in> set (by_id s). img_id e = k \<and> entry_ok lib configured allow e) \<and>
     set (default_candidates s) \<subseteq> set (ordered_ids s)"

definition only_value_error :: "error + 'a \<Rightarrow> bool" where
  "only_value_error r \<longleftrightarrow> (case r of Inl e \<Rightarrow> (\<exists>m. e = ValueError m) | Inr _ \<Rightarrow> True)"

lemma urlparse_error: "urlparse ok url = Inl e \<Longrightarrow> \<exists>m. e = ValueError m"
  unfolding urlparse_def Let_def by (auto split: if_splits)

lemma only_value_error_simps [simp]:
  "only_value_error (Inl (ValueError m))" "only_value_error (Inr a)"
  "only_value_error (Inl e) \<longleftrightarrow> (\<exists>m. e = ValueError m)"
  by (simp_all add: only_value_error_def)

lemma load_entry_errors: "only_value_error (load_entry lib configured allow raw s)"
proof (cases raw)
  case (JObj d)
  define field where "field k = py_strip (py_str (pl_float_text lib) (dget_default d k (JStr [])))" for k
  show ?thesis
  proof (cases "urlparse (pl_netloc_ok lib) (field ''url'')")
    case (Inl e)
    then obtain m where "e = ValueError m" using urlparse_error by blast
    with Inl show ?thesis unfolding JObj load_entry_def Let_def json.case field_def [symmetric] by simp
  next
    case (Inr r)
    then show ?thesis unfolding JObj load_entry_def Let_def json.case field_def [symmetric]
      by (simp split: prod.split json.split)
  qed
qed (simp_all add: load_entry_def)

lemma load_entry_ok:
  assumes "load_entry lib configured allow raw s = Inr s'" "loaded_ok lib configured allow s"
  shows "loaded_ok lib configured allow s' \<and> length (ordered_ids s') = Suc (length (ordered_ids s))"
proof -
  obtain d where d: "raw = JObj d" using assms(1) by (cases raw) (simp_all add: load_entry_def)
  define field where "field k = py_strip (py_str (pl_float_text lib) (dget_default d k (JStr [])))" for k
  define lowered where "lowered = py_lower (py_strip (py_str (pl_float_text lib) (dget_default d ''format'' (JStr ''qcow2''))))"
  define e where "e = \<lparr>img_id = field ''id'', img_url = field ''url'', img_sha256 = text_or_none (py_lower (field ''sha256'')),
     img_format = ''qcow2'', img_description = text_or_none (field ''description'')\<rparr>"
  obtain r where url: "urlparse (pl_netloc_ok lib) (field ''url'') = r" by simp
  have "image_id_ok (field ''id'') \<and> map_of (by_id s) (field ''id'') = None \<and>
    (\<exists>scheme netloc. r = Inr (scheme, netloc) \<and> scheme \<in> {''http'', ''https''} \<and> netloc \<noteq> []) \<and>
    (img_sha256 e = None \<longrightarrow> \<not> configured \<or> allow) \<and>
    (case img_sha256 e of None \<Rightarrow> True | Some h \<Rightarrow> sha256_ok h) \<and>
    by_id s' = by_id s @ [(field ''id'', e)] \<and> ordered_ids s' = ordered_ids s @ [field ''id''] \<and>
    (default_candidates s' = default_candidates s \<or> default_candidates s' = default_candidates s @ [field ''id''])"
    using assms(1) unfolding d load_entry_def Let_def json.case field_def [symmetric] lowered_def [symmetric] url
    by (auto simp: e_def split: if_split_asm sum.split_asm prod.split_asm option.split_asm json.split_asm)
  then have new: "image_id_ok (field ''id'')" "map_of (by_id s) (field ''id'') = None"
    "\<exists>scheme netloc. urlparse (pl_netloc_ok lib) (field ''url'') = Inr (scheme, netloc) \<and>
       scheme \<in> {''http'', ''https''} \<and> netloc \<noteq> []"
    "case img_sha256 e of None \<Rightarrow> \<not> configured \<or> allow | Some h \<Rightarrow> sha256_ok h"
    "by_id s' = by_id s @ [(field ''id'', e)]" "ordered_ids s' = ordered_ids s @ [field ''id'']"
    "set (default_candidates s') \<subseteq> set (default_candidates s) \<union> {field ''id''}"
    unfolding url by (auto split: option.splits)
  have e: "img_id e = field ''id''" "img_url e = field ''url''" "img_format e = ''qcow2''" "img_description e \<noteq> Some []"
    by (simp_all add: e_def text_or_none_def)
  have "entry_ok lib configured allow e" unfolding entry_ok_def e using new e by blast
  moreover have "field ''id'' \<notin> set (ordered_ids s)"
    using new(2) assms(2) unfolding loaded_ok_def by (metis map_of_eq_None_iff set_map)
  ultimately show ?thesis using assms(2) new(5-7) e(1) by (auto simp: loaded_ok_def)
qed

lemma load_entries_errors: "only_value_error (load_entries lib configured allow raws s)"
proof (induction raws arbitrary: s)
  case (Cons raw raws)
  then show ?case using load_entry_errors [of lib configured allow raw s]
    by (cases "load_entry lib configured allow raw s") simp_all
qed simp

lemma load_entries_ok:
  assumes "load_entries lib configured allow raws s = Inr s'" "loaded_ok lib configured allow s"
  shows "loaded_ok lib configured allow s' \<and> length (ordered_ids s') = length (ordered_ids s) + length raws"
  using assms
proof (induction raws arbitrary: s)
  case (Cons raw raws)
  then obtain s1 where s1: "load_entry lib configured allow raw s = Inr s1"
    "load_entries lib configured allow raws s1 = Inr s'" by (auto split: sum.splits)
  note one = load_entry_ok [OF s1(1) Cons.prems(2)]
  from Cons.IH [OF s1(2)] one show ?case by simp
qed simp

lemma choose_default_ok:
  "case choose_default k s of
     Inl e \<Rightarrow> \<exists>m. e = ValueError m
   | Inr d \<Rightarrow> (k \<noteq> [] \<and> d = k \<and> map_of (by_id s) k \<noteq> None) \<or> (k = [] \<and> default_candidates s = [d]) \<or>
       (k = [] \<and> default_candidates s = [] \<and> ordered_ids s = [d])"
  by (auto simp: choose_default_def split: list.splits)

lemma map_filter_all:
  "distinct (map fst xs) \<Longrightarrow> List.map_filter (map_of xs) (map fst xs) = map snd xs"
proof -
  assume "distinct (map fst xs)"
  then have "List.map_filter (map_of xs) (map fst ys) = map snd ys" if "set ys \<subseteq> set xs" for ys
    using that by (induction ys) (auto simp: List.map_filter_simps)
  then show ?thesis by blast
qed

lemma distinct_image_ex1:
  "distinct (map f xs) \<Longrightarrow> k \<in> set (map f xs) \<Longrightarrow> \<exists>!x. x \<in> set xs \<and> f x = k"
  by (auto simp: distinct_map dest: inj_onD)

text \<open>The two ways a load ends.\<close>

lemma load_catalog_error:
  assumes "load_vm_image_catalog lib st = Inl e"
  shows "\<exists>m. e = ValueError m"
proof -
  have dflt: "choose_default k s = Inl e' \<Longrightarrow> \<exists>m. e' = ValueError m" for k s e'
    using choose_default_ok [of k s] by simp
  have "load_entries lib configured allow raws s = Inl e' \<Longrightarrow> \<exists>m. e' = ValueError m" for configured allow raws s e'
    using load_entries_errors [of lib configured allow raws s] by simp
  then show ?thesis using assms dflt unfolding load_vm_image_catalog_def Let_def
    by (auto simp del: load_entries.simps split: option.splits json.splits list.splits sum.splits; metis)
qed

lemma load_catalog_ok:
  assumes "load_vm_image_catalog lib st = Inr cat"
  obtains s where "loaded_ok lib (py_strip (cs_catalog_json st) \<noteq> []) (cs_allow_no_checksum st) s"
    "choose_default (py_strip (cs_default_id st)) s = Inr (cat_default_id cat)"
    "cat_entries cat = List.map_filter (map_of (by_id s)) (ordered_ids s)"
proof -
  have empty: "loaded_ok lib configured allow \<lparr>by_id = [], ordered_ids = [], default_candidates = []\<rparr>" for configured allow
    by (simp add: loaded_ok_def)
  obtain raws s where "load_entries lib (py_strip (cs_catalog_json st) \<noteq> []) (cs_allow_no_checksum st) raws
      \<lparr>by_id = [], ordered_ids = [], default_candidates = []\<rparr> = Inr s"
    "choose_default (py_strip (cs_default_id st)) s = Inr (cat_default_id cat)"
    "cat_entries cat = List.map_filter (map_of (by_id s)) (ordered_ids s)"
    using assms unfolding load_vm_image_catalog_def Let_def
    by (auto split: option.splits json.splits list.splits sum.splits simp del: load_entries.simps)
  then show ?thesis using that load_entries_ok [OF _ empty] by blast
qed

lemma loaded_catalog:
  assumes "loaded_ok lib configured allow s" "choose_default k s = Inr d"
  shows "List.map_filter (map_of (by_id s)) (ordered_ids s) = map snd (by_id s)"
    "map img_id (map snd (by_id s)) = ordered_ids s" "d \<in> set (ordered_ids s)" "k = [] \<or> d = k"
proof -
  have s: "map fst (by_id s) = ordered_ids s" "distinct (ordered_ids s)"
    "\<forall>(k, e) \<in> set (by_id s). img_id e = k \<and> entry_ok lib configured allow e"
    "set (default_candidates s) \<subseteq> set (ordered_ids s)" using assms(1) by (auto simp: loaded_ok_def)
  show "List.map_filter (map_of (by_id s)) (ordered_ids s) = map snd (by_id s)"
    using map_filter_all [of "by_id s"] s(1,2) by simp
  have "img_id (snd p) = fst p" if "p \<in> set (by_id s)" for p using s(3) that by (cases p) auto
  then have "map (\<lambda>p. img_id (snd p)) (by_id s) = map fst (by_id s)" by (rule map_cong [OF refl])
  then show "map img_id (map snd (by_id s)) = ordered_ids s" by (simp add: s(1) comp_def)
  have known: "map_of (by_id s) i \<noteq> None \<longleftrightarrow> i \<in> set (ordered_ids s)" for i
    by (simp only: s(1) [symmetric] map_of_eq_None_iff set_map not_not)
  show "d \<in> set (ordered_ids s)" "k = [] \<or> d = k"
    using choose_default_ok [of k s] s(4) known unfolding assms(2) by auto
qed

text \<open>C38: loading the image catalog either fails with a \<^verbatim>\<open>ValueError\<close> or gives a catalog whose
  entries have distinct, well-formed identifiers, http or https URLs with a host, the supported
  format, a well-formed checksum (which a configured catalog may omit only when that is allowed),
  and exactly one of which is the default: the configured one if one is configured.\<close>

theorem catalog_well_formed:
  "case load_vm_image_catalog lib st of
     Inl e \<Rightarrow> \<exists>m. e = ValueError m
   | Inr cat \<Rightarrow>
       distinct (map img_id (cat_entries cat)) \<and>
       (\<forall>e \<in> set (cat_entries cat). entry_ok lib (py_strip (cs_catalog_json st) \<noteq> []) (cs_allow_no_checksum st) e) \<and>
       (\<exists>!e. e \<in> set (cat_entries cat) \<and> img_id e = cat_default_id cat) \<and>
       (py_strip (cs_default_id st) = [] \<or> cat_default_id cat = py_strip (cs_default_id st))"
proof (cases "load_vm_image_catalog lib st")
  case (Inl e)
  then show ?thesis using load_catalog_error by simp
next
  case (Inr cat)
  then obtain s where s: "loaded_ok lib (py_strip (cs_catalog_json st) \<noteq> []) (cs_allow_no_checksum st) s"
    "choose_default (py_strip (cs_default_id st)) s = Inr (cat_default_id cat)"
    "cat_entries cat = List.map_filter (map_of (by_id s)) (ordered_ids s)" by (rule load_catalog_ok)
  note l = loaded_catalog [OF s(1,2)]
  have entries: "cat_entries cat = map snd (by_id s)" using s(3) l(1) by simp
  have "distinct (map img_id (cat_entries cat))" using s(1) by (simp only: entries l(2) loaded_ok_def)
  moreover from this have "\<exists>!e. e \<in> set (cat_entries cat) \<and> img_id e = cat_default_id cat"
    by (rule distinct_image_ex1) (simp only: entries l(2,3))
  moreover have "\<forall>e \<in> set (cat_entries cat). entry_ok lib (py_strip (cs_catalog_json st) \<noteq> []) (cs_allow_no_checksum st) e"
    using s(1) by (auto simp: entries loaded_ok_def)
  ultimately show ?thesis using l(4) Inr by simp
qed

text \<open>The built-in catalog.\<close>

definition sample_lib :: python_lib where
  "sample_lib = \<lparr>pl_json_loads = \<lambda>_. None, pl_float_text = \<lambda>_. ''0.5'', pl_netloc_ok = \<lambda>_. True\<rparr>"

definition sample_catalog_settings :: catalog_settings where
  "sample_catalog_settings = \<lparr>cs_catalog_json = '' '', cs_default_id = [], cs_base_image_url = ''https://example.org/noble.img'',
     cs_allow_no_checksum = False\<rparr>"

theorem catalog_well_formed_witness:
  "case load_vm_image_catalog sample_lib sample_catalog_settings of
     Inl e \<Rightarrow> False
   | Inr cat \<Rightarrow> cat_default_id cat = ''ubuntu-24.04'' \<and> length (cat_entries cat) = 2 \<and> distinct (map img_id (cat_entries cat))"
proof -
  let ?r = "load_vm_image_catalog sample_lib sample_catalog_settings"
  have "case ?r of Inl e \<Rightarrow> False | Inr cat \<Rightarrow> cat_default_id cat = ''ubuntu-24.04'' \<and> length (cat_entries cat) = 2"
    by code_simp
  moreover have "case ?r of Inl e \<Rightarrow> True | Inr cat \<Rightarrow> distinct (map img_id (cat_entries cat))"
    using catalog_well_formed [of sample_lib sample_catalog_settings] by (simp split: sum.splits)
  ultimately show ?thesis by (simp split: sum.splits)
qed

end
