(* ===== verification/Api_Images.thy ===== *)
theory Api_Images
  imports Image_Catalog Api_Common
begin

text \<open>
  The image endpoints (\<^verbatim>\<open>api/routers/images.py\<close>) and the remote call behind the
  synchronization (\<^verbatim>\<open>adapters/rabbitmq_image_sync_rpc.py\<close>).  What the callback
  queue does is a parameter: whether the calls that enter and leave its iterator and close the
  connection raise, the replies, each with what settling it raises and the clock when it has been
  handled, and what comes after them: the iterator waits for ever, which is the value \<open>None\<close>,
  stops, as when the channel is closed, or raises.  \<^verbatim>\<open>json.loads\<close> of a body and the validation
  of a result against the response model are parameters.
\<close>

section \<open>Listing\<close>

record vm_image_response =
  vr_id :: string
  vr_url :: string
  vr_format :: string
  vr_is_default :: bool
  vr_has_checksum :: bool
  vr_description :: "string option"

definition to_image_response :: "vm_image_catalog \<Rightarrow> vm_image_entry \<Rightarrow> vm_image_response" where
  "to_image_response catalog e =
     \<lparr>vr_id = img_id e, vr_url = img_url e, vr_format = img_format e,
      vr_is_default = (img_id e = cat_default_id catalog),
      vr_has_checksum = (case img_sha256 e of None \<Rightarrow> False | Some h \<Rightarrow> h \<noteq> []),
      vr_description = img_description e\<rparr>"

definition list_images :: "api_env \<Rightarrow> vm_image_catalog \<Rightarrow> string \<Rightarrow> vm_image_response list sess_act" where
  "list_images api catalog token =
     authorized api token [viewer, operator, admin] (\<lambda>u.
     returnM (map (to_image_response catalog) (cat_entries catalog)))"

section \<open>The remote call\<close>

datatype sync_error = Vm_image_sync_error string string | Sync_raised error

record rpc_reply =
  rp_correlation_id :: "string option"
  rp_body :: string
  rp_settling :: "error option"
  rp_handled_at :: rat

datatype iteration_end = Iteration_waits | Iteration_stops | Iteration_raises error

record callback_queue =
  cq_enters :: "error option"
  cq_replies :: "rpc_reply list"
  cq_ends :: iteration_end
  cq_leaves :: "error option"
  cq_closes :: "error option"

datatype handling = Skip_message | Return_result dict | Raise_error sync_error | Fall_through

text \<open>
  The body of the loop inside \<^verbatim>\<open>async with incoming.process\<close>, whose exit acknowledges or
  rejects the message: what that raises takes the place of the outcome.
\<close>

definition handle_reply :: "python_lib \<Rightarrow> string \<Rightarrow> rpc_reply \<Rightarrow> handling" where
  "handle_reply lib correlation_id incoming =
     (case rp_settling incoming of
        Some e \<Rightarrow> Raise_error (Sync_raised e)
      | None \<Rightarrow>
      if rp_correlation_id incoming \<noteq> Some correlation_id then Skip_message
      else case pl_json_loads lib (rp_body incoming) of
        None \<Rightarrow> Raise_error (Sync_raised (ValueError ''JSONDecodeError''))
      | Some (JObj payload) \<Rightarrow>
          (if truthy (dget payload ''success'')
           then Return_result (case dget payload ''result'' of JObj d \<Rightarrow> d | _ \<Rightarrow> [])
           else Raise_error (Vm_image_sync_error
             (py_str (pl_float_text lib) (py_or (dget payload ''error_code'') (JStr ''QEMU_ERROR'')))
             (py_str (pl_float_text lib) (py_or (dget payload ''error_message'') (JStr ''image sync failed'')))))
      | Some _ \<Rightarrow> Raise_error (Sync_raised (AttributeError ''get'')))"

definition sync_timed_out :: sync_error where
  "sync_timed_out = Vm_image_sync_error ''TIMEOUT'' ''image sync command timed out''"

text \<open>After a \<^verbatim>\<open>break\<close> and after an iteration that stops comes the same \<^verbatim>\<open>raise\<close>.\<close>

fun await_reply ::
  "python_lib \<Rightarrow> string \<Rightarrow> rat \<Rightarrow> iteration_end \<Rightarrow> rpc_reply list \<Rightarrow> (sync_error + dict) option" where
  "await_reply lib correlation_id deadline ends [] =
     (case ends of
        Iteration_waits \<Rightarrow> None
      | Iteration_stops \<Rightarrow> Some (Inl sync_timed_out)
      | Iteration_raises e \<Rightarrow> Some (Inl (Sync_raised e)))"
| "await_reply lib correlation_id deadline ends (incoming # rest) =
     (case handle_reply lib correlation_id incoming of
        Skip_message \<Rightarrow> await_reply lib correlation_id deadline ends rest
      | Return_result d \<Rightarrow> Some (Inr d)
      | Raise_error e \<Rightarrow> Some (Inl e)
      | Fall_through \<Rightarrow>
          (if rp_handled_at incoming \<ge> deadline then Some (Inl sync_timed_out)
           else await_reply lib correlation_id deadline ends rest))"

text \<open>A call on the way out: what it raises takes the place of the outcome.\<close>

definition on_exit :: "error option \<Rightarrow> sync_error + dict \<Rightarrow> sync_error + dict" where
  "on_exit raised r = (case raised of Some e \<Rightarrow> Inl (Sync_raised e) | None \<Rightarrow> r)"

definition sync_images_rpc ::
  "python_lib \<Rightarrow> int \<Rightarrow> string \<Rightarrow> rat \<Rightarrow> callback_queue \<Rightarrow> (sync_error + dict) option" where
  "sync_images_rpc lib timeout_seconds correlation_id now q =
     map_option (on_exit (cq_closes q))
       (case cq_enters q of
          Some e \<Rightarrow> Some (Inl (Sync_raised e))
        | None \<Rightarrow> map_option (on_exit (cq_leaves q))
            (await_reply lib correlation_id (now + of_int (max timeout_seconds 1)) (cq_ends q) (cq_replies q)))"

section \<open>The endpoint\<close>

text \<open>\<^verbatim>\<open>HTTPException\<close> with a code and a message in its detail, or another exception.\<close>

datatype sync_answer =
    Sync_http int string string
  | Sync_internal error

definition sync_images_impl ::
  "(dict \<Rightarrow> error + 'r) \<Rightarrow> (sync_error + dict) option \<Rightarrow> (sync_answer + 'r) option" where
  "sync_images_impl model_validate called =
     (case called of
        None \<Rightarrow> None
      | Some (Inl (Vm_image_sync_error code message)) \<Rightarrow>
          Some (Inl (Sync_http (if code = ''VALIDATION_ERROR'' then 400 else if code = ''TIMEOUT'' then 504 else 502)
            code message))
      | Some (Inl (Sync_raised e)) \<Rightarrow> Some (Inl (Sync_internal e))
      | Some (Inr result) \<Rightarrow> Some (case model_validate result of Inl e \<Rightarrow> Inl (Sync_internal e) | Inr r \<Rightarrow> Inr r))"

definition sync_images ::
  "api_env \<Rightarrow> python_lib \<Rightarrow> (dict \<Rightarrow> error + 'r) \<Rightarrow> int \<Rightarrow> string \<Rightarrow> rat \<Rightarrow> callback_queue \<Rightarrow> string \<Rightarrow>
     (sync_answer + 'r) option sess_act" where
  "sync_images api lib model_validate timeout_seconds correlation_id now q token =
     authorized api token [admin] (\<lambda>u.
     returnM (sync_images_impl model_validate (sync_images_rpc lib timeout_seconds correlation_id now q)))"

section \<open>What the caller gets\<close>

text \<open>The listing marks one image as the default.\<close>

lemma listing_default:
  assumes "\<exists>!e. e \<in> set (cat_entries cat) \<and> img_id e = cat_default_id cat"
  shows "\<exists>!r. r \<in> set (map (to_image_response cat) (cat_entries cat)) \<and> vr_is_default r"
proof -
  obtain e where e: "e \<in> set (cat_entries cat)" "img_id e = cat_default_id cat"
    and uniq: "\<And>e'. e' \<in> set (cat_entries cat) \<Longrightarrow> img_id e' = cat_default_id cat \<Longrightarrow> e' = e"
    using assms by blast
  show ?thesis
  proof (rule ex1I [of _ "to_image_response cat e"])
    show "to_image_response cat e \<in> set (map (to_image_response cat) (cat_entries cat)) \<and> vr_is_default (to_image_response cat e)"
      using e(1) by simp (simp add: e(2) to_image_response_def)
  next
    fix r assume "r \<in> set (map (to_image_response cat) (cat_entries cat)) \<and> vr_is_default r"
    then obtain e' where "e' \<in> set (cat_entries cat)" "r = to_image_response cat e'" "img_id e' = cat_default_id cat"
      by (auto simp: to_image_response_def)
    then show "r = to_image_response cat e" using uniq by simp
  qed
qed

lemma handle_reply_decides: "handle_reply lib c m \<noteq> Fall_through"
  by (auto simp: handle_reply_def split: option.split json.split)

lemma handle_reply_skips:
  "handle_reply lib c m = Skip_message \<longleftrightarrow> rp_correlation_id m \<noteq> Some c \<and> rp_settling m = None"
  by (auto simp: handle_reply_def split: option.split json.split)

text \<open>C39: the outcome of a synchronization is that of the first reply to this call (or of the first
  message whose settling raises).  Other messages, however many and however late, are skipped, and
  with no reply it is what ends the iteration: the time-out is reported when the iterator stops, and
  while it waits the call waits.  Neither the deadline nor the clock has any part in it.
  What leaving the iterator and closing the connection raise takes the place of the outcome.\<close>

theorem image_sync_ignores_deadline:
  "sync_images_rpc lib timeout c now q =
     map_option (on_exit (cq_closes q))
       (case cq_enters q of
          Some e \<Rightarrow> Some (Inl (Sync_raised e))
        | None \<Rightarrow> map_option (on_exit (cq_leaves q))
            (case find (\<lambda>m. rp_correlation_id m = Some c \<or> rp_settling m \<noteq> None) (cq_replies q) of
               None \<Rightarrow>
                 (case cq_ends q of
                    Iteration_waits \<Rightarrow> None
                  | Iteration_stops \<Rightarrow> Some (Inl sync_timed_out)
                  | Iteration_raises e \<Rightarrow> Some (Inl (Sync_raised e)))
             | Some m \<Rightarrow>
                 (case handle_reply lib c m of Return_result d \<Rightarrow> Some (Inr d) | Raise_error e \<Rightarrow> Some (Inl e) | _ \<Rightarrow> None)))"
proof -
  have "await_reply lib c deadline ends replies =
     (case find (\<lambda>m. rp_correlation_id m = Some c \<or> rp_settling m \<noteq> None) replies of
        None \<Rightarrow>
          (case ends of
             Iteration_waits \<Rightarrow> None
           | Iteration_stops \<Rightarrow> Some (Inl sync_timed_out)
           | Iteration_raises e \<Rightarrow> Some (Inl (Sync_raised e)))
      | Some m \<Rightarrow>
          (case handle_reply lib c m of Return_result d \<Rightarrow> Some (Inr d) | Raise_error e \<Rightarrow> Some (Inl e) | _ \<Rightarrow> None))"
    for deadline ends replies
  proof (induction replies)
    case (Cons m replies)
    then show ?case using handle_reply_decides [of lib c m] handle_reply_skips [of lib c m]
      by (cases "handle_reply lib c m") auto
  qed simp
  then show ?thesis by (simp only: sync_images_rpc_def)
qed

text \<open>A foreign message long after the deadline, and then the reply, or none.\<close>

definition example_lib :: python_lib where
  "example_lib = \<lparr>pl_json_loads = (\<lambda>_. Some (JObj [(''success'', JBool True), (''result'', JObj [(''copied'', JInt 2)])])),
     pl_float_text = (\<lambda>_. []), pl_netloc_ok = (\<lambda>_. True)\<rparr>"

definition example_reply :: "string \<Rightarrow> rat \<Rightarrow> rpc_reply" where
  "example_reply c t = \<lparr>rp_correlation_id = Some c, rp_body = [], rp_settling = None, rp_handled_at = t\<rparr>"

definition example_queue :: "rpc_reply list \<Rightarrow> iteration_end \<Rightarrow> callback_queue" where
  "example_queue ms ends = \<lparr>cq_enters = None, cq_replies = ms, cq_ends = ends, cq_leaves = None, cq_closes = None\<rparr>"

theorem image_sync_ignores_deadline_witness:
  "sync_images_rpc example_lib 5 ''a'' 0 (example_queue [example_reply ''b'' 900, example_reply ''a'' 1000] Iteration_waits) =
     Some (Inr [(''copied'', JInt 2)]) \<and>
   sync_images_rpc example_lib 5 ''a'' 0 (example_queue [example_reply ''b'' 900] Iteration_waits) = None \<and>
   sync_images_rpc example_lib 5 ''a'' 0 (example_queue [example_reply ''b'' 900] Iteration_stops) = Some (Inl sync_timed_out)"
  unfolding image_sync_ignores_deadline
  by (simp add: example_queue_def example_reply_def example_lib_def handle_reply_def on_exit_def)

end
