(* ===== verification/Bootstrap.thy ===== *)
theory Bootstrap
  imports Api_Admin
begin

text \<open>
  Starting the service (\<^verbatim>\<open>bootstrap/database.py\<close>): a database operation is retried while
  the database is not reachable, and after the initial migration (\<^verbatim>\<open>001_init.sql\<close>)
  \<open>bootstrap_data\<close> brings the default tenant, the capacity of the host, the default quota and the
  first user into being, or back to their configured values.
  One reading of the clock stands for the readings of one run.
\<close>

section \<open>Retrying\<close>

fun is_operational :: "error \<Rightarrow> bool" where
  "is_operational (OperationalError _) = True"
| "is_operational _ = False"

fun retry_loop :: "int list \<Rightarrow> int \<Rightarrow> (error, 's, unit) act \<Rightarrow> (error, 's, unit) act" where
  "retry_loop [] attempts fn s = (Inr (), s)"
| "retry_loop (attempt # rest) attempts fn s =
     (case fn s of
        (Inr _, s') \<Rightarrow> (Inr (), s')
      | (Inl e, s') \<Rightarrow>
          if is_operational e then
            if attempt = attempts then (Inl e, s') else retry_loop rest attempts fn s'
          else (Inl e, s'))"

definition run_with_db_retry :: "int \<Rightarrow> (error, 's, unit) act \<Rightarrow> (error, 's, unit) act" where
  "run_with_db_retry attempts fn = retry_loop [1..attempts] attempts fn"

text \<open>The state after \<open>k\<close> attempts, and the outcome of the attempt that follows.\<close>

fun after_attempts :: "(error, 's, unit) act \<Rightarrow> nat \<Rightarrow> 's \<Rightarrow> 's" where
  "after_attempts fn 0 s = s"
| "after_attempts fn (Suc k) s = after_attempts fn k (snd (fn s))"

definition unreachable :: "(error, 's, unit) act \<Rightarrow> 's \<Rightarrow> bool" where
  "unreachable fn s \<longleftrightarrow> (case fst (fn s) of Inl e \<Rightarrow> is_operational e | Inr _ \<Rightarrow> False)"

text \<open>The first attempt that is not a lost connection decides, or else the last one.\<close>

lemma retry_loop_run:
  assumes "i \<le> attempts"
  shows "\<exists>k \<le> nat (attempts - i). (\<forall>j < k. unreachable fn (after_attempts fn j s)) \<and>
     (unreachable fn (after_attempts fn k s) \<longrightarrow> k = nat (attempts - i)) \<and>
     retry_loop [i..attempts] attempts fn s = fn (after_attempts fn k s)"
  using assms
proof (induction "nat (attempts - i)" arbitrary: i s)
  case 0
  then have "i = attempts" by simp
  then show ?case by (intro exI [of _ 0]) (auto simp: unreachable_def split: prod.splits sum.splits)
next
  case (Suc n)
  then have ivl: "[i..attempts] = i # [i + 1..attempts]" by (simp add: upto_rec1)
  show ?case
  proof (cases "unreachable fn s")
    case False
    then show ?thesis unfolding ivl
      by (intro exI [of _ 0]) (auto simp: unreachable_def split: prod.splits sum.splits)
  next
    case True
    have n: "n = nat (attempts - (i + 1))" "i + 1 \<le> attempts" using Suc by auto
    have step: "retry_loop [i..attempts] attempts fn s = retry_loop [i + 1..attempts] attempts fn (snd (fn s))"
      using True n(2) unfolding ivl by (auto simp: unreachable_def split: prod.splits sum.splits)
    from Suc.hyps(1) [OF n, of "snd (fn s)"]
    obtain k where k: "k \<le> nat (attempts - (i + 1))" "\<forall>j < k. unreachable fn (after_attempts fn j (snd (fn s)))"
      "unreachable fn (after_attempts fn k (snd (fn s))) \<longrightarrow> k = nat (attempts - (i + 1))"
      "retry_loop [i + 1..attempts] attempts fn (snd (fn s)) = fn (after_attempts fn k (snd (fn s)))" by blast
    have "\<forall>j < Suc k. unreachable fn (after_attempts fn j s)"
      using True k(2) by (auto simp: less_Suc_eq_0_disj)
    then show ?thesis using k Suc.hyps(2) n step
      by (intro exI [of _ "Suc k"]) auto
  qed
qed

text \<open>With a positive number of attempts a start-up operation is run until it does something else
  than lose its connection, but at most that often, and its last outcome is the result: so if one
  of the allowed attempts finds the database reachable the start-up gets past it, and if none does
  the error is raised.\<close>

theorem retry_outcome:
  "if attempts \<le> 0 then run_with_db_retry attempts fn s = (Inr (), s)
   else (\<exists>k < nat attempts. (\<forall>j < k. unreachable fn (after_attempts fn j s)) \<and>
       (\<not> unreachable fn (after_attempts fn k s) \<or> k = nat attempts - 1) \<and>
       run_with_db_retry attempts fn s = fn (after_attempts fn k s))"
proof (cases "attempts \<le> 0")
  case False
  then obtain k where "k \<le> nat (attempts - 1)" "\<forall>j < k. unreachable fn (after_attempts fn j s)"
     "unreachable fn (after_attempts fn k s) \<longrightarrow> k = nat (attempts - 1)"
     "retry_loop [1..attempts] attempts fn s = fn (after_attempts fn k s)"
    using retry_loop_run [of 1 attempts fn s] by auto
  then show ?thesis using False unfolding run_with_db_retry_def
    by (simp only: if_False) (intro exI [of _ k] conjI; auto)
qed (simp add: run_with_db_retry_def)

section \<open>The initial data\<close>

record settings =
  st_host_node :: string
  st_total_cpu :: int
  st_total_memory_mib :: int
  st_total_disk_gib :: int
  st_total_instances :: int
  st_admin_username :: string
  st_admin_password :: string
  st_admin_role :: string

record boot_env =
  boot_now :: timestamp
  boot_user_id :: uuid
  boot_salt :: bytes
  boot_kdf :: kdf

definition default_tenant_id :: uuid where
  "default_tenant_id = 1"

definition default_tenant_name :: string where
  "default_tenant_name = ''Default Tenant''"

definition default_row :: "timestamp \<Rightarrow> tenant" where
  "default_row now = \<lparr>ten_id = default_tenant_id, ten_key = default_tenant_key, ten_name = default_tenant_name,
     ten_is_active = True, ten_created_at = now, ten_updated_at = now\<rparr>"

text \<open>
  \<^verbatim>\<open>INSERT ... ON CONFLICT (key) DO UPDATE\<close>: a conflict on the identifier is an error.  The
  initial migration (\<^verbatim>\<open>001_init.sql\<close>) does the same to an existing row, but for its activity.
\<close>

definition initial_schema :: "timestamp \<Rightarrow> unit db_act" where
  "initial_schema now =
     bindM (sql_scalar tenants (\<lambda>t. ten_key t = default_tenant_key)) (\<lambda>conflict.
     case conflict of
       Some _ \<Rightarrow> bindM (sql_update tenants tenants_update (\<lambda>t. ten_key t = default_tenant_key)
           (\<lambda>t. t\<lparr>ten_name := default_tenant_name, ten_updated_at := now\<rparr>)) (\<lambda>_. returnM ())
     | None \<Rightarrow> bindM (sql_insert tenants_update tenant_violates (default_row now)) (\<lambda>_. returnM ()))"

definition tenant_upsert :: "timestamp \<Rightarrow> unit db_act" where
  "tenant_upsert now =
     bindM (sql_scalar tenants (\<lambda>t. ten_key t = default_tenant_key)) (\<lambda>conflict.
     case conflict of
       Some _ \<Rightarrow> bindM (sql_update tenants tenants_update (\<lambda>t. ten_key t = default_tenant_key)
           (\<lambda>t. t\<lparr>ten_name := default_tenant_name, ten_is_active := True, ten_updated_at := now\<rparr>))
           (\<lambda>_. returnM ())
     | None \<Rightarrow> bindM (sql_insert tenants_update tenant_violates
           \<lparr>ten_id = default_tenant_id, ten_key = default_tenant_key, ten_name = default_tenant_name,
            ten_is_active = True, ten_created_at = now, ten_updated_at = now\<rparr>)
           (\<lambda>_. returnM ()))"

definition capacity_upsert :: "settings \<Rightarrow> unit db_act" where
  "capacity_upsert st =
     bindM (guardM (int4 (st_total_cpu st) \<and> int4 (st_total_memory_mib st) \<and> int4 (st_total_disk_gib st))
       (DataError ''integer out of range'')) (\<lambda>_.
     let row = \<lparr>cap_host_node = st_host_node st, total_cpu = st_total_cpu st,
          total_memory_mib = st_total_memory_mib st, total_disk_gib = st_total_disk_gib st\<rparr> in
     bindM (sql_scalar resource_capacity (\<lambda>r. cap_host_node r = st_host_node st)) (\<lambda>conflict.
     case conflict of
       Some _ \<Rightarrow> bindM (sql_update resource_capacity resource_capacity_update
           (\<lambda>r. cap_host_node r = st_host_node st) (\<lambda>_. row)) (\<lambda>_. returnM ())
     | None \<Rightarrow> bindM (sql_insert resource_capacity_update (\<lambda>_ _. None) row) (\<lambda>_. returnM ())))"

definition bootstrap_body :: "boot_env \<Rightarrow> settings \<Rightarrow> unit db_act" where
  "bootstrap_body env st =
     bindM (tenant_upsert (boot_now env)) (\<lambda>_.
     bindM (capacity_upsert st) (\<lambda>_.
     bindM (quota_upsert (boot_now env) default_tenant_id (st_total_instances st) (st_total_cpu st)
       (st_total_memory_mib st) (st_total_disk_gib st)) (\<lambda>_.
     bindM (liftM (hash_password (boot_kdf env) (boot_salt env) default_iterations (st_admin_password st))) (\<lambda>hash.
     bindM (ensure_user (boot_user_id env) (boot_now env) (st_admin_username st) hash (st_admin_role st) None) (\<lambda>_.
     returnM ())))))"

definition bootstrap_data :: "boot_env \<Rightarrow> settings \<Rightarrow> unit sess_act" where
  "bootstrap_data env st = transact (bootstrap_body env st)"

section \<open>What a start leaves behind\<close>

lemma tenant_upsert_ok:
  assumes "tenant_upsert now d = (Inr x, d')"
  shows "d' = tenants_update (\<lambda>_. tenants d') d" "default_ok d'" "tenants_ok d \<Longrightarrow> tenants_ok d'"
    "tenants d = [] \<Longrightarrow> tenants d' = [default_row now]"
proof -
  let ?f = "\<lambda>t :: tenant. t\<lparr>ten_name := default_tenant_name, ten_is_active := True, ten_updated_at := now\<rparr>"
  let ?p = "\<lambda>t :: tenant. ten_key t = default_tenant_key"
  have "(d' = tenants_update (\<lambda>_. tenants d') d \<and> default_ok d' \<and> (tenants_ok d \<longrightarrow> tenants_ok d')) \<and>
    (tenants d = [] \<longrightarrow> tenants d' = [default_row now])"
  proof (cases "row_of ten_key default_tenant_key (tenants d)")
    case None
    then have "tenant_violates d (default_row now) = None" "d' = tenants_update (\<lambda>ts. ts @ [default_row now]) d"
      using assms by (auto simp: tenant_upsert_def act_simps default_row_def split: option.splits)
    moreover from this have "default_tenant_id \<notin> ten_id ` set (tenants d)" "default_tenant_key \<notin> ten_key ` set (tenants d)"
      by (simp_all add: tenant_violates_def exists_row_iff default_row_def split: if_splits)
    ultimately show ?thesis by (auto simp: default_ok_def default_row_def tenants_ok_def)
  next
    case (Some t)
    then have d': "d' = tenants_update (update_where ?p ?f) d"
      using assms by (simp add: tenant_upsert_def act_simps)
    have "?f t \<in> set (update_where ?p ?f (tenants d))"
      using row_of_SomeD [OF Some] by (auto simp: update_where_def)
    moreover have "map ten_id (update_where ?p ?f ts) = map ten_id ts" "map ten_key (update_where ?p ?f ts) = map ten_key ts"
      "ten_id ` set (update_where ?p ?f ts) = ten_id ` set ts" for ts
      by (induction ts) auto
    ultimately show ?thesis using row_of_SomeD [OF Some] unfolding d'
      by (auto simp: default_ok_def tenants_ok_def intro: bexI [of _ "?f t"])
  qed
  then show "d' = tenants_update (\<lambda>_. tenants d') d" "default_ok d'" "tenants_ok d \<Longrightarrow> tenants_ok d'"
    "tenants d = [] \<Longrightarrow> tenants d' = [default_row now]" by blast+
qed

text \<open>The first migration changes only the tenants, and makes the default tenant in an empty database.\<close>

lemma initial_schema_tenants:
  "initial_schema now d = (r, d') \<Longrightarrow> \<exists>ts. d' = d\<lparr>tenants := ts\<rparr> \<and> (isl r \<longrightarrow> d' = d)"
  by (auto simp: initial_schema_def act_simps split: option.splits)
     (metis db.surjective db.update_convs(1))+

definition migrated_db :: "timestamp \<Rightarrow> db" where
  "migrated_db now = empty_db\<lparr>tenants := [default_row now]\<rparr>"

lemma initial_schema_empty: "initial_schema now empty_db = (Inr (), migrated_db now)"
  by (simp add: initial_schema_def act_simps empty_db_def tenant_violates_def exists_row_def migrated_db_def)

lemma migrated_db_ok: "tenants_ok (migrated_db now)" "users_ok (migrated_db now)" "refresh_tokens (migrated_db now) = []"
    "users (migrated_db now) = []"
  by (simp_all add: migrated_db_def tenants_ok_def users_ok_def empty_db_def)

definition capacity_row :: "settings \<Rightarrow> resource_capacity_model" where
  "capacity_row st = \<lparr>cap_host_node = st_host_node st, total_cpu = st_total_cpu st,
     total_memory_mib = st_total_memory_mib st, total_disk_gib = st_total_disk_gib st\<rparr>"

lemma capacity_row_key [simp]: "cap_host_node (capacity_row st) = st_host_node st"
  by (simp add: capacity_row_def)

lemma capacity_upsert_ok:
  assumes "capacity_upsert st d = (Inr x, d')"
  shows "d' = resource_capacity_update (\<lambda>_. resource_capacity d') d"
    "row_of cap_host_node (st_host_node st) (resource_capacity d') = Some (capacity_row st)"
proof -
  let ?p = "\<lambda>r :: resource_capacity_model. cap_host_node r = st_host_node st"
  have upd: "row_of cap_host_node (st_host_node st) (update_where ?p (\<lambda>_. capacity_row st) rs) =
      map_option (\<lambda>_. capacity_row st) (row_of cap_host_node (st_host_node st) rs)" for rs
    by (induction rs) auto
  have "d' = (case row_of cap_host_node (st_host_node st) (resource_capacity d) of
      None \<Rightarrow> resource_capacity_update (\<lambda>rs. rs @ [capacity_row st]) d
    | Some _ \<Rightarrow> resource_capacity_update (update_where ?p (\<lambda>_. capacity_row st)) d)"
    using assms by (auto simp: capacity_upsert_def act_simps Let_def capacity_row_def split: if_splits option.splits)
  then show "d' = resource_capacity_update (\<lambda>_. resource_capacity d') d"
    "row_of cap_host_node (st_host_node st) (resource_capacity d') = Some (capacity_row st)"
    by (auto simp: upd row_of_append split: option.splits)
qed

lemma ensure_user_ok:
  assumes "ensure_user uid now n h r tid d = (Inr u, d')"
  shows "usr_username u = n \<and> u \<in> set (users d') \<and>
    (d' = d \<or> d' = users_update (\<lambda>us. us @ [u]) d \<and> user_violates d u = None \<and> bind_role r = Inr (usr_role u) \<and>
       usr_is_active u \<and> usr_tenant_id u = tid)"
proof (cases "create_user uid now n h r True tid d")
  case (Pair x d1)
  show ?thesis
  proof (cases x)
    case (Inr v)
    with Pair assms have "u = v" "d' = d1" by (simp_all add: ensure_user_def catchM_def)
    with create_user_ok [OF Pair [unfolded Inr]] show ?thesis by simp
  next
    case (Inl e)
    with create_user_fail Pair have "d1 = d" by blast
    with Pair Inl assms have "d' = d" "row_of usr_username n (users d) = Some u"
      by (auto simp: ensure_user_def catchM_def act_simps split: error.splits option.splits)
    then show ?thesis by (auto dest: row_of_SomeD)
  qed
qed

lemma bootstrap_run:
  assumes "bootstrap_body env st d = (Inr x, d')"
  obtains d1 d2 d3 q h u where "tenant_upsert (boot_now env) d = (Inr (), d1)" "capacity_upsert st d1 = (Inr (), d2)"
    "quota_upsert (boot_now env) default_tenant_id (st_total_instances st) (st_total_cpu st)
       (st_total_memory_mib st) (st_total_disk_gib st) d2 = (Inr q, d3)"
    "ensure_user (boot_user_id env) (boot_now env) (st_admin_username st) h (st_admin_role st) None d3 = (Inr u, d')"
  using assms by (auto simp: bootstrap_body_def bindM_Inr_iff)

text \<open>What a start has brought about when it succeeds: the default tenant, active, the configured capacity
  of the host, the configured default quota and a user of the configured name; no instance, task,
  message, token or audit entry is touched.\<close>

definition prepared :: "boot_env \<Rightarrow> settings \<Rightarrow> db \<Rightarrow> db \<Rightarrow> bool" where
  "prepared env st d d' \<longleftrightarrow>
     (\<exists>t \<in> set (tenants d'). ten_key t = default_tenant_key \<and> ten_is_active t) \<and>
     row_of cap_host_node (st_host_node st) (resource_capacity d') = Some (capacity_row st) \<and>
     quota_at d' default_tenant_id = Some \<lparr>quo_tenant_id = default_tenant_id, max_instances = st_total_instances st,
       max_cpu = st_total_cpu st, max_memory_mib = st_total_memory_mib st, max_disk_gib = st_total_disk_gib st,
       quo_updated_at = boot_now env\<rparr> \<and>
     (\<exists>u \<in> set (users d'). usr_username u = st_admin_username st) \<and>
     instances d' = instances d \<and> instance_tasks d' = instance_tasks d \<and> command_outbox d' = command_outbox d \<and>
     refresh_tokens d' = refresh_tokens d \<and> audit_logs d' = audit_logs d"

lemma bootstrap_fails: "request (bootstrap_data env st) d = (Inl e, d') \<Longrightarrow> d' = d"
  by (simp add: bootstrap_data_def request_transact_Inl)

lemma bootstrap_prepares:
  assumes run: "request (bootstrap_data env st) d = (Inr x, d')"
  shows "prepared env st d d'"
proof -
  have "bootstrap_body env st d = (Inr x, d')" using run by (simp add: bootstrap_data_def)
  then obtain d1 d2 d3 q h u where s: "tenant_upsert (boot_now env) d = (Inr (), d1)" "capacity_upsert st d1 = (Inr (), d2)"
    "quota_upsert (boot_now env) default_tenant_id (st_total_instances st) (st_total_cpu st)
       (st_total_memory_mib st) (st_total_disk_gib st) d2 = (Inr q, d3)"
    "ensure_user (boot_user_id env) (boot_now env) (st_admin_username st) h (st_admin_role st) None d3 = (Inr u, d')"
    by (rule bootstrap_run)
  obtain g where g: "d3 = tenant_quotas_update g d2" using quota_upsert_ok(3) [OF s(3)] by blast
  obtain us where us: "d' = users_update (\<lambda>_. us) d3"
    using ensure_user_ok [OF s(4)] by (metis (no_types, lifting) db.surjective db.update_convs(7))
  obtain ts rc where d1: "d1 = tenants_update (\<lambda>_. ts) d" and d2: "d2 = resource_capacity_update (\<lambda>_. rc) d1"
    using tenant_upsert_ok(1) [OF s(1)] capacity_upsert_ok(1) [OF s(2)] by blast
  have sel: "tenants d2 = tenants d1" "resource_capacity d' = resource_capacity d2"
    "instances d' = instances d \<and> instance_tasks d' = instance_tasks d \<and> command_outbox d' = command_outbox d \<and>
     refresh_tokens d' = refresh_tokens d \<and> audit_logs d' = audit_logs d"
    using us g d2 d1 by simp_all
  have active: "default_ok d'" using tenant_upsert_ok(2) [OF s(1)] us g sel(1) by (simp add: default_ok_def)
  have cap: "row_of cap_host_node (st_host_node st) (resource_capacity d') = Some (capacity_row st)"
    using capacity_upsert_ok(2) [OF s(2)] sel(2) by simp
  have quo: "quota_at d' default_tenant_id = Some q" using quota_upsert_ok(2) [OF s(3)] us by (simp add: quota_at_def fun_eq_iff)
  have usr: "\<exists>u \<in> set (users d'). usr_username u = st_admin_username st" using ensure_user_ok [OF s(4)] by blast
  show ?thesis using active cap quo usr sel(3) by (simp add: prepared_def quota_upsert_ok(1) [OF s(3)] default_ok_def)
qed

section \<open>The service from its first start\<close>

lemma user_row_keeps:
  assumes "users_ok d" "user_violates d u = None"
  shows "users_ok (users_update (\<lambda>us. us @ [u]) d)"
  using assms by (auto simp: users_ok_def user_violates_None row_of_None_iff)

lemma bootstrap_keeps:
  assumes "bootstrap_body env st d = (Inr x, d')" "tenants_ok d" "users_ok d"
  shows "directory_ok d' \<and> users_ok d' \<and> refresh_tokens d' = refresh_tokens d \<and> set (users d) \<subseteq> set (users d') \<and>
    (\<exists>u \<in> set (users d'). usr_username u = st_admin_username st \<and>
       (u \<in> set (users d) \<or> bind_role (st_admin_role st) = Inr (usr_role u) \<and> usr_is_active u))"
proof -
  obtain d1 d2 d3 q h u where s: "tenant_upsert (boot_now env) d = (Inr (), d1)" "capacity_upsert st d1 = (Inr (), d2)"
    "quota_upsert (boot_now env) default_tenant_id (st_total_instances st) (st_total_cpu st)
       (st_total_memory_mib st) (st_total_disk_gib st) d2 = (Inr q, d3)"
    "ensure_user (boot_user_id env) (boot_now env) (st_admin_username st) h (st_admin_role st) None d3 = (Inr u, d')"
    using assms(1) by (rule bootstrap_run)
  obtain ts rc g where d1: "d1 = tenants_update (\<lambda>_. ts) d" and d2: "d2 = resource_capacity_update (\<lambda>_. rc) d1"
    and d3: "d3 = tenant_quotas_update g d2"
    using tenant_upsert_ok(1) [OF s(1)] capacity_upsert_ok(1) [OF s(2)] quota_upsert_ok(3) [OF s(3)] by blast
  have "directory_ok d1" using tenant_upsert_ok(2) [OF s(1)] tenant_upsert_ok(3) [OF s(1) assms(2)] by (simp add: directory_ok_def)
  moreover have "directory_ok d2 = directory_ok d1" by (rule directory_frame) (simp_all add: d2)
  ultimately have dir: "directory_ok d3" using quota_upsert_directory [OF s(3)] by simp
  have us: "users d3 = users d" "refresh_tokens d3 = refresh_tokens d" by (simp_all add: d3 d2 d1)
  then have ok: "users_ok d3" using assms(3) by (simp add: users_ok_def)
  note u = ensure_user_ok [OF s(4)]
  show ?thesis
  proof (cases "d' = d3")
    case True
    then show ?thesis using dir ok us u by auto
  next
    case False
    then have 2: "d' = users_update (\<lambda>us. us @ [u]) d3" "user_violates d3 u = None"
      "bind_role (st_admin_role st) = Inr (usr_role u)" "usr_is_active u" using u by simp_all
    have "directory_ok d' = directory_ok d3" by (rule directory_frame) (simp_all add: 2(1))
    then show ?thesis using dir user_row_keeps [OF ok 2(2)] us u 2 by auto
  qed
qed

inductive service_step :: "db \<Rightarrow> db \<Rightarrow> bool" where
  requested: "admin_step d d' \<Longrightarrow> service_step d d'"
| restarted: "request (bootstrap_data env st) d = (r, d') \<Longrightarrow> service_step d d'"

definition first_start :: "db \<Rightarrow> bool" where
  "first_start d \<longleftrightarrow> (\<exists>now d0 env st. st_admin_role st = ''admin'' \<and> initial_schema now empty_db = (Inr (), d0) \<and>
     request (bootstrap_data env st) d0 = (Inr (), d))"

lemma restart_keeps:
  assumes "request (bootstrap_data env st) d = (r, d')" "admin_inv d"
  shows "admin_inv d'"
  using assms(1,2) unfolding bootstrap_data_def
proof (rule request_transact_keeps)
  fix a assume "bootstrap_body env st d = (Inr a, d')"
  then show "admin_inv d'" using bootstrap_keeps assms(2)
    unfolding admin_inv_def admins_ok_def directory_ok_def tokens_ok_def by (metis subsetD)
qed

lemma first_start_inv: "first_start d \<Longrightarrow> admin_inv d"
proof -
  assume "first_start d"
  then obtain env st now where st: "st_admin_role st = ''admin''" "bootstrap_body env st (migrated_db now) = (Inr (), d)"
    by (auto simp: first_start_def bootstrap_data_def initial_schema_empty)
  from bootstrap_keeps [OF st(2) migrated_db_ok(1,2)]
  have "directory_ok d" "users_ok d" "refresh_tokens d = []" "\<exists>u \<in> set (users d). bind_role ''admin'' = Inr (usr_role u) \<and> usr_is_active u"
    by (auto simp: migrated_db_ok(3,4) st(1))
  moreover have "bind_role ''admin'' = Inr r \<longleftrightarrow> r = admin" for r by (auto simp: bind_role_def role_of_def)
  ultimately show ?thesis by (auto simp: admin_inv_def admins_ok_def tokens_ok_def active_admin_def)
qed

interpretation service: invariant_system service_step first_start admin_inv
proof (unfold_locales, goal_cases)
  case (1 s)
  then show ?case by (rule first_start_inv)
next
  case (2 s s')
  from 2(2) show ?case
  proof cases
    case requested
    then show ?thesis using admin_step_keeps 2(1) by blast
  next
    case (restarted env st r)
    then show ?thesis using restart_keeps 2(1) by blast
  qed
qed

text \<open>C6: from the first start of the service on an empty database, its migration included, through whatever sequence of tenant,
  user and session requests and restarts, successful or failing, the keys and names of tenants,
  quotas, users and tokens stay unique and consistent, the default tenant stays active, and an
  active administrator remains.\<close>

theorem service_keeps_directory:
  assumes "first_start d0" "service_step\<^sup>*\<^sup>* d0 d"
  shows "directory_ok d \<and> users_ok d \<and> tokens_ok d \<and>
    (\<exists>t \<in> set (tenants d). ten_key t = default_tenant_key \<and> ten_is_active t) \<and>
    (\<exists>u \<in> set (users d). active_admin u)"
  using service.reachable_inv [OF assms] by (auto simp: admin_inv_def admins_ok_def directory_ok_def default_ok_def)

definition sample_settings :: settings where
  "sample_settings = \<lparr>st_host_node = ''node'', st_total_cpu = 32, st_total_memory_mib = 131072, st_total_disk_gib = 2000,
     st_total_instances = 1000, st_admin_username = ''admin'', st_admin_password = ''admin1234'', st_admin_role = ''admin''\<rparr>"

definition sample_boot :: boot_env where
  "sample_boot = \<lparr>boot_now = 4000, boot_user_id = 100, boot_salt = [1], boot_kdf = \<lambda>p s n. p @ s\<rparr>"

lemma sample_boot_ok: "fst (request (bootstrap_data sample_boot sample_settings) (migrated_db 3000)) = Inr ()"
proof -
  have h: "hash_password (boot_kdf sample_boot) (boot_salt sample_boot) default_iterations (st_admin_password sample_settings) =
      Inr (hash_text default_iterations [1] (utf8 ''admin1234'' @ [1]))"
    by (simp add: hash_password_text default_iterations_def sample_boot_def sample_settings_def)
  let ?d1 = "migrated_db 3000\<lparr>tenants := [(default_row 3000)\<lparr>ten_updated_at := 4000\<rparr>]\<rparr>"
  let ?d2 = "?d1\<lparr>resource_capacity := [capacity_row sample_settings]\<rparr>"
  have "tenant_upsert (boot_now sample_boot) (migrated_db 3000) = (Inr (), ?d1)"
    by (simp add: tenant_upsert_def act_simps migrated_db_def empty_db_def default_row_def sample_boot_def)
  moreover have "capacity_upsert sample_settings ?d1 = (Inr (), ?d2)"
    by (simp add: capacity_upsert_def act_simps migrated_db_def empty_db_def Let_def capacity_row_def sample_settings_def int4_def)
  moreover obtain q where "quota_upsert (boot_now sample_boot) default_tenant_id (st_total_instances sample_settings)
      (st_total_cpu sample_settings) (st_total_memory_mib sample_settings) (st_total_disk_gib sample_settings) ?d2 =
      (Inr q, ?d2\<lparr>tenant_quotas := [q]\<rparr>)"
    by (auto simp: quota_upsert_def act_simps migrated_db_def empty_db_def Let_def default_row_def sample_settings_def int4_def default_tenant_id_def)
  moreover obtain u where "ensure_user (boot_user_id sample_boot) (boot_now sample_boot) (st_admin_username sample_settings)
      (hash_text default_iterations [1] (utf8 ''admin1234'' @ [1])) (st_admin_role sample_settings) None
      (?d2\<lparr>tenant_quotas := [q]\<rparr>) = (Inr u, ?d2\<lparr>tenant_quotas := [q], users := [u]\<rparr>)"
    by (auto simp: ensure_user_def catchM_def create_user_def act_simps migrated_db_def empty_db_def Let_def sample_settings_def
        bind_role_def role_of_def user_role_check_def user_violates_def exists_row_def sql_insert_def)
  ultimately show ?thesis
    by (simp add: bootstrap_data_def request_transact bootstrap_body_def bindM_def liftM_def h returnM_def)
qed

theorem service_keeps_directory_witness:
  "let d0 = snd (request (bootstrap_data sample_boot sample_settings) (migrated_db 3000));
       d = snd (request (deactivate_user sample_api sample_bearer 100) d0) in
     directory_ok d \<and> users_ok d \<and> tokens_ok d \<and>
     (\<exists>t \<in> set (tenants d). ten_key t = default_tenant_key \<and> ten_is_active t) \<and>
     (\<exists>u \<in> set (users d). active_admin u)"
proof -
  let ?d0 = "snd (request (bootstrap_data sample_boot sample_settings) (migrated_db 3000))"
  have "request (bootstrap_data sample_boot sample_settings) (migrated_db 3000) = (Inr (), ?d0)"
    by (simp only: sample_boot_ok [symmetric] prod.collapse)
  moreover have "st_admin_role sample_settings = ''admin''" by (simp add: sample_settings_def)
  ultimately have "first_start ?d0" unfolding first_start_def using initial_schema_empty by blast
  moreover have "service_step\<^sup>*\<^sup>* ?d0 (snd (request (deactivate_user sample_api sample_bearer 100) ?d0))"
    by (intro r_into_rtranclp service_step.requested admin_step.user_deactivated [OF prod.collapse [symmetric]])
  ultimately show ?thesis unfolding Let_def by (rule service_keeps_directory)
qed


definition warming_up :: "(error, nat, unit) act" where
  "warming_up n = (if n > 0 then (Inl (OperationalError ''connection refused''), n - 1) else (Inr (), 0))"

theorem retry_outcome_witness:
  "\<exists>k < 20. run_with_db_retry 20 warming_up 3 = warming_up (after_attempts warming_up k 3)"
  using retry_outcome [of 20 warming_up 3] by auto

end
