(* ===== verification/Worker_Lifecycle.thy ===== *)
theory Worker_Lifecycle
  imports Prelude
begin

text \<open>
  Starting and stopping the background workers (\<^verbatim>\<open>runtime/lifecycle.py\<close>,
  \<^verbatim>\<open>bootstrap/workers.py\<close> and the lifespan of \<^verbatim>\<open>bootstrap/app_factory.py\<close>).  What
  the methods of a worker do is a parameter: the outcome of a call may depend on all calls made
  before it.
\<close>

section \<open>Workers and calls\<close>

record worker_spec =
  ws_name :: string
  ws_requires_ready :: bool
  ws_ready_timeout :: rat

datatype worker_call =
    Start_worker string
  | Wait_keyword string rat
  | Wait_positional string rat
  | Stop_worker string

datatype call_outcome = Returned bool | Raised_TypeError | Raised

datatype start_error = Worker_raised | Not_ready string

record worker_world =
  ww_outcome :: "worker_call list \<Rightarrow> worker_call \<Rightarrow> call_outcome"
  ww_has_wait :: "string \<Rightarrow> bool"

record worker_manager =
  wm_workers :: "worker_spec list"
  wm_started :: "worker_spec list"
  wm_calls :: "worker_call list"

definition manager_of :: "worker_spec list \<Rightarrow> worker_manager" where
  "manager_of workers = \<lparr>wm_workers = workers, wm_started = [], wm_calls = []\<rparr>"

text \<open>\<^verbatim>\<open>build_worker_specs\<close>.\<close>

definition build_worker_specs :: "bool \<Rightarrow> int \<Rightarrow> worker_spec list" where
  "build_worker_specs outbox_relay_enabled sweep_interval_seconds =
     [\<lparr>ws_name = ''vm-result-consumer'', ws_requires_ready = outbox_relay_enabled, ws_ready_timeout = 10\<rparr>] @
     (if outbox_relay_enabled
      then [\<lparr>ws_name = ''outbox-relay'', ws_requires_ready = False, ws_ready_timeout = 10\<rparr>] else []) @
     (if sweep_interval_seconds > 0
      then [\<lparr>ws_name = ''stale-task-monitor'', ws_requires_ready = False, ws_ready_timeout = 10\<rparr>] else [])"

definition call_worker :: "worker_world \<Rightarrow> worker_call \<Rightarrow> worker_manager \<Rightarrow> call_outcome \<times> worker_manager" where
  "call_worker w c s = (ww_outcome w (wm_calls s) c, s\<lparr>wm_calls := wm_calls s @ [c]\<rparr>)"

section \<open>The manager\<close>

definition wait_until_ready :: "worker_world \<Rightarrow> worker_spec \<Rightarrow> (start_error, worker_manager, bool) act" where
  "wait_until_ready w spec s =
     (if \<not> ww_has_wait w (ws_name spec) then (Inr True, s)
      else let timeout = max (1 / 10) (ws_ready_timeout spec) in
        case call_worker w (Wait_keyword (ws_name spec) timeout) s of
          (Returned b, s1) \<Rightarrow> (Inr b, s1)
        | (Raised, s1) \<Rightarrow> (Inl Worker_raised, s1)
        | (Raised_TypeError, s1) \<Rightarrow>
            (case call_worker w (Wait_positional (ws_name spec) timeout) s1 of
               (Returned b, s2) \<Rightarrow> (Inr b, s2)
             | (_, s2) \<Rightarrow> (Inl Worker_raised, s2)))"

fun start_each :: "worker_world \<Rightarrow> worker_spec list \<Rightarrow> (start_error, worker_manager, unit) act" where
  "start_each w [] s = (Inr (), s)"
| "start_each w (spec # rest) s =
     (case call_worker w (Start_worker (ws_name spec)) s of
        (Returned _, s1) \<Rightarrow>
          (let s2 = s1\<lparr>wm_started := wm_started s1 @ [spec]\<rparr> in
           if \<not> ws_requires_ready spec then start_each w rest s2
           else case wait_until_ready w spec s2 of
               (Inr True, s3) \<Rightarrow> start_each w rest s3
             | (Inr False, s3) \<Rightarrow> (Inl (Not_ready (ws_name spec)), s3)
             | (Inl e, s3) \<Rightarrow> (Inl e, s3))
      | (_, s1) \<Rightarrow> (Inl Worker_raised, s1))"

fun stop_each :: "worker_world \<Rightarrow> worker_spec list \<Rightarrow> worker_manager \<Rightarrow> worker_manager" where
  "stop_each w [] s = s"
| "stop_each w (spec # rest) s = stop_each w rest (snd (call_worker w (Stop_worker (ws_name spec)) s))"

definition stop_all :: "worker_world \<Rightarrow> worker_manager \<Rightarrow> worker_manager" where
  "stop_all w s = stop_each w (rev (if wm_started s \<noteq> [] then wm_started s else wm_workers s)) (s\<lparr>wm_started := []\<rparr>)"

definition start_all :: "worker_world \<Rightarrow> (start_error, worker_manager, unit) act" where
  "start_all w s =
     (case start_each w (wm_workers s) (s\<lparr>wm_started := []\<rparr>) of
        (Inr _, s1) \<Rightarrow> (Inr (), s1)
      | (Inl e, s1) \<Rightarrow> (Inl e, stop_all w s1))"

text \<open>The lifespan of the application: the \<^verbatim>\<open>finally\<close> runs however the start went.\<close>

definition lifespan :: "worker_world \<Rightarrow> (start_error, worker_manager, unit) act" where
  "lifespan w s = (case start_all w s of (r, s1) \<Rightarrow> (r, stop_all w s1))"

section \<open>What was called\<close>

lemma stop_each_run:
  "stop_each w specs s = s\<lparr>wm_calls := wm_calls s @ map (\<lambda>p. Stop_worker (ws_name p)) specs\<rparr>"
  by (induction specs arbitrary: s) (simp_all add: call_worker_def)

lemma wait_until_ready_frame:
  "wait_until_ready w spec s = (r, s') \<Longrightarrow> wm_started s' = wm_started s \<and> wm_workers s' = wm_workers s \<and>
     (\<exists>cs. wm_calls s' = wm_calls s @ cs \<and> (\<forall>c \<in> set cs. \<forall>n. c \<noteq> Start_worker n \<and> c \<noteq> Stop_worker n))"
  by (auto simp: wait_until_ready_def call_worker_def Let_def split: if_splits call_outcome.splits)

text \<open>The names whose start returned, in a sequence of calls that follows \<open>before\<close>.\<close>

fun returned_starts :: "worker_world \<Rightarrow> worker_call list \<Rightarrow> worker_call list \<Rightarrow> string list" where
  "returned_starts w before [] = []"
| "returned_starts w before (c # cs) =
     (case c of Start_worker n \<Rightarrow> (case ww_outcome w before c of Returned _ \<Rightarrow> [n] | _ \<Rightarrow> []) | _ \<Rightarrow> []) @
     returned_starts w (before @ [c]) cs"

definition no_stop :: "worker_call list \<Rightarrow> bool" where
  "no_stop cs \<longleftrightarrow> (\<forall>c \<in> set cs. \<forall>n. c \<noteq> Stop_worker n)"

lemma returned_starts_append:
  "returned_starts w before (cs @ ds) = returned_starts w before cs @ returned_starts w (before @ cs) ds"
  by (induction cs arbitrary: before) simp_all

lemma returned_starts_none:
  "\<forall>c \<in> set cs. \<forall>n. c \<noteq> Start_worker n \<and> c \<noteq> Stop_worker n \<Longrightarrow> returned_starts w before cs = [] \<and> no_stop cs"
  by (induction cs arbitrary: before) (auto simp: no_stop_def split: worker_call.splits)

lemma start_each_run:
  assumes "start_each w specs s = (r, s')"
  shows "\<exists>k cs. k \<le> length specs \<and> wm_started s' = wm_started s @ take k specs \<and> wm_workers s' = wm_workers s \<and>
    wm_calls s' = wm_calls s @ cs \<and> no_stop cs \<and>
    returned_starts w (wm_calls s) cs = map ws_name (take k specs) \<and> (r = Inr () \<longrightarrow> k = length specs)"
  using assms
proof (induction specs arbitrary: s)
  case Nil
  then show ?case by (auto simp: no_stop_def)
next
  case (Cons spec rest)
  let ?c = "Start_worker (ws_name spec)"
  show ?case
  proof (cases "ww_outcome w (wm_calls s) ?c")
    case (Returned b)
    define s2 where "s2 = s\<lparr>wm_calls := wm_calls s @ [?c], wm_started := wm_started s @ [spec]\<rparr>"
    have s2: "wm_calls s2 = wm_calls s @ [?c]" "wm_started s2 = wm_started s @ [spec]" "wm_workers s2 = wm_workers s"
      by (simp_all add: s2_def)
    have one: "returned_starts w (wm_calls s) [?c] = [ws_name spec]" using Returned by simp
    obtain x s3 where w: "(if ws_requires_ready spec then wait_until_ready w spec s2 else (Inr True, s2)) = (x, s3)"
      by (rule prod.exhaust)
    then obtain ds where ds: "wm_started s3 = wm_started s2" "wm_workers s3 = wm_workers s2"
      "wm_calls s3 = wm_calls s2 @ ds" "\<forall>c \<in> set ds. \<forall>n. c \<noteq> Start_worker n \<and> c \<noteq> Stop_worker n"
      by (cases "ws_requires_ready spec") (auto dest: wait_until_ready_frame)
    note none = returned_starts_none [OF ds(4)]
    show ?thesis
    proof (cases "x = Inr True")
      case True
      then have "start_each w rest s3 = (r, s')"
        using Cons.prems w Returned by (auto simp: call_worker_def s2_def Let_def split: if_splits)
      from Cons.IH [OF this] obtain k cs where k: "k \<le> length rest" "wm_started s' = wm_started s3 @ take k rest"
        "wm_workers s' = wm_workers s3" "wm_calls s' = wm_calls s3 @ cs" "no_stop cs"
        "returned_starts w (wm_calls s3) cs = map ws_name (take k rest)" "r = Inr () \<longrightarrow> k = length rest" by blast
      have "returned_starts w (wm_calls s) ([?c] @ ds @ cs) = map ws_name (take (Suc k) (spec # rest))"
        using one none k(6) ds(3) s2(1) by (simp only: returned_starts_append) simp
      moreover have "no_stop ([?c] @ ds @ cs)" using none k(5) by (auto simp: no_stop_def)
      ultimately show ?thesis using k ds s2 by (intro exI [of _ "Suc k"] exI [of _ "[?c] @ ds @ cs"]) auto
    next
      case False
      then have "s' = s3" "r \<noteq> Inr ()"
        using Cons.prems w Returned
        by (auto simp: call_worker_def s2_def Let_def split: if_splits sum.splits bool.splits)
      moreover have "returned_starts w (wm_calls s) ([?c] @ ds) = [ws_name spec]"
        using one none by (simp only: returned_starts_append) simp
      moreover have "no_stop ([?c] @ ds)" using none by (auto simp: no_stop_def)
      ultimately show ?thesis using ds s2 by (intro exI [of _ 1] exI [of _ "[?c] @ ds"]) auto
    qed
  next
    case Raised_TypeError
    then have "r \<noteq> Inr () \<and> s' = s\<lparr>wm_calls := wm_calls s @ [?c]\<rparr>" using Cons.prems by (auto simp: call_worker_def)
    then show ?thesis using Raised_TypeError by (intro exI [of _ 0] exI [of _ "[?c]"]) (auto simp: no_stop_def)
  next
    case Raised
    then have "r \<noteq> Inr () \<and> s' = s\<lparr>wm_calls := wm_calls s @ [?c]\<rparr>" using Cons.prems by (auto simp: call_worker_def)
    then show ?thesis using Raised by (intro exI [of _ 0] exI [of _ "[?c]"]) (auto simp: no_stop_def)
  qed
qed

text \<open>Whichever worker fails to start or to get ready, and whatever stopping does, every worker
  whose start returned is stopped, after the last start, in the reverse order of starting; a start
  that succeeds has started all of them.  Only when none was started does a failed start stop all
  workers, started or not.\<close>

lemma start_all_run:
  "case start_all w (manager_of specs) of (r, s') \<Rightarrow>
     \<exists>k cs. k \<le> length specs \<and> no_stop cs \<and> returned_starts w [] cs = map ws_name (take k specs) \<and>
       (case r of
          Inr _ \<Rightarrow> k = length specs \<and> wm_started s' = specs \<and> wm_calls s' = cs
        | Inl e \<Rightarrow> wm_started s' = [] \<and>
            wm_calls s' = cs @ map (\<lambda>p. Stop_worker (ws_name p)) (rev (if k = 0 then specs else take k specs)))"
proof -
  obtain x s1 where run: "start_each w specs (manager_of specs) = (x, s1)" by (rule prod.exhaust)
  have [simp]: "(manager_of specs)\<lparr>wm_started := []\<rparr> = manager_of specs" "wm_workers (manager_of specs) = specs"
    "wm_started (manager_of specs) = []" "wm_calls (manager_of specs) = []"
    by (simp_all add: manager_of_def)
  obtain k cs where k: "k \<le> length specs" "wm_started s1 = take k specs" "wm_workers s1 = specs" "wm_calls s1 = cs"
    "no_stop cs" "returned_starts w [] cs = map ws_name (take k specs)" "x = Inr () \<longrightarrow> k = length specs"
    using start_each_run [OF run] by auto
  show ?thesis
  proof (cases x)
    case (Inl e)
    then have st: "start_all w (manager_of specs) = (Inl e, stop_all w s1)" by (simp add: start_all_def run)
    show ?thesis unfolding st
      using k by (intro case_prodI exI [of _ k] exI [of _ cs]) (auto simp: stop_all_def stop_each_run)
  next
    case (Inr u)
    then have st: "start_all w (manager_of specs) = (Inr (), s1)" by (simp add: start_all_def run)
    show ?thesis unfolding st
      using k Inr by (intro case_prodI exI [of _ k] exI [of _ cs]) auto
  qed
qed

text \<open>A lifespan whose start fails stops every worker once more, the ones that never ran included; one
  whose start succeeds stops each of them once.\<close>

lemma start_all_workers: "start_all w (manager_of specs) = (r, s') \<Longrightarrow> wm_workers s' = specs"
  using start_each_run [of w specs "manager_of specs"]
  by (auto simp: start_all_def stop_all_def stop_each_run manager_of_def split: prod.splits sum.splits)

lemma lifespan_calls:
  assumes "start_all w (manager_of specs) = (r, s')"
  shows "wm_calls (snd (lifespan w (manager_of specs))) = wm_calls s' @ map (\<lambda>p. Stop_worker (ws_name p)) (rev specs)"
  using assms start_all_run [where w = w and specs = specs] start_all_workers [OF assms]
  by (cases r) (auto simp: lifespan_def stop_all_def stop_each_run)

end
