(* ===== verification/Startup.thy ===== *)
theory Startup
  imports Bootstrap Image_Catalog Worker_Lifecycle Console
begin

text \<open>
  From the settings to a running process: the data source names of \<^verbatim>\<open>config.py\<close>, the
  schema (\<^verbatim>\<open>infra/migrations.py\<close>), \<open>initialize_database\<close> (\<^verbatim>\<open>bootstrap/database.py\<close>),
  the application (\<^verbatim>\<open>bootstrap/app_factory.py\<close>) and the worker process
  (\<^verbatim>\<open>bootstrap/worker_runner.py\<close>).  Alembic runs a revision once and in a transaction; what else
  may stop the \<open>n\<close>-th upgrade with a script location and a URL is the parameter \<open>upgrade_fails\<close>.
  SQLAlchemy's \<open>create_engine\<close> is another.  Reaching the server is the parameter \<open>refuses\<close>:
  whether the \<open>n\<close>-th attempt finds no server, and with which text.
\<close>

section \<open>Settings\<close>

record app_settings =
  as_app_name :: string
  as_postgres_user :: string
  as_postgres_password :: string
  as_postgres_db :: string
  as_postgres_host :: string
  as_postgres_port :: int
  as_rabbitmq_user :: string
  as_rabbitmq_password :: string
  as_rabbitmq_host :: string
  as_rabbitmq_port :: int
  as_vm_command_timeout_seconds :: int
  as_task_stale_sweep_interval_seconds :: int
  as_outbox_relay_enabled :: bool
  as_catalog :: catalog_settings
  as_boot :: settings

definition postgres_async_dsn :: "app_settings \<Rightarrow> string" where
  "postgres_async_dsn st =
     ''postgresql+psycopg://'' @ as_postgres_user st @ '':'' @ as_postgres_password st @
     ''@'' @ as_postgres_host st @ '':'' @ int_str (as_postgres_port st) @ ''/'' @ as_postgres_db st"

definition postgres_sync_dsn :: "app_settings \<Rightarrow> string" where
  "postgres_sync_dsn st =
     ''postgresql+psycopg://'' @ as_postgres_user st @ '':'' @ as_postgres_password st @
     ''@'' @ as_postgres_host st @ '':'' @ int_str (as_postgres_port st) @ ''/'' @ as_postgres_db st"

definition rabbitmq_dsn :: "app_settings \<Rightarrow> string" where
  "rabbitmq_dsn st =
     ''amqp://'' @ as_rabbitmq_user st @ '':'' @ as_rabbitmq_password st @
     ''@'' @ as_rabbitmq_host st @ '':'' @ int_str (as_rabbitmq_port st) @ ''/''"

section \<open>The schema\<close>

text \<open>
  \<^verbatim>\<open>Config.set_main_option\<close> stores its text in a \<^verbatim>\<open>ConfigParser\<close>, which refuses a
  percent sign that is neither doubled nor the start of a reference \<^verbatim>\<open>%(name)s\<close>.
\<close>

fun drop_doubled :: "string \<Rightarrow> string" where
  "drop_doubled (a # b # s) = (if a = CHR ''%'' \<and> b = CHR ''%'' then drop_doubled s else a # drop_doubled (b # s))"
| "drop_doubled s = s"

fun after_reference :: "string \<Rightarrow> string option" where
  "after_reference (a # b # s) =
     (if a = CHR ''%'' \<and> b = CHR ''('' then
        let name = takeWhile (\<lambda>c. c \<noteq> CHR '')'') s; rest = drop (length name) s in
        if name \<noteq> [] \<and> take 2 rest = '')s'' then Some (drop 2 rest) else None
      else None)"
| "after_reference s = None"

lemma after_reference_shorter: "after_reference s = Some s' \<Longrightarrow> length s' < length s"
  by (induction s rule: after_reference.induct) (auto simp: Let_def split: if_splits)

function drop_references :: "string \<Rightarrow> string" where
  "drop_references [] = []"
| "drop_references (c # s) =
     (case after_reference (c # s) of Some rest \<Rightarrow> drop_references rest | None \<Rightarrow> c # drop_references s)"
  by pat_completeness auto

termination
  by (relation "measure length") (auto dest: after_reference_shorter)

definition set_main_option :: "string \<Rightarrow> error + string" where
  "set_main_option value =
     (if CHR ''%'' \<in> set (drop_references (drop_doubled value)) then Inl (ValueError ''invalid interpolation syntax'')
      else Inr value)"

lemma set_drop_doubled: "set (drop_doubled s) \<subseteq> set s"
  by (induction s rule: drop_doubled.induct) auto

lemma after_reference_percent: "after_reference s = Some s' \<Longrightarrow> CHR ''%'' \<in> set s"
  by (induction s rule: after_reference.induct) (auto split: if_splits)

lemma drop_references_plain: "CHR ''%'' \<notin> set s \<Longrightarrow> drop_references s = s"
  by (induction s rule: drop_references.induct) (auto split: option.split dest: after_reference_percent)

lemma set_main_option_plain:
  assumes "CHR ''%'' \<notin> set v" shows "set_main_option v = Inr v"
proof -
  have "CHR ''%'' \<notin> set (drop_doubled v)" using assms set_drop_doubled [of v] by blast
  then show ?thesis by (simp add: set_main_option_def drop_references_plain)
qed

section \<open>The database\<close>

record server =
  sv_attempts :: nat
  sv_migrated :: bool
  sv_db :: db

definition connected ::
  "(nat \<Rightarrow> string option) \<Rightarrow> (nat \<Rightarrow> (error, server, 'a) act) \<Rightarrow> (error, server, 'a) act" where
  "connected refuses m s =
     (let s' = s\<lparr>sv_attempts := Suc (sv_attempts s)\<rparr> in
      case refuses (sv_attempts s) of
        Some e \<Rightarrow> (Inl (OperationalError e), s')
      | None \<Rightarrow> m (sv_attempts s) s')"

definition in_database :: "'a db_act \<Rightarrow> (error, server, 'a) act" where
  "in_database m s = (case m (sv_db s) of (r, d) \<Rightarrow> (r, s\<lparr>sv_db := d\<rparr>))"

record 'engine platform =
  pf_refuses :: "nat \<Rightarrow> string option"
  pf_create_engine :: "string \<Rightarrow> error + 'engine"
  pf_upgrade_fails :: "nat \<Rightarrow> string \<Rightarrow> string \<Rightarrow> error option"
  pf_repo_root :: string
  pf_boot :: "nat \<Rightarrow> boot_env"
  pf_lib :: python_lib

text \<open>\<^verbatim>\<open>command.upgrade(cfg, "head")\<close>: there is one revision, the initial schema.\<close>

definition upgrade :: "'engine platform \<Rightarrow> string \<Rightarrow> string \<Rightarrow> nat \<Rightarrow> (error, server, unit) act" where
  "upgrade pf script url n s =
     (case pf_upgrade_fails pf n script url of
        Some e \<Rightarrow> (Inl e, s)
      | None \<Rightarrow>
          if sv_migrated s then (Inr (), s)
          else (case initial_schema (boot_now (pf_boot pf n)) (sv_db s) of
              (Inl e, _) \<Rightarrow> (Inl e, s)
            | (Inr _, d) \<Rightarrow> (Inr (), s\<lparr>sv_migrated := True, sv_db := d\<rparr>)))"

definition apply_schema :: "'engine platform \<Rightarrow> app_settings \<Rightarrow> (error, server, unit) act" where
  "apply_schema pf st =
     bindM (liftM (set_main_option (pf_repo_root pf @ ''/alembic''))) (\<lambda>script.
     bindM (liftM (set_main_option (postgres_sync_dsn st))) (\<lambda>url.
     connected (pf_refuses pf) (upgrade pf script url)))"

definition data_attempt :: "'engine platform \<Rightarrow> app_settings \<Rightarrow> (error, server, unit) act" where
  "data_attempt pf st =
     connected (pf_refuses pf) (\<lambda>n. in_database (request (bootstrap_data (pf_boot pf n) (as_boot st))))"

definition initialize_database :: "'engine platform \<Rightarrow> app_settings \<Rightarrow> (error, server, 'engine) act" where
  "initialize_database pf st =
     bindM (liftM (pf_create_engine pf (postgres_async_dsn st))) (\<lambda>engine.
     bindM (run_with_db_retry 20 (apply_schema pf st)) (\<lambda>_.
     bindM (run_with_db_retry 20 (data_attempt pf st)) (\<lambda>_.
     returnM engine)))"

section \<open>The application and the worker process\<close>

record 'engine api_app =
  app_title :: string
  app_lifespan :: "worker_manager option"
  app_engine :: 'engine
  app_vm_publisher :: string
  app_vm_image_sync_port :: "string \<times> int"
  app_vm_image_catalog :: vm_image_catalog
  app_console_tickets :: ticket_store
  app_routers :: "string list"

definition registered_routers :: "string list" where
  "registered_routers = [''auth'', ''audit'', ''role'', ''user'', ''tenant'', ''image'', ''legacy_image'',
     ''instance'', ''task'']"

definition worker_specs :: "app_settings \<Rightarrow> worker_spec list" where
  "worker_specs st = build_worker_specs (as_outbox_relay_enabled st) (as_task_stale_sweep_interval_seconds st)"

definition create_api_app :: "'engine platform \<Rightarrow> bool \<Rightarrow> app_settings \<Rightarrow> (error, server, 'engine api_app) act" where
  "create_api_app pf include_workers st =
     bindM (liftM (load_vm_image_catalog (pf_lib pf) (as_catalog st))) (\<lambda>catalog.
     bindM (initialize_database pf st) (\<lambda>engine.
     returnM \<lparr>app_title = as_app_name st,
       app_lifespan = (if include_workers then Some (manager_of (worker_specs st)) else None),
       app_engine = engine, app_vm_publisher = rabbitmq_dsn st,
       app_vm_image_sync_port = (rabbitmq_dsn st, as_vm_command_timeout_seconds st),
       app_vm_image_catalog = catalog, app_console_tickets = no_tickets, app_routers = registered_routers\<rparr>))"

text \<open>The worker process waits for a signal between the two; \<^verbatim>\<open>start_all\<close> is outside its \<^verbatim>\<open>try\<close>.\<close>

datatype process_end = Database_failed error | Workers_failed start_error | Signalled

definition run_worker_process ::
  "'engine platform \<Rightarrow> worker_world \<Rightarrow> app_settings \<Rightarrow> server \<Rightarrow> process_end \<times> worker_call list \<times> server" where
  "run_worker_process pf w st s =
     (case initialize_database pf st s of
        (Inl e, s') \<Rightarrow> (Database_failed e, [], s')
      | (Inr _, s') \<Rightarrow>
          (case start_all w (manager_of (worker_specs st)) of
             (Inl e, m) \<Rightarrow> (Workers_failed e, wm_calls m, s')
           | (Inr _, m) \<Rightarrow> (Signalled, wm_calls (stop_all w m), s')))"

section \<open>Attempts\<close>

definition rolls_back :: "(nat \<Rightarrow> (error, server, 'a) act) \<Rightarrow> bool" where
  "rolls_back m \<longleftrightarrow> (\<forall>n s e s'. m n s = (Inl e, s') \<longrightarrow> s' = s)"

abbreviation later :: "nat \<Rightarrow> server \<Rightarrow> server" where
  "later k s \<equiv> s\<lparr>sv_attempts := sv_attempts s + k\<rparr>"

lemma failed_attempts:
  assumes "rolls_back m"
    "\<forall>j < k. unreachable (connected refuses m) (after_attempts (connected refuses m) j s)"
  shows "after_attempts (connected refuses m) k s = later k s"
  using assms(2)
proof (induction k arbitrary: s)
  case (Suc k)
  have "unreachable (connected refuses m) s" using Suc.prems by force
  then obtain e s' where e: "connected refuses m s = (Inl e, s')"
    by (cases "connected refuses m s") (auto simp: unreachable_def split: sum.splits)
  then have "s' = later 1 s"
    using assms(1) by (auto simp: connected_def rolls_back_def Let_def split: option.splits)
  then have one: "snd (connected refuses m s) = later 1 s" using e by simp
  have "\<forall>j < k. unreachable (connected refuses m) (after_attempts (connected refuses m) j (snd (connected refuses m s)))"
    using Suc.prems by (auto dest: spec [of _ "Suc _"])
  from Suc.IH [OF this] show ?case by (simp add: one)
qed simp

text \<open>The attempt that decides, the first that is not a lost connection or else the twentieth.\<close>

lemma retry_connected:
  assumes "rolls_back m"
  obtains k where "k < 20" "run_with_db_retry 20 (connected refuses m) s = connected refuses m (later k s)"
    "\<And>j. j < k \<Longrightarrow> unreachable (connected refuses m) (later j s)"
    "unreachable (connected refuses m) (later k s) \<Longrightarrow> k = 19"
proof -
  obtain k where k: "k \<le> nat (20 - 1)"
      "\<forall>j < k. unreachable (connected refuses m) (after_attempts (connected refuses m) j s)"
      "unreachable (connected refuses m) (after_attempts (connected refuses m) k s) \<longrightarrow> k = nat (20 - 1)"
      "retry_loop [1..20] 20 (connected refuses m) s = connected refuses m (after_attempts (connected refuses m) k s)"
    using retry_loop_run [of 1 20 "connected refuses m" s] by auto
  have same: "after_attempts (connected refuses m) j s = later j s" if "j \<le> k" for j
    using failed_attempts [OF assms, of j refuses s] k(2) that by auto
  show thesis
    by (rule that [of k]) (use k same in \<open>simp_all add: run_with_db_retry_def\<close>)
qed

text \<open>What an operation ends with, it ends with at one attempt on the server as it was; or nothing changed.\<close>

lemma retry_connected_ends:
  assumes "rolls_back m" "run_with_db_retry 20 (connected refuses m) s = (r, s')"
  obtains k where "k < 20" "isl r" "s' = later (Suc k) s" | k where "k < 20" "m (sv_attempts s + k) (later (Suc k) s) = (r, s')"
proof -
  obtain k where k: "k < 20" "connected refuses m (later k s) = (r, s')"
    by (rule retry_connected [OF assms(1), of refuses s]) (use assms(2) in auto)
  show thesis
    by (cases "refuses (sv_attempts s + k)") (use k that [of k] in \<open>auto simp: connected_def Let_def\<close>)
qed

lemma retry_connected_succeeds:
  assumes "rolls_back m"
    "i < 20" "\<And>j. j < i \<Longrightarrow> refuses (sv_attempts s + j) \<noteq> None" "refuses (sv_attempts s + i) = None"
    "m (sv_attempts s + i) (later (Suc i) s) = (Inr x, s')"
  shows "run_with_db_retry 20 (connected refuses m) s = (Inr x, s')"
proof -
  obtain k where k: "k < 20" "run_with_db_retry 20 (connected refuses m) s = connected refuses m (later k s)"
      "\<And>j. j < k \<Longrightarrow> unreachable (connected refuses m) (later j s)"
      "unreachable (connected refuses m) (later k s) \<Longrightarrow> k = 19"
    by (rule retry_connected [OF assms(1), of refuses s]) (rule that)
  have at_i: "connected refuses m (later i s) = (Inr x, s')"
    using assms(4,5) by (simp add: connected_def)
  have "\<not> i < k" using k(3) [of i] at_i by (auto simp: unreachable_def)
  moreover have "\<not> k < i"
  proof
    assume "k < i"
    then have "unreachable (connected refuses m) (later k s)"
      using assms(3) [of k] by (auto simp: unreachable_def connected_def Let_def)
    with k(4) \<open>k < i\<close> assms(2) show False by simp
  qed
  ultimately have "k = i" by simp
  then show ?thesis using k(2) at_i by simp
qed

section \<open>What a start achieves\<close>

definition same_rows :: "server \<Rightarrow> server \<Rightarrow> bool" where
  "same_rows s s' \<longleftrightarrow> sv_migrated s' = sv_migrated s \<and> sv_db s' = sv_db s"

definition migrated_from :: "server \<Rightarrow> server \<Rightarrow> bool" where
  "migrated_from s s' \<longleftrightarrow> sv_migrated s' \<and>
     (if sv_migrated s then sv_db s' = sv_db s else \<exists>now. initial_schema now (sv_db s) = (Inr (), sv_db s'))"

definition started :: "'engine platform \<Rightarrow> app_settings \<Rightarrow> server \<Rightarrow> server \<Rightarrow> bool" where
  "started pf st s s' \<longleftrightarrow> (\<exists>s1 k. migrated_from s s1 \<and> sv_migrated s' \<and>
     request (bootstrap_data (pf_boot pf k) (as_boot st)) (sv_db s1) = (Inr (), sv_db s'))"

lemma started_outcome:
  assumes "started pf st s s'"
  shows "sv_migrated s'" "\<exists>k. prepared (pf_boot pf k) (as_boot st) (sv_db s) (sv_db s')"
    "sv_migrated s \<Longrightarrow> service_step (sv_db s) (sv_db s')"
    "\<not> sv_migrated s \<Longrightarrow> sv_db s = empty_db \<Longrightarrow> st_admin_role (as_boot st) = ''admin'' \<Longrightarrow> first_start (sv_db s')"
proof -
  obtain s1 k where m: "migrated_from s s1" and s': "sv_migrated s'"
    and run: "request (bootstrap_data (pf_boot pf k) (as_boot st)) (sv_db s1) = (Inr (), sv_db s')"
    using assms by (auto simp: started_def)
  have "\<exists>ts. sv_db s1 = (sv_db s)\<lparr>tenants := ts\<rparr>"
  proof (cases "sv_migrated s")
    case True
    then have "sv_db s1 = (sv_db s)\<lparr>tenants := tenants (sv_db s)\<rparr>" using m by (simp add: migrated_from_def)
    then show ?thesis by blast
  next
    case False
    then show ?thesis using m initial_schema_tenants by (fastforce simp: migrated_from_def)
  qed
  then have "prepared (pf_boot pf k) (as_boot st) (sv_db s) (sv_db s')"
    using bootstrap_prepares [OF run] by (auto simp: prepared_def)
  then show "\<exists>k. prepared (pf_boot pf k) (as_boot st) (sv_db s) (sv_db s')" by blast
  show "sv_migrated s'" by (rule s')
  show "service_step (sv_db s) (sv_db s')" if "sv_migrated s"
    using service_step.restarted [OF run] m that by (simp add: migrated_from_def)
  show "first_start (sv_db s')" if "\<not> sv_migrated s" "sv_db s = empty_db" "st_admin_role (as_boot st) = ''admin''"
    using run m that by (auto simp: migrated_from_def first_start_def)
qed

lemma set_main_option_error: "set_main_option v = Inl e \<Longrightarrow> \<not> is_operational e"
  by (auto simp: set_main_option_def split: if_splits)

lemma retry_raise: "\<not> is_operational e \<Longrightarrow> run_with_db_retry 20 (raiseM e) s = (Inl e, s)"
  by (simp add: run_with_db_retry_def upto_rec1)

lemma apply_schema_cases:
  "apply_schema pf st =
     (case set_main_option (pf_repo_root pf @ ''/alembic'') of
        Inl e \<Rightarrow> raiseM e
      | Inr script \<Rightarrow>
          (case set_main_option (postgres_sync_dsn st) of
             Inl e \<Rightarrow> raiseM e
           | Inr url \<Rightarrow> connected (pf_refuses pf) (upgrade pf script url)))"
  by (auto simp: apply_schema_def bindM_run fun_eq_iff split: sum.split)

lemma upgrade_effect:
  "upgrade pf script url n s = (r, s') \<Longrightarrow>
     sv_attempts s' = sv_attempts s \<and> (case r of Inl e \<Rightarrow> s' = s | Inr _ \<Rightarrow> migrated_from s s')"
  by (auto simp: upgrade_def migrated_from_def split: option.splits if_splits prod.splits sum.splits)

lemma upgrade_rolls_back: "rolls_back (upgrade pf script url)"
  using upgrade_effect by (fastforce simp: rolls_back_def)

lemma data_rolls_back: "rolls_back (\<lambda>n. in_database (request (bootstrap_data (env n) st)))"
  by (auto simp: rolls_back_def in_database_def dest: bootstrap_fails split: prod.splits)

lemma retry_schema_effect:
  assumes "run_with_db_retry 20 (apply_schema pf st) s = (r, s')"
  shows "sv_attempts s' \<le> sv_attempts s + 20 \<and> (case r of Inl e \<Rightarrow> same_rows s s' | Inr _ \<Rightarrow> migrated_from s s') \<and>
    (\<forall>e. set_main_option (postgres_sync_dsn st) = Inl e \<longrightarrow> isl r \<and> s' = s)"
proof (cases "set_main_option (pf_repo_root pf @ ''/alembic'')")
  case (Inl e)
  then show ?thesis
    using assms by (auto simp: apply_schema_cases retry_raise [OF set_main_option_error [OF Inl]] same_rows_def)
next
  case script: (Inr script)
  show ?thesis
  proof (cases "set_main_option (postgres_sync_dsn st)")
    case (Inl e)
    then show ?thesis
      using script assms by (auto simp: apply_schema_cases retry_raise [OF set_main_option_error [OF Inl]] same_rows_def)
  next
    case (Inr url)
    then have "run_with_db_retry 20 (connected (pf_refuses pf) (upgrade pf script url)) s = (r, s')"
      using script assms by (simp add: apply_schema_cases)
    then show ?thesis
    proof (rule retry_connected_ends [OF upgrade_rolls_back])
      fix k assume "k < 20" "isl r" "s' = later (Suc k) s"
      then show ?thesis using Inr by (auto simp: same_rows_def isl_def)
    next
      fix k assume "k < 20" "upgrade pf script url (sv_attempts s + k) (later (Suc k) s) = (r, s')"
      then show ?thesis using upgrade_effect [of pf script url "sv_attempts s + k" "later (Suc k) s" r s'] Inr
        by (cases r) (auto simp: same_rows_def migrated_from_def)
    qed
  qed
qed

lemma retry_data_effect:
  assumes "run_with_db_retry 20 (data_attempt pf st) s = (r, s')"
  shows "sv_attempts s' \<le> sv_attempts s + 20 \<and> sv_migrated s' = sv_migrated s \<and>
    (case r of Inl e \<Rightarrow> sv_db s' = sv_db s
     | Inr _ \<Rightarrow> \<exists>k. request (bootstrap_data (pf_boot pf k) (as_boot st)) (sv_db s) = (Inr (), sv_db s'))"
proof (rule retry_connected_ends [OF data_rolls_back assms [unfolded data_attempt_def]])
  fix k assume "k < 20" "isl r" "s' = later (Suc k) s"
  then show ?thesis by (auto simp: isl_def)
next
  fix k assume k: "k < 20"
    "in_database (request (bootstrap_data (pf_boot pf (sv_attempts s + k)) (as_boot st))) (later (Suc k) s) = (r, s')"
  obtain r1 d1 where run: "request (bootstrap_data (pf_boot pf (sv_attempts s + k)) (as_boot st)) (sv_db s) = (r1, d1)" by fastforce
  then have s': "r = r1" "s' = later (Suc k) s\<lparr>sv_db := d1\<rparr>" using k(2) by (auto simp: in_database_def)
  show ?thesis
  proof (cases r1)
    case (Inl e)
    then have "d1 = sv_db s" using run bootstrap_fails by blast
    then show ?thesis using s' k(1) Inl by simp
  next
    case (Inr u)
    then show ?thesis using s' k(1) run by auto
  qed
qed

lemma initialize_database_effect:
  assumes "initialize_database pf st s = (r, s')"
  shows "sv_attempts s' \<le> sv_attempts s + 40 \<and>
    (case r of
       Inl e \<Rightarrow> same_rows s s' \<or> migrated_from s s'
     | Inr engine \<Rightarrow> pf_create_engine pf (postgres_async_dsn st) = Inr engine \<and> started pf st s s') \<and>
    (\<forall>e. set_main_option (postgres_sync_dsn st) = Inl e \<longrightarrow> isl r \<and> s' = s)"
proof (cases "pf_create_engine pf (postgres_async_dsn st)")
  case (Inl e)
  then have "r = Inl e" "s' = s" using assms by (simp_all add: initialize_database_def bindM_run)
  then show ?thesis by (simp add: same_rows_def)
next
  case (Inr engine)
  obtain r1 s1 where 1: "run_with_db_retry 20 (apply_schema pf st) s = (r1, s1)"
    by (cases "run_with_db_retry 20 (apply_schema pf st) s")
  note schema = retry_schema_effect [OF 1]
  show ?thesis
  proof (cases r1)
    case (Inl e)
    then have "r = Inl e" "s' = s1" using assms Inr 1 by (simp_all add: initialize_database_def bindM_run bindM_fail)
    then show ?thesis using schema Inl by simp
  next
    case ok: (Inr u)
    then have url: "set_main_option (postgres_sync_dsn st) \<noteq> Inl e" for e using schema by auto
    obtain r2 s2 where 2: "run_with_db_retry 20 (data_attempt pf st) s1 = (r2, s2)"
      by (cases "run_with_db_retry 20 (data_attempt pf st) s1")
    note data = retry_data_effect [OF 2]
    have from_s: "migrated_from s s1" using schema ok by simp
    show ?thesis
    proof (cases r2)
      case (Inl e)
      then have s': "r = Inl e" "s' = s2"
        using assms Inr 1 2 ok by (simp_all add: initialize_database_def bindM_run bindM_step bindM_fail)
      then have "migrated_from s s'" using from_s data Inl by (simp add: migrated_from_def)
      then show ?thesis using schema data s' url by simp
    next
      case done2: (Inr v)
      then have s': "r = Inr engine" "s' = s2"
        using assms Inr 1 2 ok by (simp_all add: initialize_database_def bindM_run bindM_step)
      then have "started pf st s s'" using from_s data done2 by (auto simp: started_def migrated_from_def)
      then show ?thesis using schema data s' url Inr by simp
    qed
  qed
qed

text \<open>
  C36: however the creation of the application ends, it has tried the database at most
  forty times.  An application it returns has a well-formed engine and catalog, and the database has
  the schema, the default tenant, active, the capacity and the default quota as configured and the configured
  user, and is otherwise as it was: an empty database has had its first start, a migrated one a restart.
  When it raises the database is unchanged, or has the schema and nothing else.  When the image
  catalog is wrong, or the database URL has a percent sign that the configuration of Alembic does not take,
  as in any percent-encoded password, it always raises and the database has not even been contacted.
\<close>

theorem create_api_app_outcome:
  assumes "create_api_app pf include_workers st s = (r, s')"
  shows "sv_attempts s' \<le> sv_attempts s + 40 \<and>
    (case r of
       Inl e \<Rightarrow> same_rows s s' \<or> migrated_from s s'
     | Inr app \<Rightarrow> load_vm_image_catalog (pf_lib pf) (as_catalog st) = Inr (app_vm_image_catalog app) \<and>
         pf_create_engine pf (postgres_async_dsn st) = Inr (app_engine app) \<and>
         app_lifespan app = (if include_workers then Some (manager_of (worker_specs st)) else None) \<and>
         sv_migrated s' \<and> (\<exists>k. prepared (pf_boot pf k) (as_boot st) (sv_db s) (sv_db s')) \<and>
         (if sv_migrated s then service_step (sv_db s) (sv_db s')
          else sv_db s = empty_db \<longrightarrow> st_admin_role (as_boot st) = ''admin'' \<longrightarrow> first_start (sv_db s'))) \<and>
    (\<forall>e. load_vm_image_catalog (pf_lib pf) (as_catalog st) = Inl e \<longrightarrow> r = Inl e \<and> s' = s) \<and>
    (\<forall>e. set_main_option (postgres_sync_dsn st) = Inl e \<longrightarrow> isl r \<and> s' = s)"
proof (cases "load_vm_image_catalog (pf_lib pf) (as_catalog st)")
  case (Inl e)
  then have "r = Inl e" "s' = s" using assms by (simp_all add: create_api_app_def bindM_run)
  then show ?thesis using Inl by (simp add: same_rows_def)
next
  case (Inr catalog)
  obtain r1 s1 where 1: "initialize_database pf st s = (r1, s1)" by (cases "initialize_database pf st s")
  note init = initialize_database_effect [OF 1]
  show ?thesis
  proof (cases r1)
    case (Inl e)
    then have "r = Inl e" "s' = s1" using assms 1 Inr by (simp_all add: create_api_app_def bindM_run bindM_fail)
    then show ?thesis using init Inl Inr by simp
  next
    case ok: (Inr engine)
    then have s': "s' = s1" and start: "started pf st s s'"
      using assms 1 init Inr by (auto simp: create_api_app_def bindM_run bindM_step)
    then show ?thesis using assms 1 init Inr ok started_outcome [OF start]
      by (auto simp: create_api_app_def bindM_run bindM_step)
  qed
qed

lemma initialize_database_succeeds:
  assumes "pf_create_engine pf (postgres_async_dsn st) = Inr engine"
    "set_main_option (pf_repo_root pf @ ''/alembic'') = Inr script" "set_main_option (postgres_sync_dsn st) = Inr url"
    "i < 20" "\<And>k. k < i \<Longrightarrow> pf_refuses pf (sv_attempts s + k) \<noteq> None" "pf_refuses pf (sv_attempts s + i) = None"
    "upgrade pf script url (sv_attempts s + i) (later (Suc i) s) = (Inr (), up)"
    "j < 20" "\<And>k. k < j \<Longrightarrow> pf_refuses pf (sv_attempts up + k) \<noteq> None" "pf_refuses pf (sv_attempts up + j) = None"
    "request (bootstrap_data (pf_boot pf (sv_attempts up + j)) (as_boot st)) (sv_db up) = (Inr (), d')"
  shows "initialize_database pf st s =
    (Inr engine, up\<lparr>sv_attempts := sv_attempts s + Suc i + Suc j, sv_db := d'\<rparr>)"
proof -
  have at: "sv_attempts up = sv_attempts s + Suc i" using upgrade_effect [OF assms(7)] by simp
  have "run_with_db_retry 20 (connected (pf_refuses pf) (upgrade pf script url)) s = (Inr (), up)"
    by (rule retry_connected_succeeds [where i = i, OF upgrade_rolls_back])
       (use assms(4-7) in simp_all)
  then have 1: "run_with_db_retry 20 (apply_schema pf st) s = (Inr (), up)"
    by (simp add: apply_schema_cases assms(2,3))
  have "run_with_db_retry 20 (data_attempt pf st) up = (Inr (), later (Suc j) up\<lparr>sv_db := d'\<rparr>)"
    unfolding data_attempt_def
    by (rule retry_connected_succeeds [where i = j, OF data_rolls_back])
       (use assms(8-11) in \<open>simp_all add: in_database_def\<close>)
  then show ?thesis using 1 assms(1) at by (simp add: initialize_database_def bindM_run bindM_step)
qed

text \<open>
  C35: a start gets past a database that is not up yet: when one of the first twenty attempts
  finds the server and can upgrade the schema, and one of the twenty that follow it finds the server and
  the configured data is accepted, and the URL is one that Alembic's configuration takes, the
  start succeeds at exactly those attempts.
\<close>

theorem start_waits_for_database:
  assumes "pf_create_engine pf (postgres_async_dsn st) = Inr engine"
    "set_main_option (pf_repo_root pf @ ''/alembic'') = Inr script" "set_main_option (postgres_sync_dsn st) = Inr url"
    "i < 20" "\<And>k. k < i \<Longrightarrow> pf_refuses pf (sv_attempts s + k) \<noteq> None" "pf_refuses pf (sv_attempts s + i) = None"
    "upgrade pf script url (sv_attempts s + i) (later (Suc i) s) = (Inr (), up)"
    "j < 20" "\<And>k. k < j \<Longrightarrow> pf_refuses pf (sv_attempts up + k) \<noteq> None" "pf_refuses pf (sv_attempts up + j) = None"
    "request (bootstrap_data (pf_boot pf (sv_attempts up + j)) (as_boot st)) (sv_db up) = (Inr (), d')"
  shows "initialize_database pf st s =
    (Inr engine, up\<lparr>sv_attempts := sv_attempts s + Suc i + Suc j, sv_db := d'\<rparr>)"
  using assms by (rule initialize_database_succeeds)

text \<open>
  C37: however the worker process ends, by a signal or by a worker that does not start or
  does not get ready, every worker it has started has been stopped, after the last start and in the
  reverse order of starting; on a signal all of them had been started.  If the database could not be
  initialized no worker was touched.  Only when not even the first worker started does it stop
  workers that never ran.
\<close>

theorem worker_process_stops_workers:
  "case run_worker_process pf w st s of (outcome, calls, s') \<Rightarrow>
     case outcome of
       Database_failed e \<Rightarrow> calls = [] \<and> initialize_database pf st s = (Inl e, s')
     | _ \<Rightarrow> \<exists>k cs. k \<le> length (worker_specs st) \<and> no_stop cs \<and>
         returned_starts w [] cs = map ws_name (take k (worker_specs st)) \<and>
         calls = cs @ map (\<lambda>p. Stop_worker (ws_name p))
           (rev (if k = 0 then worker_specs st else take k (worker_specs st))) \<and>
         (outcome = Signalled \<longrightarrow> k = length (worker_specs st))"
proof -
  obtain r s' where 1: "initialize_database pf st s = (r, s')" by (cases "initialize_database pf st s")
  obtain r2 m where 2: "start_all w (manager_of (worker_specs st)) = (r2, m)"
    by (cases "start_all w (manager_of (worker_specs st))")
  obtain k cs where k: "k \<le> length (worker_specs st)" "no_stop cs"
      "returned_starts w [] cs = map ws_name (take k (worker_specs st))"
      "case r2 of
          Inr _ \<Rightarrow> k = length (worker_specs st) \<and> wm_started m = worker_specs st \<and> wm_calls m = cs
        | Inl e \<Rightarrow> wm_started m = [] \<and> wm_calls m = cs @ map (\<lambda>p. Stop_worker (ws_name p))
            (rev (if k = 0 then worker_specs st else take k (worker_specs st)))"
    using start_all_run [where w = w and specs = "worker_specs st"] 2 by auto
  show ?thesis
  proof (cases r)
    case (Inl e)
    then show ?thesis using 1 by (simp add: run_worker_process_def)
  next
    case (Inr engine)
    show ?thesis
    proof (cases r2)
      case (Inl e)
      then have run: "run_worker_process pf w st s = (Workers_failed e, wm_calls m, s')"
        using 1 2 Inr by (simp add: run_worker_process_def)
      show ?thesis unfolding run prod.case process_end.case
        by (intro exI [of _ k] exI [of _ cs]) (use k Inl in simp)
    next
      case ok: (Inr u)
      then have run: "run_worker_process pf w st s = (Signalled, wm_calls (stop_all w m), s')"
        using 1 2 Inr by (simp add: run_worker_process_def)
      have "worker_specs st \<noteq> []" by (simp add: worker_specs_def build_worker_specs_def)
      then show ?thesis unfolding run prod.case process_end.case
        by (intro exI [of _ k] exI [of _ cs]) (use k ok in \<open>simp add: stop_all_def stop_each_run\<close>)
    qed
  qed
qed

section \<open>A start\<close>

text \<open>The database comes up at the fourth attempt.\<close>

definition sample_platform :: "string platform" where
  "sample_platform = \<lparr>pf_refuses = (\<lambda>n. if n < 3 then Some ''connection refused'' else None),
     pf_create_engine = Inr, pf_upgrade_fails = (\<lambda>_ _ _. None), pf_repo_root = ''/app'',
     pf_boot = (\<lambda>n. if n < 4 then sample_boot\<lparr>boot_now := 3000\<rparr> else sample_boot), pf_lib = sample_lib\<rparr>"

definition sample_app :: "string \<Rightarrow> app_settings" where
  "sample_app password = \<lparr>as_app_name = ''main-api'', as_postgres_user = ''cloud'', as_postgres_password = password,
     as_postgres_db = ''private_cloud'', as_postgres_host = ''db'', as_postgres_port = 5432,
     as_rabbitmq_user = ''cloud'', as_rabbitmq_password = ''cloud'', as_rabbitmq_host = ''mq'', as_rabbitmq_port = 5672,
     as_vm_command_timeout_seconds = 120, as_task_stale_sweep_interval_seconds = 15, as_outbox_relay_enabled = True,
     as_catalog = sample_catalog_settings, as_boot = sample_settings\<rparr>"

abbreviation sample_server :: server where
  "sample_server \<equiv> \<lparr>sv_attempts = 0, sv_migrated = False, sv_db = empty_db\<rparr>"

lemma sample_script: "set_main_option (pf_repo_root sample_platform @ ''/alembic'') = Inr ''/app/alembic''"
  by code_simp

lemma int_str_5432: "int_str 5432 = ''5432''"
  by (simp add: int_str_def nat_str.simps dec_digit_def)

lemma sample_url: "set_main_option (postgres_sync_dsn (sample_app ''cloud'')) = Inr (postgres_sync_dsn (sample_app ''cloud''))"
  by (rule set_main_option_plain) (simp add: postgres_sync_dsn_def sample_app_def int_str_5432)

theorem start_waits_for_database_witness:
  "initialize_database sample_platform (sample_app ''cloud'') sample_server =
     (Inr (postgres_async_dsn (sample_app ''cloud'')),
      \<lparr>sv_attempts = 5, sv_migrated = True, sv_db = snd (request (bootstrap_data sample_boot sample_settings) (migrated_db 3000))\<rparr>)"
proof -
  have "request (bootstrap_data sample_boot sample_settings) (migrated_db 3000) =
      (Inr (), snd (request (bootstrap_data sample_boot sample_settings) (migrated_db 3000)))"
    by (simp only: sample_boot_ok [symmetric] prod.collapse)
  with start_waits_for_database [OF _ sample_script sample_url, where s = sample_server and i = 3 and j = 0 and
      up = "\<lparr>sv_attempts = 4, sv_migrated = True, sv_db = migrated_db 3000\<rparr>" and
      d' = "snd (request (bootstrap_data sample_boot sample_settings) (migrated_db 3000))"]
  show ?thesis by (simp add: sample_platform_def sample_app_def upgrade_def initial_schema_empty)
qed

text \<open>The outbox relay does not start.\<close>

definition sample_world :: worker_world where
  "sample_world = \<lparr>ww_outcome = (\<lambda>h c. if c = Start_worker ''outbox-relay'' then Raised else Returned True),
     ww_has_wait = (\<lambda>_. True)\<rparr>"

lemma sample_start:
  "\<exists>s'. initialize_database sample_platform (sample_app ''cloud'') sample_server =
     (Inr (postgres_async_dsn (sample_app ''cloud'')), s')"
proof -
  have "request (bootstrap_data sample_boot sample_settings) (migrated_db 3000) =
      (Inr (), snd (request (bootstrap_data sample_boot sample_settings) (migrated_db 3000)))"
    by (simp only: sample_boot_ok [symmetric] prod.collapse)
  with initialize_database_succeeds [OF _ sample_script sample_url, where s = sample_server and i = 3 and j = 0 and
      up = "\<lparr>sv_attempts = 4, sv_migrated = True, sv_db = migrated_db 3000\<rparr>"]
  show ?thesis by (simp add: sample_platform_def sample_app_def upgrade_def initial_schema_empty)
qed

theorem worker_process_stops_workers_witness:
  "\<exists>s' k cs. run_worker_process sample_platform sample_world (sample_app ''cloud'') sample_server =
     (Workers_failed Worker_raised, cs @ map (\<lambda>p. Stop_worker (ws_name p))
        (rev (if k = 0 then worker_specs (sample_app ''cloud'') else take k (worker_specs (sample_app ''cloud'')))), s') \<and>
     k \<le> 3 \<and> no_stop cs"
proof -
  obtain s' where 1: "initialize_database sample_platform (sample_app ''cloud'') sample_server =
     (Inr (postgres_async_dsn (sample_app ''cloud'')), s')" using sample_start by blast
  have specs: "length (worker_specs (sample_app ''cloud'')) = 3"
    by (simp add: worker_specs_def build_worker_specs_def sample_app_def)
  have "\<exists>m. start_all sample_world (manager_of (worker_specs (sample_app ''cloud''))) = (Inl Worker_raised, m)"
    by (simp add: start_all_def manager_of_def worker_specs_def build_worker_specs_def sample_app_def call_worker_def
        sample_world_def wait_until_ready_def Let_def)
  then obtain calls where "run_worker_process sample_platform sample_world (sample_app ''cloud'') sample_server =
      (Workers_failed Worker_raised, calls, s')" using 1 by (auto simp: run_worker_process_def)
  then have run: "run_worker_process sample_platform sample_world (sample_app ''cloud'') sample_server =
      (Workers_failed Worker_raised, calls, s')" .
  from worker_process_stops_workers [where pf = sample_platform and w = sample_world and st = "sample_app ''cloud''" and
      s = sample_server, unfolded run prod.case process_end.case specs]
  show ?thesis unfolding run by blast
qed

text \<open>A percent-encoded password.\<close>

theorem create_api_app_outcome_witness:
  "isl (fst (create_api_app sample_platform True (sample_app ''p%40ss'') sample_server)) \<and>
   snd (create_api_app sample_platform True (sample_app ''p%40ss'') sample_server) = sample_server"
proof -
  have refused: "set_main_option (postgres_sync_dsn (sample_app ''p%40ss'')) = Inl (ValueError ''invalid interpolation syntax'')"
    by (simp add: set_main_option_def postgres_sync_dsn_def sample_app_def int_str_5432)
  show ?thesis
    using create_api_app_outcome [OF prod.collapse [symmetric], THEN conjunct2, THEN conjunct2, THEN conjunct2,
        rule_format, OF refused, where include_workers = True and s = sample_server and pf = sample_platform] .
qed

end
