(* ===== verification/Worker_Thread.thy ===== *)
theory Worker_Thread
  imports Lifecycle
begin

text \<open>
  The thread of a background worker: \<open>start\<close>, \<open>stop\<close> and the two events they share with
  \<open>_run\<close>, the same in \<^verbatim>\<open>runtime/workers/outbox_relay.py\<close>,
  \<^verbatim>\<open>stale_task_monitor.py\<close> and \<^verbatim>\<open>rabbitmq_result_consumer.py\<close>.  The threads a worker
  has started are listed with whether they are alive; the last one is \<^verbatim>\<open>self._thread\<close>.
  \<open>stop\<close> waits at most five seconds for its thread, so it is two steps, with whatever the
  thread does in between: it may still be alive when \<open>stop\<close> returns.
\<close>

record worker_thread =
  stop_event :: bool
  ready_event :: bool
  alive :: "bool list"
  stopping :: bool

definition new_worker :: worker_thread where
  "new_worker = \<lparr>stop_event = False, ready_event = False, alive = [], stopping = False\<rparr>"

definition thread_is_alive :: "worker_thread \<Rightarrow> bool" where
  "thread_is_alive w \<longleftrightarrow> alive w \<noteq> [] \<and> last (alive w)"

definition start_thread :: "worker_thread \<Rightarrow> worker_thread" where
  "start_thread w =
     (if thread_is_alive w then w
      else w\<lparr>stop_event := False, ready_event := False, alive := alive w @ [True]\<rparr>)"

definition request_stop :: "worker_thread \<Rightarrow> worker_thread" where
  "request_stop w = w\<lparr>stop_event := True, stopping := True\<rparr>"

definition stop_returns :: "worker_thread \<Rightarrow> worker_thread" where
  "stop_returns w = w\<lparr>ready_event := False, stopping := False\<rparr>"

definition thread_gets_ready :: "worker_thread \<Rightarrow> worker_thread" where
  "thread_gets_ready w = w\<lparr>ready_event := True\<rparr>"

definition thread_ends :: "nat \<Rightarrow> worker_thread \<Rightarrow> worker_thread" where
  "thread_ends i w = w\<lparr>alive := (alive w)[i := False]\<rparr>"

text \<open>The application calls one method at a time; a thread ends only after the stop event.\<close>

inductive thread_step :: "worker_thread \<Rightarrow> worker_thread \<Rightarrow> bool" where
  started: "\<not> stopping w \<Longrightarrow> thread_step w (start_thread w)"
| stop_called: "\<not> stopping w \<Longrightarrow> thread_step w (request_stop w)"
| stop_returned: "stopping w \<Longrightarrow> thread_step w (stop_returns w)"
| ready: "i < length (alive w) \<Longrightarrow> alive w ! i \<Longrightarrow> thread_step w (thread_gets_ready w)"
| ended: "i < length (alive w) \<Longrightarrow> alive w ! i \<Longrightarrow> stop_event w \<Longrightarrow> thread_step w (thread_ends i w)"

text \<open>Only the last thread can be alive, and one is until a stop is asked for.\<close>

definition thread_inv :: "worker_thread \<Rightarrow> bool" where
  "thread_inv w \<longleftrightarrow> (\<forall>i. Suc i < length (alive w) \<longrightarrow> \<not> alive w ! i) \<and>
     (alive w \<noteq> [] \<longrightarrow> \<not> stop_event w \<longrightarrow> thread_is_alive w)"

lemma last_dead: "\<not> thread_is_alive w \<Longrightarrow> Suc i = length (alive w) \<Longrightarrow> \<not> alive w ! i"
  by (cases "alive w" rule: rev_cases) (auto simp: thread_is_alive_def)

lemma start_inv:
  assumes "thread_inv w" shows "thread_inv (start_thread w)"
proof (cases "thread_is_alive w")
  case True
  then show ?thesis using assms by (simp add: start_thread_def)
next
  case False
  have "\<not> (alive w @ [True]) ! i" if "Suc i < length (alive w @ [True])" for i
    using that assms last_dead [OF False]
    by (cases "Suc i = length (alive w)") (auto simp: thread_inv_def nth_append)
  moreover have "start_thread w = w\<lparr>stop_event := False, ready_event := False, alive := alive w @ [True]\<rparr>"
    using False by (simp add: start_thread_def)
  ultimately show ?thesis by (simp add: thread_inv_def thread_is_alive_def)
qed

interpretation threads: invariant_system thread_step "\<lambda>w. w = new_worker" thread_inv
proof (unfold_locales, goal_cases)
  case (1 w)
  then show ?case by (simp add: new_worker_def thread_inv_def)
next
  case (2 w w')
  from 2(2) show ?case
  proof cases
    case started
    then show ?thesis using start_inv 2(1) by simp
  next
    case (ended i)
    then show ?thesis using 2(1) by (auto simp: thread_ends_def thread_inv_def nth_list_update)
  qed (use 2(1) in \<open>auto simp: request_stop_def stop_returns_def thread_gets_ready_def thread_inv_def thread_is_alive_def\<close>)
qed

lemma one_thread_alive:
  assumes "thread_step\<^sup>*\<^sup>* new_worker w" "i < length (alive w)" "j < length (alive w)" "alive w ! i" "alive w ! j"
  shows "i = j"
proof -
  have "thread_inv w" by (rule threads.reachable_inv [OF refl assms(1)])
  then have "\<not> Suc i < length (alive w)" "\<not> Suc j < length (alive w)" using assms(4,5) by (auto simp: thread_inv_def)
  then show ?thesis using assms(2,3) by simp
qed

text \<open>
  A worker started again while the thread of the last stop is still running is not running for long:
  the start does nothing, and the only thing left for the thread to do is to end.
\<close>

definition stopped_late :: worker_thread where
  "stopped_late = stop_returns (request_stop (start_thread new_worker))"

lemma restart_is_lost:
  "thread_step\<^sup>*\<^sup>* new_worker stopped_late" "start_thread stopped_late = stopped_late"
  "thread_step (start_thread stopped_late) (thread_ends 0 stopped_late)"
  "\<not> thread_is_alive (thread_ends 0 stopped_late)"
proof -
  have "thread_step new_worker (start_thread new_worker)"
    by (rule thread_step.started) (simp add: new_worker_def)
  moreover have "thread_step (start_thread new_worker) (request_stop (start_thread new_worker))"
    by (rule thread_step.stop_called) (simp add: new_worker_def start_thread_def thread_is_alive_def)
  moreover have "thread_step (request_stop (start_thread new_worker)) stopped_late"
    unfolding stopped_late_def by (rule thread_step.stop_returned) (simp add: request_stop_def)
  ultimately show "thread_step\<^sup>*\<^sup>* new_worker stopped_late" by (meson converse_rtranclp_into_rtranclp rtranclp.rtrancl_refl)
  have late: "alive stopped_late = [True]" "stop_event stopped_late"
    by (simp_all add: stopped_late_def stop_returns_def request_stop_def start_thread_def new_worker_def thread_is_alive_def)
  then show same: "start_thread stopped_late = stopped_late" by (simp add: start_thread_def thread_is_alive_def)
  show "thread_step (start_thread stopped_late) (thread_ends 0 stopped_late)"
    unfolding same by (rule thread_step.ended) (simp_all add: late)
  show "\<not> thread_is_alive (thread_ends 0 stopped_late)"
    by (simp add: thread_ends_def thread_is_alive_def late)
qed

end
