(* ===== verification/Schemas.thy ===== *)
theory Schemas
  imports Bootstrap Image_Catalog Api_Vm
begin

text \<open>
  The constraints that \<^verbatim>\<open>api/schemas\<close> puts on request bodies, as predicates on the
  bodies of the endpoints, and the endpoints behind them: the dependencies of an endpoint come
  first (401, 403), then a body that its schema refuses is answered with 422 and nothing is done.
  What the database stores meets the schemas, whatever is posted.
\<close>

section \<open>The schemas\<close>

text \<open>\<^verbatim>\<open>Field(min_length=lo, max_length=hi)\<close>, and a field that may be absent.\<close>

definition lengths :: "nat \<Rightarrow> nat \<Rightarrow> string \<Rightarrow> bool" where
  "lengths lo hi s \<longleftrightarrow> lo \<le> length s \<and> length s \<le> hi"

definition given :: "('a \<Rightarrow> bool) \<Rightarrow> 'a option \<Rightarrow> bool" where
  "given p x \<longleftrightarrow> (case x of None \<Rightarrow> True | Some v \<Rightarrow> p v)"

definition create_instance_valid :: "create_instance_request \<Rightarrow> bool" where
  "create_instance_valid b \<longleftrightarrow> given (lengths 0 128) (bi_name b) \<and>
     0 < bi_cpu b \<and> 0 < bi_memory_mib b \<and> 0 < bi_disk_gib b \<and> given image_id_ok (bi_image_id b)"

definition update_instance_valid :: "update_instance_request \<Rightarrow> bool" where
  "update_instance_valid b \<longleftrightarrow> 0 < bu_cpu b \<and> 0 < bu_memory_mib b \<and> 0 < bu_disk_gib b"

definition cancel_valid :: "string option \<Rightarrow> bool" where
  "cancel_valid why \<longleftrightarrow> given (lengths 0 512) why"

text \<open>\<^verbatim>\<open>^[a-z0-9][a-z0-9._-]{1,63}$\<close>\<close>

definition tenant_key_ok :: "string \<Rightarrow> bool" where
  "tenant_key_ok s \<longleftrightarrow> lengths 2 64 s \<and> lower_or_digit (hd s) \<and>
     (\<forall>c \<in> set s. lower_or_digit c \<or> c \<in> {CHR ''.'', CHR ''_'', CHR ''-''})"

definition create_tenant_valid :: "create_tenant_request \<Rightarrow> bool" where
  "create_tenant_valid b \<longleftrightarrow> tenant_key_ok (bt_key b) \<and> lengths 1 128 (bt_name b) \<and>
     0 < bt_max_instances b \<and> 0 < bt_max_cpu b \<and> 0 < bt_max_memory_mib b \<and> 0 < bt_max_disk_gib b"

definition update_tenant_valid :: "string option \<Rightarrow> bool" where
  "update_tenant_valid name \<longleftrightarrow> given (lengths 1 128) name"

definition update_quota_valid :: "int \<Rightarrow> int \<Rightarrow> int \<Rightarrow> int \<Rightarrow> bool" where
  "update_quota_valid n c m g \<longleftrightarrow> 0 < n \<and> 0 < c \<and> 0 < m \<and> 0 < g"

definition role_names :: "string list" where
  "role_names = [''admin'', ''operator'', ''viewer'']"

definition create_user_valid :: "create_user_request \<Rightarrow> bool" where
  "create_user_valid b \<longleftrightarrow> lengths 3 64 (bc_username b) \<and> lengths 8 256 (bc_password b) \<and>
     bc_role b \<in> set role_names"

definition update_user_valid :: "update_user_request \<Rightarrow> bool" where
  "update_user_valid b \<longleftrightarrow> given (\<lambda>r. r \<in> set role_names) (bp_role b) \<and> given (lengths 8 256) (bp_password b)"

definition login_valid :: "login_command \<Rightarrow> bool" where
  "login_valid b \<longleftrightarrow> lengths 3 64 (li_username b) \<and> lengths 1 256 (li_password b)"

definition refresh_valid :: "string \<Rightarrow> bool" where
  "refresh_valid token \<longleftrightarrow> 20 \<le> length token"

section \<open>The endpoints behind them\<close>

definition unprocessable :: error where
  "unprocessable = HTTPException 422 ''validation error''"

definition posted :: "api_env \<Rightarrow> string \<Rightarrow> role list \<Rightarrow> bool \<Rightarrow> 'a sess_act \<Rightarrow> 'a sess_act" where
  "posted api token roles ok m = (if ok then m else authorized api token roles (\<lambda>_. raiseM unprocessable))"

definition post_instance :: "api_env \<Rightarrow> string \<Rightarrow> create_instance_request \<Rightarrow> task_accepted sess_act" where
  "post_instance api token body =
     posted api token [operator, admin] (create_instance_valid body) (create_instance api token body)"

definition patch_instance :: "api_env \<Rightarrow> string \<Rightarrow> uuid \<Rightarrow> update_instance_request \<Rightarrow> task_accepted sess_act" where
  "patch_instance api token iid body =
     posted api token [operator, admin] (update_instance_valid body) (update_instance api token iid body)"

definition post_cancel :: "api_env \<Rightarrow> string \<Rightarrow> uuid \<Rightarrow> string option \<Rightarrow> task_accepted sess_act" where
  "post_cancel api token tid why = posted api token [operator, admin] (cancel_valid why) (cancel_task api token tid why)"

definition post_tenant :: "api_env \<Rightarrow> string \<Rightarrow> uuid \<Rightarrow> create_tenant_request \<Rightarrow> tenant_response sess_act" where
  "post_tenant api token new_id body =
     posted api token [admin] (create_tenant_valid body) (create_tenant api token new_id body)"

definition patch_tenant ::
  "api_env \<Rightarrow> string \<Rightarrow> uuid \<Rightarrow> string option \<Rightarrow> bool option \<Rightarrow> tenant_response sess_act" where
  "patch_tenant api token tid name is_active =
     posted api token [admin] (update_tenant_valid name) (update_tenant api token tid name is_active)"

definition patch_quota :: "api_env \<Rightarrow> string \<Rightarrow> uuid \<Rightarrow> int \<Rightarrow> int \<Rightarrow> int \<Rightarrow> int \<Rightarrow> tenant_quota_response sess_act" where
  "patch_quota api token tid n c m g =
     posted api token [admin] (update_quota_valid n c m g) (update_tenant_quota api token tid n c m g)"

definition post_user ::
  "(string \<Rightarrow> string) \<Rightarrow> api_env \<Rightarrow> string \<Rightarrow> uuid \<Rightarrow> create_user_request \<Rightarrow> user_response sess_act" where
  "post_user hash api token new_id body =
     posted api token [admin] (create_user_valid body) (create_user_endpoint hash api token new_id body)"

definition patch_user ::
  "(string \<Rightarrow> string) \<Rightarrow> api_env \<Rightarrow> string \<Rightarrow> uuid \<Rightarrow> update_user_request \<Rightarrow> user_response sess_act" where
  "patch_user hash api token uid body =
     posted api token [admin] (update_user_valid body) (update_user_endpoint hash api token uid body)"

definition post_login :: "api_env \<Rightarrow> login_command \<Rightarrow> access_token_response sess_act" where
  "post_login api body = (if login_valid body then login api body else raiseM unprocessable)"

definition post_refresh :: "api_env \<Rightarrow> refresh_token_command \<Rightarrow> access_token_response sess_act" where
  "post_refresh api body =
     (if refresh_valid (rf_refresh_token body) then refresh api body else raiseM unprocessable)"

text \<open>Logout asks for any active user.\<close>

definition post_logout :: "api_env \<Rightarrow> string \<Rightarrow> string \<Rightarrow> unit sess_act" where
  "post_logout api token refresh_token =
     (if refresh_valid refresh_token then logout api token refresh_token
      else bindM (db_op (get_current_user (api_auth api) (ae_now (api_audit api)) token)) (\<lambda>_. raiseM unprocessable))"

lemma request_raise: "request (raiseM e) d = (Inl e, d)"
  by (simp add: request_def)

lemma posted_refused:
  assumes "request (posted api token roles False m) d = (r, d')"
  shows "d' = d \<and> (\<exists>e. r = Inl e \<and> ((\<exists>u. admitted api token roles d u) \<longrightarrow> e = unprocessable))"
proof -
  have run: "request (authorized api token roles (\<lambda>_. raiseM unprocessable :: 'a sess_act)) d = (r, d')"
    using assms by (simp add: posted_def)
  show ?thesis
  proof (cases "\<exists>u. admitted api token roles d u")
    case True
    then obtain u where u: "admitted api token roles d u" by blast
    then have "request (authorized api token roles (\<lambda>_. raiseM unprocessable :: 'a sess_act)) d =
        request (raiseM unprocessable) d"
      by (simp add: authorized_def admitted_def request_lift require_roles_def
          request_read [of "get_current_user (api_auth api) (ae_now (api_audit api)) token"])
    then show ?thesis using run by (simp add: request_raise)
  next
    case False
    then show ?thesis using request_authorized [OF run] by blast
  qed
qed

section \<open>What is stored\<close>

definition stored_ok :: "db \<Rightarrow> bool" where
  "stored_ok d \<longleftrightarrow> (\<forall>t \<in> set (tenants d). tenant_key_ok (ten_key t) \<and> lengths 1 128 (ten_name t)) \<and>
     (\<forall>q \<in> set (tenant_quotas d). update_quota_valid (max_instances q) (max_cpu q) (max_memory_mib q) (max_disk_gib q) \<and>
        int4 (max_instances q) \<and> int4 (max_cpu q) \<and> int4 (max_memory_mib q) \<and> int4 (max_disk_gib q)) \<and>
     (\<forall>u \<in> set (users d). lengths 3 64 (usr_username u))"

lemma stored_updates [simp]:
  "stored_ok (audit_logs_update f d) = stored_ok d" "stored_ok (refresh_tokens_update g d) = stored_ok d"
  "stored_ok (resource_capacity_update h d) = stored_ok d"
  by (simp_all add: stored_ok_def)

lemma keeps_stored_tenant:
  assumes "tenant_key_ok key" "lengths 1 128 name"
  shows "keeps stored_ok (tenant_create tid now key name act)"
  by (rule keepsI)
     (use assms in \<open>auto simp: tenant_create_def act_simps sql_insert_def raiseM_def stored_ok_def split: option.splits\<close>)

lemma keeps_stored_tenant_update:
  assumes "given (lengths 1 128) name"
  shows "keeps stored_ok (tenant_update now tid name act)"
  by (rule keepsI)
     (use assms in \<open>auto simp: tenant_update_run stored_ok_def set_update_where set_tenant_def given_def split: option.splits\<close>)

lemma keeps_stored_quota:
  assumes "update_quota_valid n c m g"
  shows "keeps stored_ok (quota_upsert now tid n c m g)"
  by (rule keepsI)
     (use assms in \<open>auto simp: quota_upsert_def act_simps Let_def guardM_def bindM_def quo_t.update_one_run sql_insert_def
        raiseM_def returnM_def stored_ok_def set_update_where split: option.splits if_splits\<close>)

lemma keeps_stored_user:
  assumes "lengths 3 64 n"
  shows "keeps stored_ok (create_user uid now n h r act tid)"
proof (rule keepsI)
  fix d res d' assume ok: "stored_ok d" and run: "create_user uid now n h r act tid d = (res, d')"
  show "stored_ok d'"
  proof (cases res)
    case (Inl e)
    then show ?thesis using ok create_user_fail run by blast
  next
    case (Inr u)
    then have "usr_username u = n" "d' = users_update (\<lambda>us. us @ [u]) d" using create_user_ok run by blast+
    then show ?thesis using ok assms by (simp add: stored_ok_def)
  qed
qed

lemma keeps_stored_user_update: "keeps stored_ok (update_user now uid r act h tid)"
proof (rule keepsI)
  fix d res d' assume ok: "stored_ok d" and run: "update_user now uid r act h tid d = (res, d')"
  show "stored_ok d'"
  proof (cases res)
    case (Inl e)
    then show ?thesis using ok update_user_fail run by blast
  next
    case (Inr u)
    then obtain rl where "d' = users_update (update_where (\<lambda>m. usr_id m = uid) (set_user now rl act h tid)) d"
      using run by (blast elim: update_user_ok)
    then show ?thesis using ok by (auto simp: stored_ok_def set_update_where set_user_def Let_def)
  qed
qed

lemma keeps_stored_frame:
  "keeps stored_ok (audit_write env e)" "keeps stored_ok (revoke_all_for_user now k)"
  "keeps stored_ok (user_get_by_id k)" "keeps stored_ok (tenant_get k)" "keeps stored_ok (quota_get k)"
  "keeps stored_ok (get_usage k)"
proof -
  show "keeps stored_ok (audit_write env e)" by (rule keeps_audit_frame) simp
  show "keeps stored_ok (revoke_all_for_user now k)" by (rule keeps_tokens) simp
  show "keeps stored_ok (user_get_by_id k)" "keeps stored_ok (tenant_get k)" "keeps stored_ok (quota_get k)"
    by (simp_all add: user_get_by_id_def tenant_get_def quota_get_def keeps_sql_read)
  show "keeps stored_ok (get_usage k)"
    unfolding get_usage_def by (intro keeps_bindM keeps_sql_read keeps_basic keeps_case_option)
qed

lemmas keeps_stored = keeps_transact keeps_bindM keeps_basic keeps_mapErrM keeps_if keeps_case_option
  keeps_guard_last_admin keeps_commit keeps_db_op keeps_stored_frame keeps_stored_user_update

lemma tenant_handlers_stored:
  "tenant_key_ok (ct_key c) \<Longrightarrow> lengths 1 128 (ct_name c) \<Longrightarrow>
     update_quota_valid (ct_max_instances c) (ct_max_cpu c) (ct_max_memory_mib c) (ct_max_disk_gib c) \<Longrightarrow>
     keeps (both stored_ok) (create_tenant_handle env tid c)"
  "given (lengths 1 128) (ut_name u) \<Longrightarrow> keeps (both stored_ok) (update_tenant_handle env u)"
  "update_quota_valid (uq_max_instances q) (uq_max_cpu q) (uq_max_memory_mib q) (uq_max_disk_gib q) \<Longrightarrow>
     keeps (both stored_ok) (update_tenant_quota_handle env q)"
  unfolding create_tenant_handle_def update_tenant_handle_def update_tenant_quota_handle_def
  by (intro keeps_stored keeps_stored_tenant keeps_stored_tenant_update keeps_stored_quota; assumption)+

lemma user_handlers_stored:
  "lengths 3 64 (cu_username c) \<Longrightarrow> keeps (both stored_ok) (create_user_handle hash env uid c)"
  "keeps (both stored_ok) (update_user_handle hash env u)" "keeps (both stored_ok) (deactivate_user_handle env v)"
  unfolding create_user_handle_def update_user_handle_def deactivate_user_handle_def Let_def
  by (intro keeps_stored keeps_stored_user; assumption)+

lemma auth_handlers_stored:
  "keeps (both stored_ok) (login_handle ax env lcmd)" "keeps (both stored_ok) (refresh_handle ax env rcmd)"
  by (rule auth_handlers_keep; simp)+

section \<open>The service behind its schemas\<close>

text \<open>What the settings of a start must be for the rows it writes to meet the schemas too.\<close>

definition settings_valid :: "settings \<Rightarrow> bool" where
  "settings_valid st \<longleftrightarrow> lengths 3 64 (st_admin_username st) \<and>
     update_quota_valid (st_total_instances st) (st_total_cpu st) (st_total_memory_mib st) (st_total_disk_gib st)"

inductive posted_step :: "db \<Rightarrow> db \<Rightarrow> bool" where
  tenant_posted: "request (post_tenant api token new_id tbody) d = (r1, d') \<Longrightarrow> posted_step d d'"
| tenant_patched: "request (patch_tenant api token tid name act) d = (r2, d') \<Longrightarrow> posted_step d d'"
| quota_patched: "request (patch_quota api token tid n c m g) d = (r3, d') \<Longrightarrow> posted_step d d'"
| tenant_deleted: "deletes_tenant del \<Longrightarrow> request (delete_tenant del api token tid) d = (r4, d') \<Longrightarrow> posted_step d d'"
| user_posted: "request (post_user hash api token new_id cbody) d = (r5, d') \<Longrightarrow> posted_step d d'"
| user_patched: "request (patch_user hash api token uid ubody) d = (r6, d') \<Longrightarrow> posted_step d d'"
| user_deleted: "request (deactivate_user api token uid) d = (r7, d') \<Longrightarrow> posted_step d d'"
| login_posted: "request (post_login api lbody) d = (r8, d') \<Longrightarrow> posted_step d d'"
| refresh_posted: "request (post_refresh api rbody) d = (r9, d') \<Longrightarrow> posted_step d d'"
| logout_posted: "request (post_logout api token rt) d = (r10, d') \<Longrightarrow> posted_step d d'"
| restarted: "settings_valid st \<Longrightarrow> request (bootstrap_data env st) d = (r11, d') \<Longrightarrow> posted_step d d'"

lemma posted_keeps:
  assumes "request (posted api token roles ok (authorized api token roles m)) d = (r, d')" "stored_ok d"
    "\<And>u. ok \<Longrightarrow> keeps (both stored_ok) (m u)"
  shows "stored_ok d'"
proof (cases ok)
  case True
  then have "request (authorized api token roles m) d = (r, d')" using assms(1) by (simp add: posted_def)
  from request_authorized [OF this] show ?thesis using keeps_request [OF assms(3) [OF True]] assms(2) by blast
next
  case False
  then show ?thesis
    using posted_refused [of api token roles "authorized api token roles m" d r d'] assms(1,2) by simp
qed

lemma authorized_keeps:
  assumes "request (authorized api token roles m) d = (r, d')" "stored_ok d" "\<And>u. keeps (both stored_ok) (m u)"
  shows "stored_ok d'"
  by (rule posted_keeps [where ok = True, OF _ assms(2)]) (use assms(1,3) in \<open>simp_all add: posted_def\<close>)

lemma keeps_get_current_user: "keeps stored_ok (get_current_user ax now token)"
  by (rule keepsI) (use get_current_user_run in blast)

lemma keeps_logout: "keeps (both stored_ok) (logout api token rt)"
  unfolding logout_def logout_handle_def Let_def get_active_by_hash_def
  by (intro keeps_stored keeps_get_current_user keeps_tokens keeps_sql_read) simp

lemma default_tenant_stored: "tenant_key_ok default_tenant_key" "lengths (Suc 0) 128 default_tenant_name"
  by code_simp+

lemma keeps_stored_default: "keeps stored_ok (tenant_upsert now)"
  by (rule keepsI)
     (auto simp: tenant_upsert_def act_simps stored_ok_def set_update_where default_tenant_stored split: option.splits)

lemma keeps_stored_capacity: "keeps stored_ok (capacity_upsert st)"
  by (rule keepsI)
     (auto simp: capacity_upsert_def act_simps bindM_run Let_def split: option.splits if_splits)

lemma keeps_case_error:
  "keeps P m \<Longrightarrow> (\<And>e. keeps P (h e)) \<Longrightarrow> keeps P (case e of ConflictError x \<Rightarrow> m | _ \<Rightarrow> h e)"
  by (cases e) simp_all

lemma bootstrap_stored:
  assumes "settings_valid st"
  shows "keeps stored_ok (bootstrap_body env st)"
proof -
  have q: "keeps stored_ok (quota_upsert now tid (st_total_instances st) (st_total_cpu st) (st_total_memory_mib st) (st_total_disk_gib st))"
    for now tid
    by (rule keeps_stored_quota) (use assms in \<open>simp add: settings_valid_def\<close>)
  have u: "keeps stored_ok (create_user uid now (st_admin_username st) h r act tid)" for uid now h r act tid
    by (rule keeps_stored_user) (use assms in \<open>simp add: settings_valid_def\<close>)
  show ?thesis
    unfolding bootstrap_body_def ensure_user_def user_get_by_username_def
    by (intro keeps_stored keeps_catchM keeps_sql_read keeps_stored_default keeps_stored_capacity q u keeps_case_error)
qed

lemma restart_stored:
  "settings_valid st \<Longrightarrow> request (bootstrap_data env st) d = (r, d') \<Longrightarrow> stored_ok d \<Longrightarrow> stored_ok d'"
  using keeps_request [OF keeps_transact [OF bootstrap_stored]] by (auto simp: bootstrap_data_def)

lemma posted_step_stored: "posted_step d d' \<Longrightarrow> stored_ok d \<Longrightarrow> stored_ok d'"
proof (induction rule: posted_step.induct)
  case (tenant_posted api token new_id tbody d r1 d')
  show ?case
    by (rule posted_keeps [OF tenant_posted(1) [unfolded post_tenant_def create_tenant_def] tenant_posted(2)],
        rule keeps_answer, rule keeps_mapErrM, rule tenant_handlers_stored) (simp_all add: create_tenant_valid_def update_quota_valid_def)
next
  case (tenant_patched api token tid name act d r2 d')
  show ?case
    by (rule posted_keeps [OF tenant_patched(1) [unfolded patch_tenant_def update_tenant_def] tenant_patched(2)],
        rule keeps_answer, rule keeps_mapErrM, rule tenant_handlers_stored) (simp add: update_tenant_valid_def)
next
  case (quota_patched api token tid n c m g d r3 d')
  show ?case
    by (rule posted_keeps [OF quota_patched(1) [unfolded patch_quota_def update_tenant_quota_def] quota_patched(2)],
        rule keeps_answer, rule keeps_mapErrM, rule tenant_handlers_stored) simp
next
  case (tenant_deleted del api token tid d r4 d')
  from endpoint_cases [OF tenant_deleted(2) [unfolded delete_tenant_def]] show ?case
    using delete_tenant_fails [OF tenant_deleted(1)] tenant_deleted(3) by (metis prod.inject)
next
  case (user_posted hash api token new_id cbody d r5 d')
  show ?case
    by (rule posted_keeps [OF user_posted(1) [unfolded post_user_def create_user_endpoint_def] user_posted(2)],
        rule keeps_answer, rule keeps_mapErrM, rule user_handlers_stored) (simp add: create_user_valid_def)
next
  case (user_patched hash api token uid ubody d r6 d')
  show ?case
    by (rule posted_keeps [OF user_patched(1) [unfolded patch_user_def update_user_endpoint_def] user_patched(2)],
        rule keeps_answer, rule keeps_mapErrM, rule user_handlers_stored)
next
  case (user_deleted api token uid d r7 d')
  show ?case
    by (rule authorized_keeps [OF user_deleted(1) [unfolded deactivate_user_def] user_deleted(2)],
        rule keeps_mapErrM, rule user_handlers_stored)
next
  case (login_posted api lbody d r8 d')
  have "keeps (both stored_ok) (post_login api lbody)"
    unfolding post_login_def login_def by (intro keeps_if keeps_answer keeps_mapErrM keeps_basic auth_handlers_stored)
  from keeps_request [OF this login_posted(2,1)] show ?case .
next
  case (refresh_posted api rbody d r9 d')
  have "keeps (both stored_ok) (post_refresh api rbody)"
    unfolding post_refresh_def refresh_def by (intro keeps_if keeps_answer keeps_mapErrM keeps_basic auth_handlers_stored)
  from keeps_request [OF this refresh_posted(2,1)] show ?case .
next
  case (logout_posted api token rt d r10 d')
  have "keeps (both stored_ok) (post_logout api token rt)"
    unfolding post_logout_def
    by (intro keeps_if keeps_logout keeps_bindM keeps_db_op keeps_get_current_user keeps_basic)
  from keeps_request [OF this logout_posted(2,1)] show ?case .
next
  case (restarted st env d r11 d')
  then show ?case by (blast intro: restart_stored)
qed

definition valid_start :: "db \<Rightarrow> bool" where
  "valid_start d \<longleftrightarrow> (\<exists>now d0 env st. settings_valid st \<and> initial_schema now empty_db = (Inr (), d0) \<and>
     request (bootstrap_data env st) d0 = (Inr (), d))"

lemma migrated_stored: "stored_ok (migrated_db now)"
  by (simp add: stored_ok_def migrated_db_def empty_db_def default_row_def tenant_key_ok_def lengths_def lower_or_digit_def
      default_tenant_key_def default_tenant_name_def)

interpretation posts: invariant_system posted_step valid_start stored_ok
proof (unfold_locales, goal_cases)
  case (1 s)
  then show ?case using restart_stored migrated_stored by (auto simp: valid_start_def initial_schema_empty)
next
  case (2 s s')
  then show ?case using posted_step_stored by blast
qed

text \<open>
  C7: whatever bodies are posted, the tables hold only what the schemas admit: well-formed tenant keys
  and names, positive quotas that fit their columns, user names of 3 to 64 characters; provided that
  the settings of the first start and of every restart keep to these bounds (\<open>settings_valid\<close>),
  which the code does not check: the default tenant's quota and the first user's name come from them.
\<close>

theorem stored_rows_meet_schemas:
  assumes "valid_start d0" "posted_step\<^sup>*\<^sup>* d0 d"
  shows "(\<forall>t \<in> set (tenants d). tenant_key_ok (ten_key t) \<and> lengths 1 128 (ten_name t)) \<and>
    (\<forall>q \<in> set (tenant_quotas d). \<forall>limit \<in> {max_instances q, max_cpu q, max_memory_mib q, max_disk_gib q}.
       0 < limit \<and> limit \<le> 2147483647) \<and>
    (\<forall>u \<in> set (users d). lengths 3 64 (usr_username u))"
  using posts.reachable_inv [OF assms] by (simp add: stored_ok_def update_quota_valid_def int4_def)

theorem stored_rows_meet_schemas_witness:
  "let d0 = snd (request (bootstrap_data sample_boot sample_settings) (migrated_db 3000));
       d = snd (request (post_tenant sample_api sample_bearer 7 \<lparr>bt_key = ''x'', bt_name = [], bt_is_active = True,
         bt_max_instances = 0, bt_max_cpu = -1, bt_max_memory_mib = 1, bt_max_disk_gib = 1\<rparr>) d0) in
     \<forall>t \<in> set (tenants d). tenant_key_ok (ten_key t)"
proof -
  let ?d0 = "snd (request (bootstrap_data sample_boot sample_settings) (migrated_db 3000))"
  let ?b = "\<lparr>bt_key = ''x'', bt_name = [], bt_is_active = True, bt_max_instances = 0, bt_max_cpu = -1,
     bt_max_memory_mib = 1, bt_max_disk_gib = 1\<rparr>"
  have "request (bootstrap_data sample_boot sample_settings) (migrated_db 3000) = (Inr (), ?d0)"
    by (simp only: sample_boot_ok [symmetric] prod.collapse)
  moreover have "settings_valid sample_settings"
    by (simp add: settings_valid_def sample_settings_def lengths_def update_quota_valid_def)
  ultimately have "valid_start ?d0" unfolding valid_start_def using initial_schema_empty by blast
  moreover have "posted_step\<^sup>*\<^sup>* ?d0 (snd (request (post_tenant sample_api sample_bearer 7 ?b) ?d0))"
    by (intro r_into_rtranclp posted_step.tenant_posted [OF prod.collapse [symmetric]])
  ultimately show ?thesis unfolding Let_def using stored_rows_meet_schemas by blast
qed

end
