(* ===== verification/Service.thy ===== *)
theory Service
  imports Resource_Sizes Schemas
begin

text \<open>
  The whole service: requests on instances and tasks, workers (\<open>Api_Vm\<close>), requests on
  tenants, users and sessions, and restarts (\<open>Bootstrap\<close>) interleaved in any order.  Each half
  leaves the tables of the other alone, but for the tenants an instance belongs to, which the
  one refers to and the other only adds: so the invariants of both hold together.
\<close>

section \<open>What the instances and tasks leave alone\<close>

text \<open>The directory is the same, and no instance has come or gone.\<close>

definition in_place :: "db \<Rightarrow> db \<Rightarrow> bool" where
  "in_place d d' \<longleftrightarrow> tenants d' = tenants d \<and> tenant_quotas d' = tenant_quotas d \<and> users d' = users d \<and>
     refresh_tokens d' = refresh_tokens d \<and> map im_id (instances d') = map im_id (instances d)"

lemma in_place_refl [simp]: "in_place d d"
  by (simp add: in_place_def)

lemma in_place_trans: "in_place d d1 \<Longrightarrow> in_place d1 d2 \<Longrightarrow> in_place d d2"
  by (simp add: in_place_def)

lemma in_place_frames:
  "only_instances d d' \<Longrightarrow> in_place d d'" "only_tasks d d' \<Longrightarrow> in_place d d'" "same_messages d d' \<Longrightarrow> in_place d d'"
  using only_instances_frame only_tasks_frame only_outbox_frame by (fastforce simp: in_place_def same_messages_def)+

lemma task_update_in_place: "apply_task_update now op tid d = (Inr t', d') \<Longrightarrow> in_place d d'"
  using pg_task.set_status_ok in_place_frames(2) by blast

lemma revert_in_place:
  assumes "vm_inv d" "task_at d tid = Some t"
    "revert_db inet now (task_instance_id t) (task_cmd t) (task_request_payload t) d = (Inr u, d1)"
  shows "in_place d d1"
proof -
  obtain i' where "only_instances d d1" by (rule revert_settles [OF assms]) blast
  then show ?thesis by (rule in_place_frames)
qed

lemma enqueue_in_place: "enqueue_command nid now topic payload tid rid k d = (Inr m, d') \<Longrightarrow> in_place d d'"
  by (auto simp: enqueue_command_run in_place_def split: option.splits)

lemma clone_in_place: "clone_for_retry src tid rid now d = (Inr t, d') \<Longrightarrow> in_place d d'"
  by (auto simp: clone_for_retry_def sql_insert_def in_place_def split: option.splits)

lemma process_in_place:
  assumes inv: "vm_inv d" and run: "process inet now ev d = (Inr u, d')" and settled: "reports_settled d ev"
  shows "in_place d d'"
proof (cases "\<exists>t. task_at d (ev_task_id ev) = Some t \<and> task_active (task_stat t)")
  case False
  then have "d' = d" using process_idle [OF run] by (auto simp: task_terminal_not_active)
  then show ?thesis by simp
next
  case True
  then obtain t where t: "task_at d (ev_task_id ev) = Some t" "task_active (task_stat t)" by blast
  from run t show ?thesis
  proof (cases rule: process_found)
    case (started t')
    show ?thesis by (rule task_update_in_place [OF started(3)])
  next
    case (succeeded v d1 t')
    have "only_instances d d1" by (rule handle_success_ok [OF succeeded(2) reports_settledD [OF settled t(1) succeeded(1)]])
    then show ?thesis using task_update_in_place [OF succeeded(3)] in_place_frames(1) in_place_trans by blast
  next
    case (canceled v d1 t')
    show ?thesis by (rule in_place_trans [OF revert_in_place [OF inv t(1) canceled(2)] task_update_in_place [OF canceled(3)]])
  next
    case (failed v d1 t')
    show ?thesis by (rule in_place_trans [OF revert_in_place [OF inv t(1) failed(2)] task_update_in_place [OF failed(3)]])
  qed simp
qed

lemma cancel_in_place:
  assumes inv: "vm_inv d" and run: "cancel_task_handle cfg ids cmd d = (Inr r, d')"
  shows "in_place d d'"
  using run
proof (cases rule: cancel_cases)
  case (queued t i u d1 t')
  show ?thesis by (rule in_place_trans [OF revert_in_place [OF inv queued(1,4)] task_update_in_place [OF queued(5)]])
next
  case (running t i t' d1 m payload)
  show ?thesis by (rule in_place_trans [OF task_update_in_place [OF running(4)] enqueue_in_place [OF running(6)]])
qed simp_all

lemma retry_in_place:
  assumes inv: "vm_inv d" and run: "retry_task_handle cfg ids tid d = (Inr r, d')"
  shows "in_place d d'"
  using inv run
proof (cases rule: retry_cases)
  case (1 src i requested u d1 cloned d2 m message)
  have "only_instances d d1" by (rule pg_inst.apply_pending_ok [OF 1(7) [unfolded apply_pending_db_def]])
  then show ?thesis
    using in_place_frames(1) clone_in_place [OF 1(8)] enqueue_in_place [OF 1(9)] in_place_trans by blast
qed

lemma fail_stale_in_place:
  assumes "vm_inv d" "fail_stale inet now limit tid d = (Inr hit, d')"
  shows "in_place d d'"
  using assms(2)
proof (cases rule: fail_stale_cases)
  case (failed t u d1 t')
  show ?thesis by (rule in_place_trans [OF revert_in_place [OF assms(1) failed(2,4)] task_update_in_place [OF failed(5)]])
qed simp

lemma fail_all_in_place:
  "vm_inv d \<Longrightarrow> fail_all_stale inet now limit n tids d = (Inr k, d') \<Longrightarrow> in_place d d'"
proof (induction tids arbitrary: n d)
  case (Cons tid tids)
  obtain hit d1 where d1: "fail_stale inet now limit tid d = (Inr hit, d1)"
      "fail_all_stale inet now limit (if hit then n + 1 else n) tids d1 = (Inr k, d')"
    using Cons.prems(2) by auto
  have "vm_inv d1" by (rule followsD [OF fail_stale_follows [OF Cons.prems(1) d1(1)]])
  from Cons.IH [OF this d1(2)] show ?case using fail_stale_in_place [OF Cons.prems(1) d1(1)] in_place_trans by blast
qed simp

lemma sweep_in_place: "vm_inv d \<Longrightarrow> sweep_once inet now timeout d = (Inr n, d') \<Longrightarrow> in_place d d'"
  using fail_all_in_place
  by (fastforce simp: sweep_once_def Let_def split: if_splits prod.splits sum.splits)

text \<open>Only a create makes an instance, for a tenant that exists.\<close>

definition adds_instance :: "db \<Rightarrow> db \<Rightarrow> bool" where
  "adds_instance d d' \<longleftrightarrow> same_directory d d' \<and>
     (\<exists>k i t. inst_at d k = None \<and> inst_at d' = (inst_at d)(k \<mapsto> i) \<and> tenant_at d (inst_tenant_id i) = Some t)"

lemma tenant_at_exists: "ten_id ` set (tenants d) = {k. tenant_at d k \<noteq> None}"
  by (auto simp: tenant_at_def row_of_None_iff)

lemma instance_create_tenant:
  "instance_create i d = (Inr i', d') \<Longrightarrow> tenant_at d (inst_tenant_id i) \<noteq> None"
  by (auto simp: instance_create_def sql_insert_def instance_violates_def tenant_at_def exists_row_def
      split: option.splits if_splits)

lemma create_adds:
  assumes "vm_inv d" "create_instance_handle cfg ids cmd d = (Inr r, d')"
  shows "adds_instance d d'"
proof -
  define i where "i = \<lparr>inst_id = new_instance_id ids, inst_name = cr_name cmd,
         inst_spec = \<lparr>cpu = cr_cpu cmd, memory_mib = cr_memory_mib cmd, disk_gib = cr_disk_gib cmd\<rparr>,
         inst_status = creating_pending, inst_ip_address = None, inst_host_node = cr_host_node cmd,
         inst_reserve_resources = True, inst_last_task_id = Some (new_task_id ids),
         inst_deleted_at = None, inst_created_at = at_time ids, inst_updated_at = at_time ids,
         inst_tenant_id = cr_tenant_id cmd\<rparr>"
  obtain q u c v i' d0 d1 d2 where q: "require_quota cfg q d = (Inr u, d0)"
    and c: "assert_capacity c d0 = (Inr v, d1)" and i': "instance_create i d1 = (Inr i', d2)"
    using assms(2) by (auto simp: create_instance_handle_def Let_def i_def)
  have "d1 = d" using require_quota_ok [OF q] assert_capacity_ok [OF c] by simp
  then have t: "tenant_at d (cr_tenant_id cmd) \<noteq> None" using instance_create_tenant [OF i'] by (simp add: i_def)
  obtain y rp payload where y: "inst_at d (new_instance_id ids) = None" "inst_tenant_id y = cr_tenant_id cmd"
      "accepts cfg ids (new_instance_id ids) cmd_create rp payload y d r d'"
    using create_instance_effect [OF vm_invD(1) [OF assms(1)] assms(2)] by blast
  have "same_directory d d'" "inst_at d' = (inst_at d)(new_instance_id ids \<mapsto> y)"
    using y(3) by (simp_all add: accepts_def writes_instance_def)
  then show ?thesis using t y(1,2) unfolding adds_instance_def by (intro conjI exI [of _ "new_instance_id ids"] exI [of _ y]) auto
qed

lemma accepts_in_place:
  "accepts cfg ids iid c rp payload i' d r d' \<Longrightarrow> inst_at d iid = Some i \<Longrightarrow> in_place d d'"
  by (simp add: accepts_def writes_instance_def same_directory_def in_place_def)

lemma vm_step_directory:
  assumes step: "vm_step d d'" and inv: "vm_inv d"
  shows "in_place d d' \<or> adds_instance d d'"
  using step
proof cases
  case (create cfg ids ccmd r)
  then show ?thesis using create_adds [OF inv] by blast
next
  case (delete cfg ids iid r)
  then show ?thesis using delete_instance_effect [OF vm_invD(1) [OF inv]] accepts_in_place by blast
next
  case (stop cfg ids iid r)
  then show ?thesis using stop_instance_effect [OF vm_invD(1) [OF inv]] accepts_in_place by blast
next
  case (start cfg ids iid host r)
  then show ?thesis using start_instance_effect [OF vm_invD(1) [OF inv]] accepts_in_place by blast
next
  case (update cfg ids ucmd r)
  then show ?thesis using update_instance_effect [OF vm_invD(1) [OF inv]] accepts_in_place by blast
next
  case (cancel cfg ids kcmd r)
  then show ?thesis using cancel_in_place [OF inv] by blast
next
  case (retry cfg ids tid r)
  then show ?thesis using retry_in_place [OF inv] by blast
next
  case (event inet now ev u)
  then show ?thesis using process_in_place [OF inv] by blast
next
  case (sweep inet now timeout n)
  then show ?thesis using sweep_in_place [OF inv] by blast
next
  case (relay_claim rcfg env k ms)
  then show ?thesis using relay_same_messages(1) [OF inv] in_place_frames(3) by blast
next
  case (relay_dispatch m r' rcfg env k v)
  then show ?thesis using relay_same_messages(2) [OF inv] in_place_frames(3) by blast
qed

section \<open>What the directory and its sessions leave alone\<close>

text \<open>The instances, their tasks and their messages are the same, and no tenant has gone.\<close>

definition plant :: "db \<Rightarrow> db \<Rightarrow> bool" where
  "plant d d' \<longleftrightarrow> instances d' = instances d \<and> instance_tasks d' = instance_tasks d \<and>
     command_outbox d' = command_outbox d \<and> ten_id ` set (tenants d) \<subseteq> ten_id ` set (tenants d')"

lemma plant_refl [simp]: "plant d d"
  by (simp add: plant_def)

lemma plant_updates [simp]:
  "plant d0 (users_update f1 d) = plant d0 d" "plant d0 (refresh_tokens_update f2 d) = plant d0 d"
  "plant d0 (audit_logs_update f3 d) = plant d0 d" "plant d0 (tenant_quotas_update f4 d) = plant d0 d"
  "plant d0 (resource_capacity_update f5 d) = plant d0 d"
  by (simp_all add: plant_def)

lemma plant_tenants [simp]:
  "plant d0 d \<Longrightarrow> plant d0 (tenants_update (\<lambda>ts. ts @ [t]) d)"
  "(\<And>t. ten_id (f t) = ten_id t) \<Longrightarrow> plant d0 (tenants_update (update_where p f) d) = plant d0 d"
proof -
  show "plant d0 d \<Longrightarrow> plant d0 (tenants_update (\<lambda>ts. ts @ [t]) d)" by (auto simp: plant_def)
  assume "\<And>t. ten_id (f t) = ten_id t"
  then have "map ten_id (update_where p f ts) = map ten_id ts" for ts by (rule map_update_where_key)
  then have "ten_id ` set (update_where p f ts) = ten_id ` set ts" for ts by (metis set_map)
  then show "plant d0 (tenants_update (update_where p f) d) = plant d0 d" by (simp add: plant_def)
qed

lemma plant_user_frame: "user_frame (plant d0)"
proof -
  have "keeps (plant d0) (revoke_all_for_user now k)" for now k by (rule keeps_tokens) simp
  then show ?thesis by (simp add: user_frame_def)
qed

lemma keeps_plant_quota: "keeps (plant d0) (quota_upsert now tid n c m g)"
  by (rule keepsI)
     (auto simp: quota_upsert_def act_simps Let_def guardM_def bindM_def quo_t.update_one_run sql_insert_def
        raiseM_def returnM_def split: option.splits if_splits)

lemma keeps_plant_tenants:
  "keeps (plant d0) (tenant_create tid now key name act)" "keeps (plant d0) (tenant_update now tid name2 act2)"
proof -
  show "keeps (plant d0) (tenant_create tid now key name act)"
    by (rule keepsI) (auto simp: tenant_create_def act_simps sql_insert_def raiseM_def split: option.splits)
  show "keeps (plant d0) (tenant_update now tid name2 act2)"
    by (rule keepsI) (auto simp: tenant_update_run set_tenant_def split: option.splits)
qed

lemma keeps_plant_frame:
  "keeps (plant d0) (audit_write env e)" "keeps (plant d0) (tenant_get k)" "keeps (plant d0) (quota_get k)"
  "keeps (plant d0) (get_usage k)"
proof -
  show "keeps (plant d0) (audit_write env e)" by (rule keeps_audit_frame) simp
  show "keeps (plant d0) (tenant_get k)" "keeps (plant d0) (quota_get k)"
    by (simp_all add: tenant_get_def quota_get_def keeps_sql_read)
  show "keeps (plant d0) (get_usage k)"
    unfolding get_usage_def by (intro keeps_bindM keeps_sql_read keeps_basic keeps_case_option)
qed

lemmas keeps_plant = keeps_transact keeps_bindM keeps_basic keeps_mapErrM keeps_if keeps_case_option
  keeps_commit keeps_db_op keeps_plant_frame keeps_plant_tenants keeps_plant_quota

lemma handlers_plant:
  "keeps (both (plant d0)) (create_tenant_handle env tid c)" "keeps (both (plant d0)) (update_tenant_handle env u)"
  "keeps (both (plant d0)) (update_tenant_quota_handle env q)" "keeps (both (plant d0)) (logout_handle ax env cmd)"
  unfolding create_tenant_handle_def update_tenant_handle_def update_tenant_quota_handle_def
    logout_handle_def Let_def get_active_by_hash_def
  by (intro keeps_plant keeps_tokens keeps_sql_read; simp)+

lemma endpoint_plant:
  assumes "request (authorized api token roles (\<lambda>u. mapErrM f (m u))) d = (r, d')" "\<And>u. keeps (both (plant d)) (m u)"
  shows "plant d d'"
  using endpoint_cases [OF assms(1)] keeps_request [OF assms(2) plant_refl] by auto

lemma answered_plant:
  assumes "request (authorized api token roles (\<lambda>u. answer g (mapErrM f (m u)))) d = (r, d')"
    "\<And>u. keeps (both (plant d)) (m u)"
  shows "plant d d'"
  using answered_cases [OF assms(1)] keeps_request [OF assms(2) plant_refl] by auto

lemma admin_step_plant: "admin_step d d' \<Longrightarrow> plant d d'"
proof (induction rule: admin_step.induct)
  case (tenant_created api token new_id tbody d r1 d')
  show ?case by (rule answered_plant [OF tenant_created [unfolded create_tenant_def] handlers_plant(1)])
next
  case (tenant_updated api token tid name act d r2 d')
  show ?case by (rule answered_plant [OF tenant_updated [unfolded update_tenant_def] handlers_plant(2)])
next
  case (quota_updated api token tid n c m g d r3 d')
  show ?case by (rule answered_plant [OF quota_updated [unfolded update_tenant_quota_def] handlers_plant(3)])
next
  case (tenant_deleted del api token tid d r4 d')
  from endpoint_cases [OF tenant_deleted(2) [unfolded delete_tenant_def]] show ?case
    using delete_tenant_fails [OF tenant_deleted(1)] by (metis plant_refl prod.inject)
next
  case (user_created hash api token new_id cbody d r5 d')
  show ?case
    by (rule answered_plant [OF user_created [unfolded create_user_endpoint_def] user_handlers_keep(1) [OF plant_user_frame]])
next
  case (user_updated hash api token uid ubody d r6 d')
  show ?case
    by (rule answered_plant [OF user_updated [unfolded update_user_endpoint_def] user_handlers_keep(2) [OF plant_user_frame]])
next
  case (user_deactivated api token uid d r7 d')
  show ?case
    by (rule endpoint_plant [OF user_deactivated [unfolded deactivate_user_def] user_handlers_keep(3) [OF plant_user_frame]])
next
  case (logged_in api lbody d r8 d')
  have "keeps (both (plant d)) (login api lbody)"
    unfolding login_def by (intro keeps_answer keeps_mapErrM auth_handlers_keep) simp_all
  from keeps_request [OF this plant_refl logged_in] show ?case .
next
  case (refreshed api rbody d r9 d')
  have "keeps (both (plant d)) (refresh api rbody)"
    unfolding refresh_def by (intro keeps_answer keeps_mapErrM auth_handlers_keep) simp_all
  from keeps_request [OF this plant_refl refreshed] show ?case .
next
  case (logged_out api token rt d r10 d')
  have "keeps (plant d) (get_current_user ax now tok)" for ax now tok
    by (rule keepsI) (use get_current_user_run in blast)
  then have "keeps (both (plant d)) (logout api token rt)"
    unfolding logout_def by (intro keeps_plant handlers_plant)
  from keeps_request [OF this plant_refl logged_out] show ?case .
qed

lemma bootstrap_plant: "keeps (plant d0) (bootstrap_body env st)"
proof -
  have 1: "keeps (plant d0) (tenant_upsert now)" for now
    by (rule keepsI) (auto simp: tenant_upsert_def act_simps split: option.splits)
  have 2: "keeps (plant d0) (capacity_upsert st)"
    by (rule keepsI) (auto simp: capacity_upsert_def act_simps bindM_run Let_def split: option.splits if_splits)
  have 3: "keeps (plant d0) (create_user uid now n h r act tid)" for uid now n h r act tid
    by (rule keepsI, rename_tac d res d', case_tac res) (auto dest!: create_user_fail create_user_ok)
  show ?thesis
    unfolding bootstrap_body_def ensure_user_def user_get_by_username_def
    by (intro keeps_plant keeps_catchM keeps_sql_read 1 2 3 keeps_case_error)
qed

lemma service_step_plant: "service_step d d' \<Longrightarrow> plant d d'"
proof (induction rule: service_step.induct)
  case (requested d d')
  then show ?case by (rule admin_step_plant)
next
  case (restarted env st d r d')
  from keeps_request [OF keeps_transact [OF bootstrap_plant] plant_refl restarted [unfolded bootstrap_data_def]]
  show ?case .
qed

section \<open>Both halves\<close>

text \<open>Every instance belongs to a tenant.\<close>

definition hosted :: "db \<Rightarrow> bool" where
  "hosted d \<longleftrightarrow> (\<forall>k i. inst_at d k = Some i \<longrightarrow> inst_tenant_id i \<in> ten_id ` set (tenants d))"

definition cloud_inv :: "db \<Rightarrow> bool" where
  "cloud_inv d \<longleftrightarrow> vm_inv d \<and> sized d \<and> routed d \<and> admin_inv d \<and> hosted d"

inductive cloud_step :: "db \<Rightarrow> db \<Rightarrow> bool" where
  machines: "api_step d d' \<Longrightarrow> cloud_step d d'"
| people: "service_step d d' \<Longrightarrow> cloud_step d d'"

lemma vm_step_keeps_cloud:
  assumes step: "vm_step d d'" and inv: "cloud_inv d"
  shows "cloud_inv d'"
proof -
  note i = inv [unfolded cloud_inv_def]
  have vm': "vm_inv d'" and life: "follows d d'" using vm_step_follows [OF step] followsD i by blast+
  have "life_step\<^sup>*\<^sup>* (inst_at d, task_at d) (inst_at d', task_at d')"
    using life by (simp add: follows_def abs_life_def)
  from life_steps_kept [OF this vm_invD(2)] i
  have kept: "\<And>k x0. inst_at d k = Some x0 \<Longrightarrow> \<exists>x1. inst_at d' k = Some x1 \<and> same_place x0 x1" by blast
  have dir: "tenants d' = tenants d" "tenant_quotas d' = tenant_quotas d" "users d' = users d"
      "refresh_tokens d' = refresh_tokens d"
    using vm_step_directory [OF step] i by (auto simp: in_place_def adds_instance_def same_directory_def)
  have "directory_ok d'" using directory_frame [OF dir(1,2)] i by (simp add: admin_inv_def)
  then have "admin_inv d'" using admin_inv_same dir(3,4) i by blast
  moreover have "hosted d'"
    unfolding hosted_def
  proof (intro allI impI)
    fix k x assume x: "inst_at d' k = Some x"
    show "inst_tenant_id x \<in> ten_id ` set (tenants d')"
    proof (cases "inst_at d k")
      case (Some x0)
      then obtain x1 where "inst_at d' k = Some x1" "same_place x0 x1"
        using kept by blast
      then have "inst_tenant_id x = inst_tenant_id x0" using x by (simp add: same_place_def)
      then show ?thesis using i Some by (simp add: hosted_def dir(1))
    next
      case None
      have "\<not> in_place d d'"
      proof
        assume "in_place d d'"
        then have "inst_at d' k = None" using None inst_at_dom [of d k] inst_at_dom [of d' k] by (simp add: in_place_def)
        with x show False by simp
      qed
      then obtain k' y t where "inst_at d' = (inst_at d)(k' \<mapsto> y)" "tenant_at d (inst_tenant_id y) = Some t"
        using vm_step_directory [OF step] i by (auto simp: adds_instance_def)
      then have "x = y" "t \<in> set (tenants d)" "ten_id t = inst_tenant_id y"
        using x None by (auto simp: tenant_at_def dest: row_of_SomeD split: if_splits)
      then show ?thesis unfolding dir(1) by (metis imageI)
    qed
  qed
  ultimately show ?thesis
    using vm' vm_step_sized [OF step] vm_step_routed [OF step] i by (simp add: cloud_inv_def)
qed

lemma audit_keeps_cloud:
  assumes "only_audit d d'" "cloud_inv d"
  shows "cloud_inv d'"
proof -
  note same = audit_frame [OF assms(1)] only_audit_sel [OF assms(1)]
  note i = assms(2) [unfolded cloud_inv_def]
  have "vm_inv d'" using follows_audit [OF follows_refl assms(1)] i followsD by blast
  moreover have "admin_inv d'" using admin_inv_audit [OF assms(1)] i by blast
  moreover have "hosted d'" using i by (simp add: hosted_def same)
  moreover have "routed d'" using i routed_outbox [OF same(8)] by blast
  moreover have "sized d'" by (rule sized_same [of d]) (use i in \<open>simp_all add: abs_life_def same\<close>)
  ultimately show ?thesis by (simp add: cloud_inv_def)
qed

lemma service_keeps_cloud:
  assumes "service_step d d'" "cloud_inv d"
  shows "cloud_inv d' \<and> abs_life d' = abs_life d"
proof -
  have p: "plant d d'" by (rule service_step_plant [OF assms(1)])
  then have at: "inst_at d' = inst_at d" "task_at d' = task_at d" "outbox_at d' = outbox_at d"
    by (simp_all add: plant_def inst_at_def task_at_def outbox_at_def fun_eq_iff)
  note i = assms(2) [unfolded cloud_inv_def]
  have "db_wf d"  using i vm_invD(1) by blast
  then have "db_wf d'" using p by (simp only: db_wf_def distinct_instances_def outbox_inv_def plant_def at) blast
  moreover have "life_inv (abs_life d')" using i by (simp add: vm_inv_def abs_life_def at)
  ultimately have "vm_inv d'" by (simp add: vm_inv_def)
  moreover have "admin_inv d'" using service.step_inv [OF _ assms(1)] i by blast
  moreover have "hosted d'" using i p by (auto simp: hosted_def at plant_def)
  moreover have life: "abs_life d' = abs_life d" by (simp add: abs_life_def at)
  moreover have "routed d'" using i p routed_outbox [of d' d] unfolding plant_def by blast
  moreover have "sized d'" by (rule sized_same [OF _ life]) (use i in blast)
  ultimately show ?thesis by (simp add: cloud_inv_def)
qed

lemma cloud_step_keeps: "cloud_step d d' \<Longrightarrow> cloud_inv d \<Longrightarrow> cloud_inv d' \<and> life_step\<^sup>*\<^sup>* (abs_life d) (abs_life d')"
proof (induction rule: cloud_step.induct)
  case (machines d d')
  then obtain d1 where d1: "d1 = d \<or> vm_step d d1" "only_audit d1 d'"
    using api_step_audited by (auto simp: cloud_inv_def audited_def)
  have "cloud_inv d'" using d1 audit_keeps_cloud vm_step_keeps_cloud machines(2) by blast
  moreover have "life_step\<^sup>*\<^sup>* (abs_life d) (abs_life d')"
    using api_step_follows [OF machines(1)] machines(2) by (simp add: cloud_inv_def follows_def)
  ultimately show ?case by blast
next
  case (people d d')
  then show ?case using service_keeps_cloud by simp
qed

lemma first_start_cloud: "first_start d \<Longrightarrow> cloud_inv d \<and> vm_start d"
proof -
  assume s: "first_start d"
  then obtain env st now where "request (bootstrap_data env st) (migrated_db now) = (Inr (), d)"
    by (auto simp: first_start_def initial_schema_empty)
  from service_step_plant [OF service_step.restarted [OF this]] have "vm_start d"
    by (simp add: plant_def vm_start_def migrated_db_def empty_db_def)
  then show ?thesis
    using s first_start_inv vm_start_inv start_sized by (auto simp: cloud_inv_def hosted_def routed_def vm_start_def inst_at_def)
qed

interpretation cloud: refinement cloud_step first_start cloud_inv abs_life life_step
proof (unfold_locales, goal_cases)
  case (1 s)
  then show ?case using first_start_cloud by blast
next
  case (2 s s')
  then show ?case using cloud_step_keeps by blast
next
  case (3 s s')
  then show ?case using cloud_step_keeps by blast
qed

text \<open>
  C2: from the first start of the service on an empty database, through any interleaving of requests
  on instances, tasks, tenants, users and sessions with whatever tokens, of result events, sweeps and
  relay steps, and of restarts: the instances and tasks go through the abstract lifecycle and keep its
  invariant, every instance belongs to an existing tenant and has positive resources, every message has
  a route, keys and names stay unique, and an active administrator and the default tenant remain.
  The first user is configured to be an administrator, without which there is no first start; results are
  arbitrary, those of deletions and cancels included, except that a successful update reports running,
  stopped or no status (\<open>reports_settled\<close>).
\<close>

theorem whole_service_refines_lifecycle:
  assumes "first_start d0" "cloud_step\<^sup>*\<^sup>* d0 d"
  shows "vm_inv d \<and> life_step\<^sup>*\<^sup>* (Map.empty, Map.empty) (inst_at d, task_at d) \<and>
    (\<forall>k i. inst_at d k = Some i \<longrightarrow> inst_tenant_id i \<in> ten_id ` set (tenants d) \<and> positive_spec (inst_spec i)) \<and>
    routed d \<and> directory_ok d \<and> users_ok d \<and> tokens_ok d \<and> (\<exists>u \<in> set (users d). active_admin u)"
proof -
  have inv: "cloud_inv d" by (rule cloud.reachable_inv [OF assms])
  have "life_step\<^sup>*\<^sup>* (abs_life d0) (abs_life d)"
    using cloud.steps_simulated [OF assms(2)] first_start_cloud [OF assms(1)] by blast
  moreover have "abs_life d0 = (Map.empty, Map.empty)"
    using first_start_cloud [OF assms(1)] by (simp add: vm_start_def abs_life_def inst_at_def task_at_def fun_eq_iff)
  ultimately show ?thesis
    using inv by (auto simp: cloud_inv_def admin_inv_def admins_ok_def hosted_def sizedD(1) abs_life_def)
qed

theorem whole_service_refines_lifecycle_witness:
  "let d0 = snd (request (bootstrap_data sample_boot sample_settings) (migrated_db 3000));
       d1 = snd (request (serve sample_api sample_bearer (ReqCreate \<lparr>bi_name = None, bi_cpu = 2, bi_memory_mib = 1024,
         bi_disk_gib = 10, bi_image_id = None, bi_tenant_id = Some default_tenant_id\<rparr>)) d0);
       d = snd (request (deactivate_user sample_api sample_bearer 100) d1) in
     vm_inv d \<and> routed d \<and> (\<exists>u \<in> set (users d). active_admin u)"
proof -
  let ?first = "snd (request (bootstrap_data sample_boot sample_settings) (migrated_db 3000))"
  let ?req = "ReqCreate \<lparr>bi_name = None, bi_cpu = 2, bi_memory_mib = 1024,
         bi_disk_gib = 10, bi_image_id = None, bi_tenant_id = Some default_tenant_id\<rparr>"
  let ?made = "snd (request (serve sample_api sample_bearer ?req) ?first)"
  let ?last = "snd (request (deactivate_user sample_api sample_bearer 100) ?made)"
  have "request (bootstrap_data sample_boot sample_settings) (migrated_db 3000) = (Inr (), ?first)"
    using sample_boot_ok prod.collapse by metis
  moreover have "st_admin_role sample_settings = ''admin''" by (simp add: sample_settings_def)
  ultimately have "first_start ?first" unfolding first_start_def using initial_schema_empty by blast
  moreover have "cloud_step ?first ?made"
    by (rule cloud_step.machines [OF api_step.serve [OF prod.collapse [symmetric]]])
  moreover have "cloud_step ?made ?last"
    by (rule cloud_step.people [OF service_step.requested [OF admin_step.user_deactivated [OF prod.collapse [symmetric]]]])
  ultimately show ?thesis
    unfolding Let_def using whole_service_refines_lifecycle rtranclp.rtrancl_into_rtrancl r_into_rtranclp by meson
qed

end
