(* ===== verification/Spec2Isabelle.thy ===== *)
theory Spec2Isabelle
  imports VM_Properties Resource_Sizes Monitor_Loop Consumer_Loop Result_Consumer Relay_Loop Messaging Api_Vm
    Api_Queries Api_Admin Api_Console Api_Images Bootstrap Startup Worker_Lifecycle Worker_Thread Schemas Service
begin

text \<open>
  The control plane of a small private cloud: the service \<^verbatim>\<open>main-api\<close>, whose Python code is
  in \<^verbatim>\<open>src/main-api/app\<close>.  It keeps tenants, users, VM instances and the tasks that change
  them in PostgreSQL, sends commands to a VM manager over RabbitMQ through a transactional
  outbox, and applies the result events that come back.  Paths below are relative to that directory.

  \<^bold>\<open>How the code is read.\<close>  A coroutine is an action \<open>'s \<Rightarrow> (error + 'a) \<times> 's\<close> (\<open>Prelude\<close>): it
  takes the state and returns the exception or the value, with the state it left.  The state of the
  data layer is the record \<open>db\<close> of \<open>Store\<close>, one list of rows per table, with the keys,
  foreign keys, checks and integer ranges of \<^verbatim>\<open>migrations/001_init.sql\<close>; a statement that breaks
  one raises and changes nothing.  A request works on a \<open>Session\<close>: what is not committed when it
  ends is lost.  Integers are unbounded as in Python; INTEGER columns refuse what does not fit
  (\<open>int4\<close>), and the 32-bit hash of the console port is a 32-bit word.  Times are microseconds
  since the epoch.

  \<^bold>\<open>The theories\<close>, in the order they build on each other.
  \<^item> Foundations: \<open>Prelude\<close> (actions, tables as lists of rows, JSON, Python's operators),
    \<open>Datetime\<close> (ISO texts), \<open>Uuid_Text\<close> (reading and writing UUIDs), \<open>Domain\<close>
    (\<^verbatim>\<open>domain/\<close>: entities, enumerations, exceptions), \<open>Store\<close>, \<open>Ports\<close>
    (\<^verbatim>\<open>ports/\<close>: the repository interfaces as locales), \<open>Session\<close> (\<^verbatim>\<open>infra/uow.py\<close>).
  \<^item> Repositories (\<^verbatim>\<open>adapters/postgres_repositories/\<close>): \<open>Instance_Repo\<close>, \<open>Task_Repo\<close>,
    \<open>Outbox\<close>, \<open>User_Repo\<close>, \<open>Tenant_Repo\<close>, \<open>Audit_Trail\<close>, and \<open>Accounting\<close>
    (\<^verbatim>\<open>adapters/resource_accounting.py\<close> over the two usage views).
  \<^item> Application: \<open>Task_State\<close> (pending and reverted instance states), \<open>Instance_Commands\<close>,
    \<open>Task_Commands\<close>, \<open>Result_Processor\<close>, \<open>Tenant_Commands\<close>, \<open>User_Commands\<close>,
    \<open>Auth_Commands\<close> with \<open>Security\<close>, \<open>Access_Control\<close>, \<open>Queries\<close>, \<open>Image_Catalog\<close>.
  \<^item> Workers and messaging (\<^verbatim>\<open>runtime/\<close>): \<open>Relay\<close> (a drain of the outbox) and \<open>Relay_Loop\<close>,
    \<open>Stale_Monitor\<close> (a sweep) and \<open>Monitor_Loop\<close>, \<open>Consumer_Loop\<close> (the messages of a channel) and
    \<open>Result_Consumer\<close> (the connections, one after the other), \<open>Messaging\<close> (the calls on the AMQP
    client), \<open>Worker_Lifecycle\<close>, \<open>Worker_Thread\<close> (the thread of a worker and its events).
  \<^item> HTTP interface (\<^verbatim>\<open>api/\<close>): \<open>Api_Common\<close> (bearer token, roles, error mapping), \<open>Api_Answers\<close>,
    \<open>Api_Vm\<close>, \<open>Api_Queries\<close>, \<open>Api_Admin\<close>, \<open>Api_Images\<close>, \<open>Api_Console\<close> over
    \<open>Console\<close> (tickets, ports, the proxy), \<open>Schemas\<close> (what a request body must be).
  \<^item> Start: \<open>Bootstrap\<close> (\<^verbatim>\<open>bootstrap/database.py\<close> and the rows of the migration),
    \<open>Startup\<close> (settings, schema, \<^verbatim>\<open>bootstrap/app_factory.py\<close>, \<^verbatim>\<open>bootstrap/worker_runner.py\<close>).
  \<^item> Specification and composition: \<open>Lifecycle\<close> (the abstract machine of instances and tasks),
    \<open>VM_System\<close> (every transaction of every handler and worker as one step relation),
    \<open>VM_Properties\<close>, \<open>Service\<close> (all requests, workers and restarts in one step relation), and
    \<open>Samples\<close> (the data of the witnesses).

  \<^bold>\<open>What is shown.\<close>
  \<^item> The lifecycle.  \<open>VM_System\<close> proves that every run of handlers, result events, sweeps and
    relay steps refines \<open>Lifecycle\<close> and keeps its invariant: one active task per instance, in the
    pending state of that task.  \<open>Api_Vm\<close> lifts this to arbitrary HTTP requests with arbitrary
    tokens and adds that a request changes one instance of a tenant its user may act for.  \<open>Service\<close> adds
    the requests on the directory and the restarts: from the first start, both halves keep their invariants.
    \<open>VM_Properties\<close> says what each event, cancel and sweep achieves, and that what is final stays.
    \<open>Consumer_Loop\<close> shows that a finished task ignores every later event; \<open>Monitor_Loop\<close> that
    enough sweeps reach every stale task; \<open>Result_Consumer\<close> that through any broken connections and
    repeated messages the consumer applies what it takes, one message after the other, and settles it, until
    it is stopped.
  \<^item> Messages.  \<open>Outbox\<close> and \<open>Relay\<close> show that enqueuing is idempotent, claims are the oldest
    due messages, attempts never exceed their bound, and the drain of the outbox ends; \<open>Relay_Loop\<close> that
    with a broker that answers every due message is sent, and none twice;
    \<open>Messaging\<close> that a command recorded as sent was published on a key bound to its queue.
  \<^item> Resources.  \<open>Accounting\<close> characterizes the quota and the capacity check;
    \<open>Instance_Commands\<close> shows that accepted creates respect both, and accepted updates the quota and
    the capacity of the host they name, and
    \<open>Resource_Sizes\<close> that no failure, cancel or retry leaves an instance without positive
    resources, so that usage is never negative and counts every instance.
  \<^item> Directory and sessions.  \<open>Api_Admin\<close> and \<open>Bootstrap\<close> keep, from the first start and
    through restarts, unique keys and names and an active administrator, \<open>Schemas\<close> that the stored
    rows meet the request schemas whatever is posted; changes of a user end his
    sessions, a spent refresh token stays dead, a login's token authenticates its user while it lives and
    he is active.
  \<^item> Reading, console, images, start.  A listing shows the asked page of exactly what the user may see; a console
    opens only on an unused, unexpired ticket of that instance; a loaded catalog is well formed.
    \<open>Startup\<close>: a start waits for its database, an application exists only on a migrated database
    with the configured data, an empty one having had its first start, and the worker process, however
    it ends, has stopped what it started; \<open>Worker_Thread\<close>: a worker never has two threads.

  \<^bold>\<open>Interfaces.\<close>  \<open>sql_table\<close> (a table with a key), \<open>instance_repository\<close> and
  \<open>task_repository\<close> (what the services rely on), \<open>accounting_port\<close> (quota and capacity),
  \<open>invariant_system\<close> and \<open>refinement\<close> (runs of a step relation) are locales, each interpreted
  on the definitions of the code: on every table of \<open>Store\<close>, on the two PostgreSQL repositories, on
  both accounting adapters, and on the systems \<open>life\<close>, \<open>vm\<close>, \<open>api\<close>, \<open>admin\<close>,
  \<open>service\<close>, \<open>posts\<close>, \<open>threads\<close> and \<open>cloud\<close>.

  \<^bold>\<open>Bounds.\<close>  The loops that end by themselves are structural.  The drain of the outbox takes fuel;
  \<open>Relay.drain_terminates\<close> shows that one more than the publish attempts left in the outbox is
  enough.  The endless loops of the relay and of the consumer take fuel too, one unit for each
  time they come round: \<open>Relay_Loop.relay_delivers\<close> and \<open>Result_Consumer.result_consumer_runs\<close> show
  that they return whenever the fuel exceeds the number of rounds before the stop event is set.  The loop
  of the monitor and the messages of one connection are finite lists.  A start tries the database twenty
  times for each of its two operations.

  \<^bold>\<open>Parameters.\<close>  Code that is not in the repository is an argument: PostgreSQL's reading of
  INET texts (\<open>inet\<close>) and its order of equally old rows (\<open>order\<close>), what SQLAlchemy emits when a
  tenant is deleted (\<open>orm_delete\<close>), PBKDF2, SHA-256 and PyJWT (\<open>kdf\<close>, \<open>sha256\<close>,
  \<open>jwt_lib\<close>), \<^verbatim>\<open>json\<close> on message bodies, the AMQP client (\<open>answer\<close>), the engine and whether the database
  server is there (\<open>platform\<close>), sockets, random
  tokens and identifiers, and the clock.  Hypotheses about them, where a property has any, state
  their documented behaviour: a token signed with an HMAC algorithm and a secret fit for it reads back
  until it expires (\<open>jwt_reads_back\<close>, \<open>hmac_key\<close>), an order is newest first.

  \<^bold>\<open>Hypotheses on what the program is told.\<close>  Result events are arbitrary, those of deletions and
  cancels included, with one exception: an update that succeeded reports its instance running,
  stopped or without a status (\<open>reports_settled\<close>), as \<^verbatim>\<open>updateVM\<close> of the VM manager does; the
  code takes this status over unchecked, and from no other result.  Every property over runs of
  result events rests on it.  The settings may be anything, but for \<open>Schemas\<close>, where those of every start keep to
  the bounds the request schemas set (\<open>settings_valid\<close>), and for the first start, whose first user is
  configured to be an administrator.

  \<^bold>\<open>Not modelled.\<close>  The framework, the engine and the event loop: what \<^verbatim>\<open>infra/db.py\<close> builds
  from them, its synchronous proxies for sessions, which only the tests use, and the dependencies that hand a
  session to its repositories (\<^verbatim>\<open>api/dependencies.py\<close>, \<^verbatim>\<open>ports/\<close>, which have no logic);
  \<open>transactional_session\<close>, which nothing calls; the parsing of request bodies into typed fields
  (their constraints are in \<open>Schemas\<close>; the properties of \<open>Api_Vm\<close>, \<open>Api_Admin\<close> and \<open>Service\<close>
  hold for every body, also those the schemas refuse); how long the workers sleep; and transactions that
  interleave inside each other: the requests on instances and tasks take the same advisory lock and
  the workers lock the rows they change, so steps are whole transactions.  The VM manager
  (\<^verbatim>\<open>src/vm-manager\<close>, in Go) and the web client (\<^verbatim>\<open>src/frontend\<close>) are separate programs
  that this one knows only by its messages and requests.
\<close>

end
